(* ===== verification/Prelude.thy ===== *)
theory Prelude
  imports Main "HOL-Library.AList"
begin

text \<open>
  What every component shares: the exceptions the code raises or catches, results that are a
  value or an exception, and Python dictionaries as association lists in insertion order.
\<close>

named_theorems res_simps "rewriting of results that are an exception or a value"
named_theorems dict_simps "rewriting of insertion-ordered dictionaries"

section \<open>Exceptions and results\<close>

text \<open>
  One constructor per exception class the modelled code raises, catches or lets through, with its
  message. The three \<open>httpx\<close> classes are the members of \<open>RETRYABLE_EXC\<close>;
  \<open>Other_Exception\<close> stands for every class no handler of the code names.
\<close>

datatype exc =
    Configuration_Error string
  | Improperly_Configured string
  | Value_Error string
  | Type_Error string
  | Key_Error string
  | Overflow_Error string
  | OS_Error string
  | Runtime_Error string
  | Network_Error string
  | Timeout_Exception string
  | Remote_Protocol_Error string
  | Permission_Denied string
  | Validation_Error "string option" string
  | Http404
  | Static_Service_Error string
  | Static_File_Expired string
  | Integrity_Error string
  | Does_Not_Exist string
  | Other_Exception string

type_synonym 'a res = "exc + 'a"

fun rbind :: "'e + 'a \<Rightarrow> ('a \<Rightarrow> 'e + 'b) \<Rightarrow> 'e + 'b" where
  "rbind (Inl e) f = Inl e"
| "rbind (Inr x) f = f x"

lemma rbind_eq_Inr [res_simps]: "rbind r f = Inr y \<longleftrightarrow> (\<exists>x. r = Inr x \<and> f x = Inr y)"
  by (cases r) auto

lemma rbind_eq_Inl [res_simps]:
  "rbind r f = Inl e \<longleftrightarrow> r = Inl e \<or> (\<exists>x. r = Inr x \<and> f x = Inl e)"
  by (cases r) auto

lemma rbind_assoc: "rbind (rbind r f) g = rbind r (\<lambda>x. rbind (f x) g)"
  by (cases r) auto

lemma rbind_Inr_right [simp]: "rbind r Inr = r"
  by (cases r) auto

fun the_default :: "'a \<Rightarrow> 'a option \<Rightarrow> 'a" where
  "the_default d None = d"
| "the_default d (Some x) = x"

section \<open>Lists\<close>

text \<open>\<open>list(dict.fromkeys(xs))\<close>: the first occurrence of each element, in order.\<close>

fun dedupe :: "'a list \<Rightarrow> 'a list" where
  "dedupe [] = []"
| "dedupe (x # xs) = x # removeAll x (dedupe xs)"

lemma set_dedupe [simp]: "set (dedupe xs) = set xs"
  by (induction xs) auto

lemma distinct_dedupe [simp]: "distinct (dedupe xs)"
  by (induction xs) (auto simp: distinct_removeAll)

lemma dedupe_distinct: "distinct xs \<Longrightarrow> dedupe xs = xs"
  by (induction xs) auto

lemma card_filter_set_le: "card {x \<in> set xs. P x} \<le> length xs"
  by (rule le_trans [OF card_mono card_length]) auto

section \<open>Dictionaries\<close>

text \<open>
  A Python \<open>dict\<close> keeps insertion order: assigning to a present key keeps its place, a new key
  goes to the end. That is what \<open>AList.update\<close> does on an association list.
\<close>

type_synonym ('k, 'v) dict = "('k \<times> 'v) list"

definition dict_get :: "('k, 'v) dict \<Rightarrow> 'k \<Rightarrow> 'v option" where
  "dict_get d k = map_of d k"

definition dict_set :: "'k \<Rightarrow> 'v \<Rightarrow> ('k, 'v) dict \<Rightarrow> ('k, 'v) dict" where
  "dict_set k v d = AList.update k v d"

definition dict_pop :: "'k \<Rightarrow> ('k, 'v) dict \<Rightarrow> ('k, 'v) dict" where
  "dict_pop k d = AList.delete k d"

text \<open>\<open>d.update(e)\<close>: the items of \<open>e\<close> assigned in order.\<close>

definition dict_update :: "('k, 'v) dict \<Rightarrow> ('k, 'v) dict \<Rightarrow> ('k, 'v) dict" where
  "dict_update d e = fold (\<lambda>(k, v). dict_set k v) e d"

definition dict_keys :: "('k, 'v) dict \<Rightarrow> 'k list" where
  "dict_keys d = map fst d"

text \<open>
  The interface the components rely on wherever they keep a keyed store: reading after writing
  and after removing. Everything about bulk updates follows from these two laws.
\<close>

locale keyed_store =
  fixes get :: "'s \<Rightarrow> 'k \<Rightarrow> 'v option"
    and put :: "'k \<Rightarrow> 'v \<Rightarrow> 's \<Rightarrow> 's"
    and remove :: "'k \<Rightarrow> 's \<Rightarrow> 's"
  assumes get_put: "get (put k v s) j = (if j = k then Some v else get s j)"
    and get_remove: "get (remove k s) j = (if j = k then None else get s j)"
begin

lemma get_put_same: "get (put k v s) k = Some v"
  by (simp add: get_put)

lemma get_put_other: "j \<noteq> k \<Longrightarrow> get (put k v s) j = get s j"
  by (simp add: get_put)

lemma get_put_all:
  "get (fold (\<lambda>(k, v). put k v) kvs s) j =
    (case map_of (rev kvs) j of Some v \<Rightarrow> Some v | None \<Rightarrow> get s j)"
  by (induction kvs arbitrary: s) (auto simp: get_put map_add_def split: option.splits)

lemma get_put_all_notin:
  "j \<notin> fst ` set kvs \<Longrightarrow> get (fold (\<lambda>(k, v). put k v) kvs s) j = get s j"
  by (induction kvs arbitrary: s) (auto simp: get_put)

end

interpretation dict: keyed_store dict_get dict_set dict_pop
  by unfold_locales (auto simp: dict_get_def dict_set_def dict_pop_def update_conv' delete_conv')

lemmas [dict_simps] = dict.get_put dict.get_remove

lemma dict_get_Nil [simp]: "dict_get [] k = None"
  by (simp add: dict_get_def)

lemma dict_get_Cons [simp]: "dict_get ((j, v) # d) k = (if k = j then Some v else dict_get d k)"
  by (simp add: dict_get_def)

lemma dict_get_update [dict_simps]:
  "dict_get (dict_update d e) k =
    (case map_of (rev e) k of Some v \<Rightarrow> Some v | None \<Rightarrow> dict_get d k)"
  by (simp add: dict_update_def dict.get_put_all)

text \<open>Well-formed dictionaries have no repeated key; every operation keeps that.\<close>

definition dict_ok :: "('k, 'v) dict \<Rightarrow> bool" where
  "dict_ok d \<longleftrightarrow> distinct (dict_keys d)"

lemma dict_ok_Nil [simp]: "dict_ok []"
  by (simp add: dict_ok_def dict_keys_def)

lemma dict_ok_set [simp, intro]: "dict_ok d \<Longrightarrow> dict_ok (dict_set k v d)"
  by (simp add: dict_ok_def dict_keys_def dict_set_def distinct_update)

lemma dict_ok_pop [simp, intro]: "dict_ok d \<Longrightarrow> dict_ok (dict_pop k d)"
  by (simp add: dict_ok_def dict_keys_def dict_pop_def distinct_delete)

lemma dict_ok_update [simp, intro]: "dict_ok d \<Longrightarrow> dict_ok (dict_update d e)"
  unfolding dict_update_def by (induction e arbitrary: d) auto

lemma map_of_rev_distinct: "distinct (map fst d) \<Longrightarrow> map_of (rev d) = map_of d"
  by (rule map_of_eqI) (auto simp: image_iff distinct_map rev_map[symmetric])

lemma dict_get_update_ok:
  "dict_ok e \<Longrightarrow>
    dict_get (dict_update d e) k = (case dict_get e k of Some v \<Rightarrow> Some v | None \<Rightarrow> dict_get d k)"
  by (simp add: dict_get_update map_of_rev_distinct dict_ok_def dict_keys_def dict_get_def [of e])

lemma dict_keys_set:
  "dict_keys (dict_set k v d) = (if k \<in> set (dict_keys d) then dict_keys d else dict_keys d @ [k])"
  by (simp add: dict_keys_def dict_set_def update_keys)

lemma dict_get_None_iff: "dict_get d k = None \<longleftrightarrow> k \<notin> set (dict_keys d)"
  by (simp add: dict_get_def dict_keys_def map_of_eq_None_iff)

lemma dict_keys_Nil [simp]: "dict_keys [] = []"
  by (simp add: dict_keys_def)

lemma dict_keys_Cons [simp]: "dict_keys (p # d) = fst p # dict_keys d"
  by (simp add: dict_keys_def)

lemma set_dict_set_new: "dict_get d k = None \<Longrightarrow> set (dict_set k v d) = insert (k, v) (set d)"
  by (induction d) (auto simp: dict_set_def split: if_splits)

lemma set_dict_update_new:
  assumes "dict_get e k = None" and "dict_ok e"
  shows "set (dict_update [(k, v)] e) = insert (k, v) (set e)"
proof -
  have "set (dict_update d e) = set d \<union> set e"
    if "distinct (dict_keys d @ dict_keys e)" for d
    using that
  proof (induction e arbitrary: d)
    case Nil
    then show ?case by (simp add: dict_update_def)
  next
    case (Cons p e)
    obtain j x where p: "p = (j, x)" by force
    with Cons.prems have "dict_get d j = None" by (auto simp: dict_get_None_iff)
    moreover from this Cons.prems p have "distinct (dict_keys (dict_set j x d) @ dict_keys e)"
      by (auto simp: dict_keys_set dict_get_None_iff)
    ultimately show ?case
      using Cons.IH [of "dict_set j x d"] p by (auto simp: dict_update_def set_dict_set_new)
  qed
  from this [of "[(k, v)]"] assms show ?thesis
    by (simp add: dict_ok_def dict_get_None_iff)
qed

lemma dict_get_map_self:
  "dict_get (map (\<lambda>n. (n, f n)) ns) n = (if n \<in> set ns then Some (f n) else None)"
  by (induction ns) auto

text \<open>Building a dictionary from pairs, and restricting one to some keys.\<close>

lemma dict_update_append: "dict_update d (e @ f) = dict_update (dict_update d e) f"
  by (simp add: dict_update_def)

lemma dict_set_all:
  "\<forall>p \<in> set d. P p \<Longrightarrow> P (k, v) \<Longrightarrow> \<forall>p \<in> set (dict_set k v d). P p"
  by (induction d) (auto simp: dict_set_def split: if_splits)

lemma dict_update_all_from:
  "\<forall>p \<in> set d. P p \<Longrightarrow> \<forall>p \<in> set e. P p \<Longrightarrow> \<forall>p \<in> set (dict_update d e). P p"
proof (induction e arbitrary: d)
  case Nil
  then show ?case by (simp add: dict_update_def)
next
  case (Cons p e)
  then have "\<forall>q \<in> set (dict_set (fst p) (snd p) d). P q" by (intro dict_set_all) auto
  from Cons.IH [OF this] Cons.prems(2) show ?case by (simp add: dict_update_def split_def)
qed

lemma dict_update_all: "\<forall>p \<in> set e. P p \<Longrightarrow> \<forall>p \<in> set (dict_update [] e). P p"
  by (rule dict_update_all_from) simp_all

lemma dict_set_fresh: "k \<notin> set (dict_keys d) \<Longrightarrow> dict_set k v d = d @ [(k, v)]"
  by (induction d) (auto simp: dict_set_def)

lemma dict_update_fresh:
  "distinct (dict_keys d @ dict_keys e) \<Longrightarrow> dict_update d e = d @ e"
proof (induction e arbitrary: d)
  case Nil
  then show ?case by (simp add: dict_update_def)
next
  case (Cons p e)
  then have "dict_set (fst p) (snd p) d = d @ [p]" by (intro trans [OF dict_set_fresh]) auto
  moreover have "distinct (dict_keys (d @ [p]) @ dict_keys e)"
    using Cons.prems by (auto simp: dict_keys_def)
  ultimately show ?case
    using Cons.IH [of "d @ [p]"] by (simp add: dict_update_def split_def)
qed

lemma dict_update_Nil: "dict_ok e \<Longrightarrow> dict_update [] e = e"
  using dict_update_fresh [of "[]" e] by (simp add: dict_ok_def)

lemma dict_get_filter_keys:
  "dict_get (filter (\<lambda>(k, v). P k) d) k = (if P k then dict_get d k else None)"
  by (induction d) auto

end
