(* ===== verification/Py_Text.thy ===== *)
theory Py_Text
  imports Prelude Complex_Main "HOL-Library.Char_ord"
begin

text \<open>
  The part of Python's \<open>str\<close>, \<open>int\<close> and \<open>float\<close> the code uses: stripping, case,
  decimal output, \<open>int(text)\<close> and \<open>float(text)\<close> with their whole grammar, \<open>repr\<close> of
  a string, and comparison of floats with the infinities and NaN. Text is ASCII: a Python string
  is a list of characters below 128. Floats are exact reals (rounding is not modelled).
\<close>

section \<open>Characters, stripping and case\<close>

definition code :: "char \<Rightarrow> nat" where
  "code c = of_char c"

definition is_space :: "char \<Rightarrow> bool" where
  "is_space c \<longleftrightarrow> (9 \<le> code c \<and> code c \<le> 13) \<or> (28 \<le> code c \<and> code c \<le> 32)"

definition strip :: "string \<Rightarrow> string" where
  "strip s = rev (dropWhile is_space (rev (dropWhile is_space s)))"

definition lower_char :: "char \<Rightarrow> char" where
  "lower_char c = (if 65 \<le> code c \<and> code c \<le> 90 then char_of (code c + 32) else c)"

definition upper_char :: "char \<Rightarrow> char" where
  "upper_char c = (if 97 \<le> code c \<and> code c \<le> 122 then char_of (code c - 32) else c)"

definition lower :: "string \<Rightarrow> string" where
  "lower s = map lower_char s"

definition upper :: "string \<Rightarrow> string" where
  "upper s = map upper_char s"


lemma dropWhile_id: "s = [] \<or> \<not> P (hd s) \<Longrightarrow> dropWhile P s = s"
  by (cases s) auto

lemma last_dropWhile: "dropWhile P s \<noteq> [] \<Longrightarrow> last (dropWhile P s) = last s"
  by (metis append_is_Nil_conv last_appendR takeWhile_dropWhile_id)

lemma strip_ends:
  assumes "strip s \<noteq> []"
  shows "\<not> is_space (hd (strip s)) \<and> \<not> is_space (last (strip s))"
proof
  let ?t = "dropWhile is_space s"
  let ?u = "dropWhile is_space (rev ?t)"
  from assms have u: "?u \<noteq> []" by (simp add: strip_def)
  then have "?t \<noteq> []" by (metis dropWhile.simps(1) rev.simps(1))
  with u have "hd (strip s) = hd ?t"
    using last_dropWhile [OF u] by (simp only: strip_def hd_rev last_rev)
  with \<open>?t \<noteq> []\<close> show "\<not> is_space (hd (strip s))" by (simp add: hd_dropWhile)
  from u show "\<not> is_space (last (strip s))"
    by (simp add: strip_def last_rev hd_dropWhile)
qed

lemma strip_id: "s = [] \<or> (\<not> is_space (hd s) \<and> \<not> is_space (last s)) \<Longrightarrow> strip s = s"
  by (auto simp: strip_def dropWhile_id hd_rev)

lemma strip_idem [simp]: "strip (strip s) = strip s"
  using strip_ends by (intro strip_id) blast

lemma code_char_of: "n < 256 \<Longrightarrow> code (char_of n) = n"
  by (simp add: code_def)

lemma lower_char_idem [simp]: "lower_char (lower_char c) = lower_char c"
  by (auto simp: lower_char_def code_char_of)

lemma lower_idem [simp]: "lower (lower s) = lower s"
  by (simp add: lower_def o_def)

section \<open>Integers as text\<close>

definition is_digit :: "char \<Rightarrow> bool" where
  "is_digit c \<longleftrightarrow> 48 \<le> code c \<and> code c \<le> 57"

definition digit :: "nat \<Rightarrow> char" where
  "digit n = char_of (48 + n)"

fun nat_str :: "nat \<Rightarrow> string" where
  "nat_str n = (if n < 10 then [digit n] else nat_str (n div 10) @ [digit (n mod 10)])"

declare nat_str.simps [simp del]

definition int_str :: "int \<Rightarrow> string" where
  "int_str i = (if i < 0 then ''-'' @ nat_str (nat (- i)) else nat_str (nat i))"

definition digits_val :: "string \<Rightarrow> nat" where
  "digits_val s = foldl (\<lambda>a c. 10 * a + (code c - 48)) 0 s"

lemma code_digit: "n < 10 \<Longrightarrow> code (digit n) = 48 + n"
  by (simp add: digit_def code_char_of)

lemma digits_val_snoc: "digits_val (s @ [c]) = 10 * digits_val s + (code c - 48)"
  by (simp add: digits_val_def)

lemma digits_val_nat_str [simp]: "digits_val (nat_str n) = n"
proof (induction n rule: nat_str.induct)
  case (1 n)
  then show ?case
    by (subst nat_str.simps) (auto simp: digits_val_snoc code_digit digits_val_def)
qed

lemma is_digit_digit: "n < 10 \<Longrightarrow> is_digit (digit n)"
  by (simp add: is_digit_def code_digit)

lemma nat_str_digits: "list_all is_digit (nat_str n)"
proof (induction n rule: nat_str.induct)
  case (1 n)
  then show ?case
    by (subst nat_str.simps) (auto simp: is_digit_digit)
qed

lemma nat_str_not_Nil [simp]: "nat_str n \<noteq> []"
  by (subst nat_str.simps) simp

lemma nat_str_inject [simp]: "nat_str m = nat_str n \<longleftrightarrow> m = n"
  by (metis digits_val_nat_str)

lemma hd_nat_str: "is_digit (hd (nat_str n))"
  using nat_str_digits [of n] by (cases "nat_str n") auto

text \<open>
  A run of digits in which single underscores may stand between two digits; the scan returns the
  digits without the underscores and what follows them. \<open>digits0\<close> asks for a digit first.
\<close>

fun scan_digits :: "string \<Rightarrow> string \<times> string" where
  "scan_digits [] = ([], [])"
| "scan_digits (c # cs) =
    (if is_digit c then (let (ds, r) = scan_digits cs in (c # ds, r))
     else if c = CHR ''_'' \<and> cs \<noteq> [] \<and> is_digit (hd cs) then scan_digits cs
     else ([], c # cs))"

definition digits0 :: "string \<Rightarrow> string \<times> string" where
  "digits0 s = (if s \<noteq> [] \<and> is_digit (hd s) then scan_digits s else ([], s))"

text \<open>On ASCII text \<open>int\<close> and \<open>float\<close> trim the C locale's white space only.\<close>

definition c_space :: "char \<Rightarrow> bool" where
  "c_space c \<longleftrightarrow> (9 \<le> code c \<and> code c \<le> 13) \<or> code c = 32"

definition c_trim :: "string \<Rightarrow> string" where
  "c_trim s = rev (dropWhile c_space (rev (dropWhile c_space s)))"

definition split_sign :: "string \<Rightarrow> bool \<times> string" where
  "split_sign s = (case s of [] \<Rightarrow> (False, [])
    | c # cs \<Rightarrow> if c = CHR ''-'' then (True, cs) else if c = CHR ''+'' then (False, cs) else (False, s))"

text \<open>
  \<open>int(text)\<close>: an optional sign and a digit run, nothing else; \<open>None\<close> is the
  \<open>ValueError\<close>. More than 4300 digits is a \<open>ValueError\<close> too (the interpreter's limit).
\<close>

definition max_str_digits :: nat where
  "max_str_digits = 4300"

definition py_int :: "string \<Rightarrow> int option" where
  "py_int s =
    (let (neg, b) = split_sign (c_trim s); (ds, r) = digits0 b
     in if ds = [] \<or> r \<noteq> [] \<or> length ds > max_str_digits then None
        else Some (if neg then - int (digits_val ds) else int (digits_val ds)))"

lemma scan_digits_all: "list_all is_digit s \<Longrightarrow> scan_digits s = (s, [])"
  by (induction s) auto

lemma not_space_digit: "is_digit c \<Longrightarrow> \<not> c_space c \<and> \<not> is_space c"
  by (auto simp: is_digit_def c_space_def is_space_def)

lemma c_trim_id: "s = [] \<or> (\<not> c_space (hd s) \<and> \<not> c_space (last s)) \<Longrightarrow> c_trim s = s"
  by (auto simp: c_trim_def dropWhile_id hd_rev)

lemma last_nat_str: "is_digit (last (nat_str n))"
  using nat_str_digits [of n] by (simp add: list_all_iff)

lemma not_space_minus: "\<not> c_space (CHR ''-'') \<and> \<not> is_space (CHR ''-'')"
  by (simp add: c_space_def is_space_def code_def)

lemma c_trim_int_str [simp]: "c_trim (int_str i) = int_str i"
  by (rule c_trim_id)
    (auto simp: int_str_def not_space_digit hd_nat_str last_nat_str not_space_minus)

lemma strip_int_str [simp]: "strip (int_str i) = int_str i"
  by (rule strip_id)
    (auto simp: int_str_def not_space_digit hd_nat_str last_nat_str not_space_minus)

lemma int_str_not_Nil [simp]: "int_str i \<noteq> []"
  by (simp add: int_str_def)

lemma digits0_nat_str: "digits0 (nat_str n) = (nat_str n, [])"
  by (simp add: digits0_def hd_nat_str scan_digits_all nat_str_digits)

lemma split_sign_nat_str: "split_sign (nat_str n) = (False, nat_str n)"
  using hd_nat_str [of n]
  by (cases "nat_str n") (auto simp: split_sign_def is_digit_def code_def)

lemma split_sign_minus: "split_sign (CHR ''-'' # s) = (True, s)"
  by (simp add: split_sign_def)

lemma py_int_int_str:
  assumes "length (nat_str (nat \<bar>i\<bar>)) \<le> max_str_digits"
  shows "py_int (int_str i) = Some i"
proof (cases "i < 0")
  case True
  then have "int_str i = CHR ''-'' # nat_str (nat (- i))" by (simp add: int_str_def)
  with assms True show ?thesis
    using c_trim_int_str [of i] by (simp add: py_int_def split_sign_minus digits0_nat_str)
next
  case False
  then have "int_str i = nat_str (nat i)" by (simp add: int_str_def)
  with assms False show ?thesis
    using c_trim_int_str [of i] by (simp add: py_int_def split_sign_nat_str digits0_nat_str)
qed

section \<open>Floats\<close>

text \<open>
  A float is a finite number, one of the infinities or NaN. Comparisons with NaN are false, and
  \<open>max\<close> and \<open>min\<close> keep their first argument unless the second is strictly larger
  (smaller), as the builtins do: that is what lets a NaN through a clamp.
\<close>

datatype pyfloat = Fin real | PInf | NInf | NaN

fun flt_less :: "pyfloat \<Rightarrow> pyfloat \<Rightarrow> bool" where
  "flt_less NaN _ = False"
| "flt_less _ NaN = False"
| "flt_less (Fin x) (Fin y) = (x < y)"
| "flt_less (Fin _) PInf = True"
| "flt_less (Fin _) NInf = False"
| "flt_less PInf _ = False"
| "flt_less NInf NInf = False"
| "flt_less NInf _ = True"

fun flt_eq :: "pyfloat \<Rightarrow> pyfloat \<Rightarrow> bool" where
  "flt_eq NaN _ = False"
| "flt_eq x y = (x = y)"

definition flt_le :: "pyfloat \<Rightarrow> pyfloat \<Rightarrow> bool" where
  "flt_le x y \<longleftrightarrow> flt_less x y \<or> flt_eq x y"

definition py_max :: "pyfloat \<Rightarrow> pyfloat \<Rightarrow> pyfloat" where
  "py_max x y = (if flt_less x y then y else x)"

definition py_min :: "pyfloat \<Rightarrow> pyfloat \<Rightarrow> pyfloat" where
  "py_min x y = (if flt_less y x then y else x)"

fun flt_neg :: "pyfloat \<Rightarrow> pyfloat" where
  "flt_neg (Fin x) = Fin (- x)"
| "flt_neg PInf = NInf"
| "flt_neg NInf = PInf"
| "flt_neg NaN = NaN"

text \<open>\<open>int(x)\<close> of a float truncates towards zero and raises on NaN and the infinities.\<close>

definition int_of_float :: "pyfloat \<Rightarrow> int res" where
  "int_of_float x = (case x of
      Fin r \<Rightarrow> Inr (if 0 \<le> r then \<lfloor>r\<rfloor> else \<lceil>r\<rceil>)
    | NaN \<Rightarrow> Inl (Value_Error ''cannot convert float NaN to integer'')
    | _ \<Rightarrow> Inl (Overflow_Error ''cannot convert float infinity to integer''))"

text \<open>
  \<open>float(text)\<close>: sign, then an infinity, NaN, or digits with an optional point and exponent.
  A finite value at or above \<open>2^1024 - 2^970\<close> overflows to infinity.
\<close>

definition float_overflow :: real where
  "float_overflow = 2 ^ 1024 - 2 ^ 970"

definition scale10 :: "nat \<Rightarrow> int \<Rightarrow> real" where
  "scale10 m e = (if 0 \<le> e then of_nat m * 10 ^ nat e else of_nat m / 10 ^ nat (- e))"

definition exponent :: "string \<Rightarrow> (int \<times> string) option" where
  "exponent s = (case s of [] \<Rightarrow> Some (0, [])
    | c # cs \<Rightarrow>
      if lower_char c = CHR ''e'' then
        (let (neg, b) = split_sign cs; (ds, r) = digits0 b
         in if ds = [] then None
            else Some (if neg then - int (digits_val ds) else int (digits_val ds), r))
      else Some (0, s))"

definition float_body :: "string \<Rightarrow> pyfloat option" where
  "float_body s =
    (if lower s = ''inf'' \<or> lower s = ''infinity'' then Some PInf
     else if lower s = ''nan'' then Some NaN
     else
       let (ip, r) = digits0 s;
           (fp, r') = (case r of [] \<Rightarrow> ([], []) | c # cs \<Rightarrow> if c = CHR ''.'' then digits0 cs else ([], r))
       in if ip @ fp = [] then None
          else (case exponent r' of
            Some (e, []) \<Rightarrow>
              (let v = scale10 (digits_val (ip @ fp)) (e - int (length fp))
               in Some (if v \<ge> float_overflow then PInf else Fin v))
          | _ \<Rightarrow> None))"

definition py_float :: "string \<Rightarrow> pyfloat option" where
  "py_float s = (let (neg, b) = split_sign (c_trim s)
    in map_option (\<lambda>v. if neg then flt_neg v else v) (float_body b))"

section \<open>Membership, joining and \<open>repr\<close>\<close>

definition contains :: "string \<Rightarrow> string \<Rightarrow> bool" where
  "contains needle hay \<longleftrightarrow> list_ex (\<lambda>i. take (length needle) (drop i hay) = needle) [0..<Suc (length hay)]"

fun join :: "string \<Rightarrow> string list \<Rightarrow> string" where
  "join sep [] = []"
| "join sep [s] = s"
| "join sep (s # ss) = s @ sep @ join sep ss"

fun split_on :: "char \<Rightarrow> string \<Rightarrow> string list" where
  "split_on d [] = [[]]"
| "split_on d (c # cs) =
    (if c = d then [] # split_on d cs
     else (case split_on d cs of [] \<Rightarrow> [[c]] | w # ws \<Rightarrow> (c # w) # ws))"

definition starts_with :: "string \<Rightarrow> string \<Rightarrow> bool" where
  "starts_with p s \<longleftrightarrow> take (length p) s = p"

definition ends_with :: "string \<Rightarrow> string \<Rightarrow> bool" where
  "ends_with p s \<longleftrightarrow> length p \<le> length s \<and> drop (length s - length p) s = p"

definition hex_digit :: "nat \<Rightarrow> char" where
  "hex_digit n = (if n < 10 then digit n else char_of (87 + n))"

definition repr_char :: "char \<Rightarrow> char \<Rightarrow> string" where
  "repr_char q c =
    (let n = code c in
     if c = q \<or> n = 92 then [char_of (92::nat), c]
     else if n = 9 then [char_of (92::nat), CHR ''t'']
     else if n = 10 then [char_of (92::nat), CHR ''n'']
     else if n = 13 then [char_of (92::nat), CHR ''r'']
     else if n < 32 \<or> n = 127 then [char_of (92::nat), CHR ''x'', hex_digit (n div 16), hex_digit (n mod 16)]
     else [c])"

text \<open>\<open>repr\<close> of a string quotes with an apostrophe unless the text has one and no double quote.\<close>

definition apostrophe :: char where "apostrophe = char_of (39::nat)"
definition double_quote :: char where "double_quote = char_of (34::nat)"

definition repr_str :: "string \<Rightarrow> string" where
  "repr_str s =
    (let q = (if apostrophe \<in> set s \<and> double_quote \<notin> set s then double_quote else apostrophe)
     in [q] @ concat (map (repr_char q) s) @ [q])"

text \<open>\<open>json.dumps\<close> of a string: printable ASCII as it is, the rest escaped.\<close>

definition json_char :: "char \<Rightarrow> string" where
  "json_char c =
    (let n = code c; b = char_of (92::nat) in
     if n = 34 \<or> n = 92 then [b, c]
     else if n = 10 then [b, CHR ''n'']
     else if n = 13 then [b, CHR ''r'']
     else if n = 9 then [b, CHR ''t'']
     else if n = 12 then [b, CHR ''f'']
     else if n = 8 then [b, CHR ''b'']
     else if n < 32 \<or> 126 < n then [b, CHR ''u'', CHR ''0'', CHR ''0'', hex_digit (n div 16), hex_digit (n mod 16)]
     else [c])"

definition json_str :: "string \<Rightarrow> string" where
  "json_str s = [double_quote] @ concat (map json_char s) @ [double_quote]"

lemma not_flt_less_zero_max: "\<not> flt_less (py_max x (Fin 0)) (Fin 0)"
  by (cases x) (auto simp: py_max_def)

lemma clamp_finite:
  "x \<noteq> NaN \<Longrightarrow> 0 \<le> m \<Longrightarrow>
    \<exists>d. py_min (py_max x (Fin 0)) (Fin m) = Fin d \<and> 0 \<le> d \<and> d \<le> m"
  by (cases x) (auto simp: py_min_def py_max_def)

lemma clamp_NaN: "py_min (py_max NaN (Fin 0)) (Fin m) = NaN"
  by (simp add: py_min_def py_max_def)

text \<open>Evaluation of closed text by \<open>simp\<close>.\<close>

lemmas text_eval = strip_def is_space_def code_def lower_def lower_char_def upper_def upper_char_def
  c_trim_def c_space_def split_sign_def digits0_def is_digit_def digits_val_def py_int_def
  max_str_digits_def
lemmas float_eval = text_eval py_float_def float_body_def exponent_def scale10_def float_overflow_def

end
