(* ===== verification/Env.thy ===== *)
theory Env
  imports Py_Text
begin

text \<open>
  \<open>netix_backend/env.py\<close>: parsing of environment variables. \<open>os.environ\<close> is a map from
  names to values, read at call time; every reader goes through \<open>lookup\<close>, which strips the
  value and treats an empty one as unset. A reader that raises returns \<open>Inl\<close>; the one that
  logs returns the records it logged.
\<close>

type_synonym environ = "string \<rightharpoonup> string"

definition TRUTHY :: "string list" where
  "TRUTHY = [''1'', ''true'', ''yes'', ''on'']"

definition FALSY :: "string list" where
  "FALSY = [''0'', ''false'', ''no'', ''off'']"

definition lookup :: "environ \<Rightarrow> string \<Rightarrow> string option" where
  "lookup env name =
    (case env name of
      None \<Rightarrow> None
    | Some v \<Rightarrow> (let stripped = strip v in if stripped = [] then None else Some stripped))"

definition parse_bool :: "string option \<Rightarrow> bool \<Rightarrow> bool" where
  "parse_bool v dflt =
    (case v of
      None \<Rightarrow> dflt
    | Some s \<Rightarrow>
        (let normalized = lower (strip s) in
         if normalized \<in> set TRUTHY then True
         else if normalized \<in> set FALSY then False
         else dflt))"

text \<open>\<open>env_bool\<close> takes a bool or, for compatibility, a string as its default.\<close>

datatype bool_default = Default_Bool bool | Default_Str string

definition env_bool :: "environ \<Rightarrow> string \<Rightarrow> bool_default \<Rightarrow> bool" where
  "env_bool env name dflt =
    (let fallback = (case dflt of Default_Bool b \<Rightarrow> b | Default_Str s \<Rightarrow> parse_bool (Some s) False)
     in parse_bool (lookup env name) fallback)"

text \<open>The ERROR record of \<open>env_bool_strict\<close>: variable, raw value, accepted spellings, fallback.\<close>

datatype bool_log = Not_A_Boolean string string "string list" "string list" bool

definition env_bool_strict :: "environ \<Rightarrow> string \<Rightarrow> bool \<Rightarrow> bool \<times> bool_log list" where
  "env_bool_strict env name dflt =
    (case lookup env name of
      None \<Rightarrow> (dflt, [])
    | Some raw \<Rightarrow>
        (let normalized = lower raw in
         if normalized \<in> set TRUTHY then (True, [])
         else if normalized \<in> set FALSY then (False, [])
         else (dflt, [Not_A_Boolean name raw [''1'', ''on'', ''true'', ''yes'']
                [''0'', ''false'', ''no'', ''off''] dflt])))"

definition env_str :: "environ \<Rightarrow> string \<Rightarrow> string option \<Rightarrow> bool \<Rightarrow> string option res" where
  "env_str env name dflt required =
    (case lookup env name of
      Some v \<Rightarrow> Inr (Some v)
    | None \<Rightarrow>
        if required then Inl (Configuration_Error (''Missing required environment variable '' @ name))
        else Inr dflt)"

text \<open>The loop over names that \<open>env_first\<close> and \<open>service_authorization\<close> share.\<close>

fun first_set :: "environ \<Rightarrow> string list \<Rightarrow> string option" where
  "first_set env [] = None"
| "first_set env (name # names) =
    (case lookup env name of Some v \<Rightarrow> Some v | None \<Rightarrow> first_set env names)"

definition env_first :: "environ \<Rightarrow> string list \<Rightarrow> string option \<Rightarrow> bool \<Rightarrow> string option res" where
  "env_first env names dflt required =
    (case first_set env names of
      Some v \<Rightarrow> Inr (Some v)
    | None \<Rightarrow>
        if required
        then Inl (Configuration_Error (''Missing required environment variable '' @ join '' or '' names))
        else Inr dflt)"

definition env_int :: "environ \<Rightarrow> string \<Rightarrow> int \<Rightarrow> int res" where
  "env_int env name dflt =
    (case lookup env name of
      None \<Rightarrow> Inr dflt
    | Some raw \<Rightarrow>
        (case py_int raw of
          Some i \<Rightarrow> Inr i
        | None \<Rightarrow> Inl (Configuration_Error (name @ ''='' @ repr_str raw @ '' is not an integer''))))"

definition env_float :: "environ \<Rightarrow> string \<Rightarrow> pyfloat \<Rightarrow> pyfloat res" where
  "env_float env name dflt =
    (case lookup env name of
      None \<Rightarrow> Inr dflt
    | Some raw \<Rightarrow>
        (case py_float raw of
          Some x \<Rightarrow> Inr x
        | None \<Rightarrow> Inl (Configuration_Error (name @ ''='' @ repr_str raw @ '' is not a number''))))"

definition service_authorization :: "environ \<Rightarrow> string list \<Rightarrow> string \<Rightarrow> string res" where
  "service_authorization env env_names fallback =
    (let names = (if fallback = [] then env_names else env_names @ [fallback]) in
     case first_set env names of
       Some v \<Rightarrow> Inr v
     | None \<Rightarrow> Inl (Configuration_Error (''Missing '' @ join '' or '' names @ '' environment variable'')))"

definition default_credential :: string where
  "default_credential = ''USER_SVC_AUTH''"

section \<open>The reading interface\<close>

text \<open>
  What every reader relies on: a value that is returned is stripped and not empty. The lemmas on
  the readers are proved from that contract, and hold for \<open>lookup\<close> on any environment.
\<close>

locale config_source =
  fixes read :: "string \<Rightarrow> string option"
  assumes read_stripped: "read name = Some v \<Longrightarrow> strip v = v"
    and read_not_empty: "read name = Some v \<Longrightarrow> v \<noteq> []"
begin

text \<open>Stripping again before comparing changes nothing, so both boolean readers see one spelling.\<close>

lemma parse_bool_read:
  "parse_bool (read name) d =
    (case read name of None \<Rightarrow> d
     | Some v \<Rightarrow> if lower v \<in> set TRUTHY then True else if lower v \<in> set FALSY then False else d)"
  by (auto simp: parse_bool_def read_stripped Let_def split: option.splits)

end

interpretation env_source: config_source "lookup env" for env
  by unfold_locales (auto simp: lookup_def Let_def split: option.splits if_splits)

lemma first_set_Some:
  "first_set env names = Some v \<Longrightarrow>
    \<exists>pre n post. names = pre @ n # post \<and> (\<forall>m \<in> set pre. lookup env m = None) \<and> lookup env n = Some v"
proof (induction names)
  case Nil
  then show ?case by simp
next
  case (Cons n names)
  show ?case
  proof (cases "lookup env n")
    case None
    with Cons obtain pre k post where
      "names = pre @ k # post" "\<forall>m \<in> set pre. lookup env m = None" "lookup env k = Some v"
      by auto
    with None show ?thesis by (intro exI [of _ "n # pre"]) auto
  next
    case (Some w)
    with Cons.prems show ?thesis
      by (intro exI [of _ "[]"] exI [of _ n] exI [of _ names]) auto
  qed
qed

lemma first_set_None: "first_set env names = None \<longleftrightarrow> (\<forall>n \<in> set names. lookup env n = None)"
  by (induction names) (auto split: option.splits)

lemma first_set_stripped: "first_set env names = Some v \<Longrightarrow> v \<noteq> [] \<and> strip v = v"
  using first_set_Some [of env names v] env_source.read_not_empty env_source.read_stripped
  by blast

section \<open>Properties\<close>

text \<open>
  A service credential is never empty: what \<open>service_authorization\<close> returns is the
  stripped, non-empty value of the first name that is set, the fallback name last, and it raises
  exactly when none of the names is set.
\<close>

theorem service_authorization_first_set:
  "(service_authorization env names fallback = Inr v \<longrightarrow>
      v \<noteq> [] \<and> strip v = v \<and>
      (\<exists>pre n post. names @ (if fallback = [] then [] else [fallback]) = pre @ n # post \<and>
        (\<forall>m \<in> set pre. lookup env m = None) \<and> lookup env n = Some v)) \<and>
   ((\<exists>e. service_authorization env names fallback = Inl e) \<longleftrightarrow>
      (\<forall>n \<in> set names. lookup env n = None) \<and> (fallback = [] \<or> lookup env fallback = None))"
  using first_set_Some [of env "names @ (if fallback = [] then [] else [fallback])" v]
    first_set_stripped [of env "names @ (if fallback = [] then [] else [fallback])" v]
    first_set_None [of env "names @ (if fallback = [] then [] else [fallback])"]
  by (auto simp: service_authorization_def Let_def split: option.splits if_splits)

text \<open>The fallback is read when the first name holds only white space.\<close>

lemma service_authorization_witness:
  "service_authorization [''ASSET_SVC_AUTH'' \<mapsto> ''  '', ''USER_SVC_AUTH'' \<mapsto> '' key ''] [''ASSET_SVC_AUTH'']
      default_credential = Inr ''key'' \<and> strip ''key'' = ''key''"
proof -
  let ?env = "[''ASSET_SVC_AUTH'' \<mapsto> ''  '', ''USER_SVC_AUTH'' \<mapsto> '' key '']"
  have h: "service_authorization ?env [''ASSET_SVC_AUTH''] default_credential = Inr ''key''"
    by (simp add: service_authorization_def default_credential_def lookup_def text_eval)
  show ?thesis
    using h service_authorization_first_set [of ?env "[''ASSET_SVC_AUTH'']" default_credential "''key''"]
    by blast
qed

text \<open>
  The strict boolean reader returns what the lenient one returns for the same boolean default,
  and it logs exactly when the variable holds a spelling in neither accepted set.
\<close>

theorem env_bool_strict_agrees:
  "fst (env_bool_strict env name d) = env_bool env name (Default_Bool d) \<and>
   (snd (env_bool_strict env name d) = [] \<longleftrightarrow>
      (case lookup env name of None \<Rightarrow> True | Some raw \<Rightarrow> lower raw \<in> set TRUTHY \<union> set FALSY))"
  by (auto simp: env_bool_def env_bool_strict_def env_source.parse_bool_read Let_def
      split: option.splits)

text \<open>
  Reading an integer variable gives back the integer that was written in decimal, whatever the
  default; the interpreter's digit limit is the only bound.
\<close>

theorem env_int_roundtrip:
  assumes "length (nat_str (nat \<bar>i\<bar>)) \<le> max_str_digits"
  shows "env_int (env(name \<mapsto> int_str i)) name d = Inr i"
  using assms by (simp add: env_int_def lookup_def py_int_int_str)

lemma env_int_roundtrip_witness:
  "env_int [''NETIX_HTTP_RETRIES'' \<mapsto> int_str (- 42)] ''NETIX_HTTP_RETRIES'' 2 = Inr (- 42)"
  by (rule env_int_roundtrip) (simp add: nat_str.simps max_str_digits_def)

end
