(* ===== verification/Attempt_Loop.thy ===== *)
theory Attempt_Loop
  imports Main
begin

text \<open>
  The contract shared by the retry loops of the package (the sync and async HTTP transports, the
  request under a deadline, static uploads and downloads, the registration loop): a loop entered
  at round \<open>k\<close> either stops there with a result or goes on with the next round, each round
  adding its own events to the trace, and from some round on it always stops.
\<close>

locale attempt_loop =
  fixes run :: "nat \<Rightarrow> 'r \<times> 'e list"
    and stop :: "nat \<Rightarrow> 'r option"
    and trace :: "nat \<Rightarrow> 'e list"
    and limit :: nat
  assumes run_stop: "stop k = Some r \<Longrightarrow> run k = (r, trace k)"
    and run_next: "stop k = None \<Longrightarrow> run k = (fst (run (Suc k)), trace k @ snd (run (Suc k)))"
    and stops: "limit \<le> k \<Longrightarrow> stop k \<noteq> None"
begin

text \<open>The loop ends at the first round that stops, with that round's result.\<close>

lemma run_first_stop:
  assumes "k \<le> limit"
  shows "\<exists>n r. k \<le> n \<and> n \<le> limit \<and> (\<forall>i. k \<le> i \<and> i < n \<longrightarrow> stop i = None) \<and> stop n = Some r \<and>
    run k = (r, concat (map trace [k..<Suc n]))"
  using assms
proof (induction "limit - k" arbitrary: k)
  case 0
  then have "k = limit" by simp
  with stops [of k] obtain r where "stop k = Some r" by auto
  with 0 show ?case by (intro exI [of _ k] exI [of _ r]) (auto simp: run_stop)
next
  case (Suc d)
  show ?case
  proof (cases "stop k")
    case (Some r)
    with Suc.prems show ?thesis by (intro exI [of _ k] exI [of _ r]) (auto simp: run_stop)
  next
    case None
    from Suc.hyps(2) have "d = limit - Suc k" and "Suc k \<le> limit" by simp_all
    from Suc.hyps(1) [OF this] obtain n r where n: "Suc k \<le> n" "n \<le> limit"
      "\<forall>i. Suc k \<le> i \<and> i < n \<longrightarrow> stop i = None" "stop n = Some r"
      and run: "run (Suc k) = (r, concat (map trace [Suc k..<Suc n]))"
      by blast
    from n(1) have "[k..<Suc n] = k # [Suc k..<Suc n]" by (simp add: upt_conv_Cons)
    with run run_next [OF None] have "run k = (r, concat (map trace [k..<Suc n]))" by simp
    moreover have "\<forall>i. k \<le> i \<and> i < n \<longrightarrow> stop i = None"
      using n(3) None by (metis le_eq_less_or_eq Suc_leI)
    ultimately show ?thesis using n by (intro exI [of _ n] exI [of _ r]) simp
  qed
qed

text \<open>A property of every round's events holds of the whole trace.\<close>

lemma run_trace_all:
  assumes "k \<le> limit" and "\<And>i e. k \<le> i \<Longrightarrow> i \<le> limit \<Longrightarrow> e \<in> set (trace i) \<Longrightarrow> P e"
    and "e \<in> set (snd (run k))"
  shows "P e"
proof -
  from run_first_stop [OF assms(1)] obtain n r where "n \<le> limit"
    and "run k = (r, concat (map trace [k..<Suc n]))" by blast
  with assms(3) obtain i where "k \<le> i" "i \<le> limit" "e \<in> set (trace i)" by auto
  then show ?thesis by (rule assms(2))
qed

end

text \<open>When every round makes exactly one attempt, the number of attempts is bounded by the rounds.\<close>

locale counted_loop = attempt_loop +
  fixes is_attempt :: "'b \<Rightarrow> bool"
  assumes one_attempt: "k \<le> limit \<Longrightarrow> length (filter is_attempt (trace k)) \<le> 1"
begin

lemma attempts_of_rounds:
  "m \<le> Suc limit \<Longrightarrow> length (filter is_attempt (concat (map trace [k..<m]))) \<le> m - k"
proof (induction m)
  case 0
  then show ?case by simp
next
  case (Suc m)
  then show ?case using one_attempt [of m] by (cases "k \<le> m") auto
qed

lemma attempts_bounded:
  assumes "k \<le> limit"
  shows "length (filter is_attempt (snd (run k))) \<le> Suc limit - k"
proof -
  from run_first_stop [OF assms] obtain n r where "n \<le> limit"
    and "run k = (r, concat (map trace [k..<Suc n]))" by blast
  with attempts_of_rounds [of "Suc n" k] show ?thesis by simp
qed

end

end
