(* ===== verification/Retry.thy ===== *)
theory Retry
  imports Env Attempt_Loop
begin

text \<open>
  \<open>netix_backend/http/retry.py\<close>: the retry policy shared by the HTTP transports, the transport
  loop (sync and async) and the one-shot request under a deadline. The network, the random source
  and the clocks are a \<open>world\<close>: what each numbered attempt answers or raises, what it draws,
  what it reads. A trace records attempts, closed responses, sleeps and log records in order.
\<close>

section \<open>Float arithmetic of the backoff\<close>

fun flt_add :: "pyfloat \<Rightarrow> pyfloat \<Rightarrow> pyfloat" where
  "flt_add (Fin x) (Fin y) = Fin (x + y)"
| "flt_add NaN _ = NaN"
| "flt_add _ NaN = NaN"
| "flt_add PInf NInf = NaN"
| "flt_add NInf PInf = NaN"
| "flt_add PInf _ = PInf"
| "flt_add NInf _ = NInf"
| "flt_add _ PInf = PInf"
| "flt_add _ NInf = NInf"

text \<open>Product with a finite non-negative factor: zero times an infinity is NaN.\<close>

fun flt_scale :: "real \<Rightarrow> pyfloat \<Rightarrow> pyfloat" where
  "flt_scale c (Fin x) = Fin (c * x)"
| "flt_scale c PInf = (if c = 0 then NaN else PInf)"
| "flt_scale c NInf = (if c = 0 then NaN else NInf)"
| "flt_scale c NaN = NaN"

section \<open>Defaults and the bound Django settings\<close>

definition DEFAULT_RETRIES :: int where "DEFAULT_RETRIES = 2"
definition DEFAULT_BACKOFF_FACTOR :: pyfloat where "DEFAULT_BACKOFF_FACTOR = Fin (1 / 2)"
definition MAX_RETRY_AFTER_SECONDS :: pyfloat where "MAX_RETRY_AFTER_SECONDS = Fin 30"
definition RETRIES_ENV :: string where "RETRIES_ENV = ''NETIX_HTTP_RETRIES''"
definition BACKOFF_ENV :: string where "BACKOFF_ENV = ''NETIX_HTTP_RETRY_BACKOFF''"

text \<open>
  The module's \<open>_bound_settings\<close> dictionary of floats. \<open>bind_django_settings\<close> looks the
  two named settings up and stores those that are set.
\<close>

type_synonym bound_settings = "(string, pyfloat) dict"

definition bind_setting ::
  "(string \<Rightarrow> pyfloat option) \<Rightarrow> string option \<Rightarrow> string \<Rightarrow> bound_settings \<Rightarrow> bound_settings" where
  "bind_setting settings setting key b =
    (case setting of
      None \<Rightarrow> b
    | Some name \<Rightarrow> (case settings name of None \<Rightarrow> b | Some x \<Rightarrow> dict_set key x b))"

definition bind_django_settings ::
  "(string \<Rightarrow> pyfloat option) \<Rightarrow> string option \<Rightarrow> string option \<Rightarrow> bound_settings \<Rightarrow> bound_settings" where
  "bind_django_settings settings retries_setting backoff_setting b =
    bind_setting settings backoff_setting ''backoff'' (bind_setting settings retries_setting ''retries'' b)"

definition unbind_django_settings :: "bound_settings \<Rightarrow> bound_settings" where
  "unbind_django_settings b = []"

definition default_retries :: "environ \<Rightarrow> bound_settings \<Rightarrow> int res" where
  "default_retries env b =
    rbind (case dict_get b ''retries'' of None \<Rightarrow> Inr DEFAULT_RETRIES | Some x \<Rightarrow> int_of_float x)
      (\<lambda>d. env_int env RETRIES_ENV d)"

definition default_backoff :: "environ \<Rightarrow> bound_settings \<Rightarrow> pyfloat res" where
  "default_backoff env b =
    env_float env BACKOFF_ENV
      (case dict_get b ''backoff'' of None \<Rightarrow> DEFAULT_BACKOFF_FACTOR | Some x \<Rightarrow> x)"

section \<open>Which outcomes are retried\<close>

definition RETRYABLE_STATUS :: "int list" where "RETRYABLE_STATUS = [408, 429]"
definition IDEMPOTENT_METHODS :: "string list" where
  "IDEMPOTENT_METHODS = [''GET'', ''HEAD'', ''OPTIONS'']"

fun retryable_exc :: "exc \<Rightarrow> bool" where
  "retryable_exc (Network_Error _) = True"
| "retryable_exc (Timeout_Exception _) = True"
| "retryable_exc (Remote_Protocol_Error _) = True"
| "retryable_exc _ = False"

definition is_idempotent_method :: "string \<Rightarrow> bool" where
  "is_idempotent_method m \<longleftrightarrow> upper m \<in> set IDEMPOTENT_METHODS"

definition is_retryable_status :: "int \<Rightarrow> bool" where
  "is_retryable_status s \<longleftrightarrow> s \<in> set RETRYABLE_STATUS \<or> s \<ge> 500"

definition should_retry_status :: "string \<Rightarrow> int \<Rightarrow> bool \<Rightarrow> bool" where
  "should_retry_status m s retry_non_idempotent =
    (if \<not> is_retryable_status s then False else retry_non_idempotent \<or> is_idempotent_method m)"

section \<open>Delays\<close>

text \<open>\<open>cap/2 + random.uniform(0, cap/2)\<close>, the draw \<open>u\<close> being \<open>random.random()\<close>.\<close>

definition jittered_backoff :: "pyfloat \<Rightarrow> nat \<Rightarrow> real \<Rightarrow> pyfloat" where
  "jittered_backoff backoff attempt u =
    (let cap = flt_scale (2 ^ attempt) backoff
     in flt_add (flt_scale (1 / 2) cap) (flt_scale u (flt_scale (1 / 2) cap)))"

record http_response =
  status_code :: int
  retry_after :: "string option"
  resp_text :: string

record 'r world =
  send :: "nat \<Rightarrow> exc + 'r"
  draw :: "nat \<Rightarrow> real"
  wall :: "nat \<Rightarrow> real"
  date_of :: "string \<Rightarrow> real option"

definition clamp_delay :: "pyfloat \<Rightarrow> pyfloat \<Rightarrow> pyfloat" where
  "clamp_delay x max_retry_after = py_min (py_max x (Fin 0)) max_retry_after"

text \<open>
  \<open>date_of\<close> is the timestamp of \<open>parsedate_to_datetime\<close>, \<open>None\<close> when it (or the
  conversion) raises one of the errors the code catches.
\<close>

definition parse_retry_after_seconds ::
  "(string \<Rightarrow> real option) \<Rightarrow> real \<Rightarrow> pyfloat \<Rightarrow> string option \<Rightarrow> pyfloat option" where
  "parse_retry_after_seconds dates now max_retry_after header =
    (case header of
      None \<Rightarrow> None
    | Some value \<Rightarrow>
        if value = [] then None
        else (case py_float value of
            Some x \<Rightarrow> Some (clamp_delay x max_retry_after)
          | None \<Rightarrow>
              (case dates value of
                Some ts \<Rightarrow> Some (clamp_delay (Fin (ts - now)) max_retry_after)
              | None \<Rightarrow> None)))"

section \<open>The policy and the transport loop\<close>

record retry_policy =
  retries :: int
  backoff_factor :: pyfloat
  retry_non_idempotent :: bool
  max_retry_after :: pyfloat

text \<open>\<open>_init_policy\<close>: an explicit 0 is kept; only \<open>None\<close> takes the default.\<close>

definition init_policy ::
  "environ \<Rightarrow> bound_settings \<Rightarrow> int option \<Rightarrow> pyfloat option \<Rightarrow> bool \<Rightarrow> pyfloat \<Rightarrow> retry_policy res" where
  "init_policy env b r f non_idem max_after =
    rbind (case r of None \<Rightarrow> default_retries env b | Some n \<Rightarrow> Inr n) (\<lambda>n.
    rbind (case f of None \<Rightarrow> default_backoff env b | Some x \<Rightarrow> Inr x) (\<lambda>x.
      Inr \<lparr>retries = n, backoff_factor = x, retry_non_idempotent = non_idem, max_retry_after = max_after\<rparr>))"

definition should_retry :: "retry_policy \<Rightarrow> string \<Rightarrow> 'a http_response_scheme \<Rightarrow> bool" where
  "should_retry p m r = should_retry_status m (status_code r) (retry_non_idempotent p)"

definition status_delay ::
  "retry_policy \<Rightarrow> ('a http_response_scheme) world \<Rightarrow> 'a http_response_scheme \<Rightarrow> nat \<Rightarrow> pyfloat" where
  "status_delay p w r attempt =
    (case parse_retry_after_seconds (date_of w) (wall w attempt) (max_retry_after p) (retry_after r) of
      Some d \<Rightarrow> d
    | None \<Rightarrow> jittered_backoff (backoff_factor p) attempt (draw w attempt))"

datatype event =
    Attempt nat
  | Close nat
  | Sleep pyfloat
  | Warn_Status int pyfloat int int
  | Warn_Exception exc pyfloat int int
  | Error_Status int int
  | Error_Exception exc int

text \<open>
  The sleeps. \<open>time.sleep\<close> rejects NaN, negative and unrepresentable lengths;
  \<open>asyncio.sleep\<close> returns at once for a length at or below zero and rejects NaN only.
\<close>

definition sync_sleep :: "pyfloat \<Rightarrow> exc option" where
  "sync_sleep d = (case d of
      NaN \<Rightarrow> Some (Value_Error ''Invalid value NaN (not a number)'')
    | Fin x \<Rightarrow> if x < 0 then Some (Value_Error ''sleep length must be non-negative'') else None
    | _ \<Rightarrow> Some (Overflow_Error ''timestamp out of range for platform time_t''))"

definition async_sleep :: "pyfloat \<Rightarrow> exc option" where
  "async_sleep d = (case d of NaN \<Rightarrow> Some (Value_Error ''Invalid delay: NaN (not a number)'') | _ \<Rightarrow> None)"

text \<open>
  One turn of the \<open>while True\<close> loop up to the sleep: it ends the call with a response or an
  exception, or asks for another turn after a delay. Every log call and the \<open>close\<close> are there.
\<close>

datatype 'r turn = Finish "exc + 'r" "event list" | Again pyfloat "event list"

definition attempt_turn ::
  "retry_policy \<Rightarrow> string \<Rightarrow> ('a http_response_scheme) world \<Rightarrow> nat \<Rightarrow> ('a http_response_scheme) turn" where
  "attempt_turn p m w attempt =
    (case send w attempt of
      Inl e \<Rightarrow>
        if \<not> retryable_exc e then Finish (Inl e) [Attempt attempt]
        else if int attempt \<ge> retries p
        then Finish (Inl e) [Attempt attempt, Error_Exception e (int attempt + 1)]
        else (let delay = jittered_backoff (backoff_factor p) attempt (draw w attempt)
              in Again delay [Attempt attempt, Warn_Exception e delay (int attempt + 1) (retries p)])
    | Inr r \<Rightarrow>
        if \<not> should_retry p m r then Finish (Inr r) [Attempt attempt]
        else if int attempt \<ge> retries p
        then Finish (Inr r) [Attempt attempt, Error_Status (status_code r) (int attempt + 1)]
        else (let delay = status_delay p w r attempt
              in Again delay [Attempt attempt, Warn_Status (status_code r) delay (int attempt + 1) (retries p),
                              Close attempt]))"

lemma attempt_turn_Again_bound: "attempt_turn p m w k = Again d es \<Longrightarrow> int k < retries p"
  by (auto simp: attempt_turn_def Let_def split: sum.splits if_splits)

function retry_loop ::
  "retry_policy \<Rightarrow> string \<Rightarrow> (pyfloat \<Rightarrow> exc option) \<Rightarrow> ('a http_response_scheme) world \<Rightarrow> nat
    \<Rightarrow> (exc + 'a http_response_scheme) \<times> event list" where
  "retry_loop p m sleep w attempt =
    (case attempt_turn p m w attempt of
      Finish r es \<Rightarrow> (r, es)
    | Again d es \<Rightarrow>
        (case sleep d of
          Some e \<Rightarrow> (Inl e, es)
        | None \<Rightarrow> (let (r, es') = retry_loop p m sleep w (Suc attempt) in (r, es @ Sleep d # es'))))"
  by pat_completeness auto
termination
  by (relation "measure (\<lambda>(p, m, sleep, w, k). nat (retries p - int k))")
    (auto dest: attempt_turn_Again_bound)

declare retry_loop.simps [simp del]

definition send_with_retries ::
  "retry_policy \<Rightarrow> string \<Rightarrow> ('a http_response_scheme) world \<Rightarrow> (exc + 'a http_response_scheme) \<times> event list" where
  "send_with_retries p m w = retry_loop p m sync_sleep w 0"

definition asend_with_retries ::
  "retry_policy \<Rightarrow> string \<Rightarrow> ('a http_response_scheme) world \<Rightarrow> (exc + 'a http_response_scheme) \<times> event list" where
  "asend_with_retries p m w = retry_loop p m async_sleep w 0"

section \<open>The loop as an attempt loop\<close>

text \<open>What one turn contributes: its result when it is the last one, and its events.\<close>

definition turn_stop ::
  "retry_policy \<Rightarrow> string \<Rightarrow> (pyfloat \<Rightarrow> exc option) \<Rightarrow> ('a http_response_scheme) world \<Rightarrow> nat
    \<Rightarrow> (exc + 'a http_response_scheme) option" where
  "turn_stop p m sleep w k =
    (case attempt_turn p m w k of Finish r es \<Rightarrow> Some r | Again d es \<Rightarrow> map_option Inl (sleep d))"

definition turn_trace ::
  "retry_policy \<Rightarrow> string \<Rightarrow> (pyfloat \<Rightarrow> exc option) \<Rightarrow> ('a http_response_scheme) world \<Rightarrow> nat \<Rightarrow> event list" where
  "turn_trace p m sleep w k =
    (case attempt_turn p m w k of
      Finish r es \<Rightarrow> es
    | Again d es \<Rightarrow> (case sleep d of Some e \<Rightarrow> es | None \<Rightarrow> es @ [Sleep d]))"

fun is_send :: "event \<Rightarrow> bool" where
  "is_send (Attempt _) = True"
| "is_send _ = False"

interpretation transport: counted_loop "retry_loop p m sleep w" "turn_stop p m sleep w"
    "turn_trace p m sleep w" "nat (retries p)" is_send
  for p m sleep w
proof unfold_locales
  fix k r assume "turn_stop p m sleep w k = Some r"
  then show "retry_loop p m sleep w k = (r, turn_trace p m sleep w k)"
    by (subst retry_loop.simps) (auto simp: turn_stop_def turn_trace_def split: turn.splits option.splits)
next
  fix k assume "turn_stop p m sleep w k = None"
  then show "retry_loop p m sleep w k =
      (fst (retry_loop p m sleep w (Suc k)), turn_trace p m sleep w k @ snd (retry_loop p m sleep w (Suc k)))"
    by (subst retry_loop.simps)
      (auto simp: turn_stop_def turn_trace_def split_def Let_def split: turn.splits)
next
  fix k assume "nat (retries p) \<le> k"
  then show "turn_stop p m sleep w k \<noteq> None"
    using attempt_turn_Again_bound [of p m w k] by (auto simp: turn_stop_def split: turn.splits)
next
  fix k show "length (filter is_send (turn_trace p m sleep w k)) \<le> 1"
    by (auto simp: turn_trace_def attempt_turn_def Let_def
        split: sum.splits if_splits turn.splits option.splits)
qed

section \<open>Delays are bounded\<close>

text \<open>
  A sane configuration: finite backoff and Retry-After cap, neither negative, and draws of
  \<open>random.random()\<close> between 0 and 1.
\<close>

definition sane_policy :: "retry_policy \<Rightarrow> 'r world \<Rightarrow> bool" where
  "sane_policy p w \<longleftrightarrow>
    (\<exists>f m. backoff_factor p = Fin f \<and> 0 \<le> f \<and> max_retry_after p = Fin m \<and> 0 \<le> m) \<and>
    (\<forall>k. 0 \<le> draw w k \<and> draw w k \<le> 1)"

fun finite_value :: "pyfloat \<Rightarrow> real" where
  "finite_value (Fin x) = x"
| "finite_value _ = 0"

definition no_nan_header :: "('a http_response_scheme) world \<Rightarrow> bool" where
  "no_nan_header w \<longleftrightarrow>
    (\<forall>k r v. send w k = Inr r \<longrightarrow> retry_after r = Some v \<longrightarrow> py_float v \<noteq> Some NaN)"

lemma jittered_backoff_Fin:
  "jittered_backoff (Fin f) k u = Fin (f * 2 ^ k / 2 + u * (f * 2 ^ k / 2))"
  by (simp add: jittered_backoff_def Let_def mult.commute)

lemma jittered_backoff_range:
  assumes "0 \<le> f" and "0 \<le> u" and "u \<le> 1"
  shows "\<exists>d. jittered_backoff (Fin f) k u = Fin d \<and> f * 2 ^ k / 2 \<le> d \<and> d \<le> f * 2 ^ k"
proof -
  let ?h = "f * 2 ^ k / 2"
  have "0 \<le> ?h" using assms(1) by simp
  with assms(2,3) have "0 \<le> u * ?h" and "u * ?h \<le> ?h"
    by (auto intro: mult_left_le_one_le)
  then show ?thesis by (auto simp: jittered_backoff_Fin)
qed

lemma parse_retry_after_range:
  assumes "parse_retry_after_seconds dates now (Fin m) h = Some x" and "0 \<le> m"
    and "\<And>v. h = Some v \<Longrightarrow> py_float v \<noteq> Some NaN"
  shows "\<exists>d. x = Fin d \<and> 0 \<le> d \<and> d \<le> m"
  using assms clamp_finite [OF _ assms(2)]
  by (auto simp: parse_retry_after_seconds_def clamp_delay_def split: option.splits if_splits)

text \<open>
  The delay after attempt \<open>k\<close>: where the server asked for one it is not negative and at most the Retry-After cap,
  otherwise it lies in the upper half of this attempt's exponential cap, which doubles with every attempt.
\<close>

definition server_asks :: "retry_policy \<Rightarrow> ('a http_response_scheme) world \<Rightarrow> nat \<Rightarrow> bool" where
  "server_asks p w k \<longleftrightarrow>
    (case send w k of
      Inl e \<Rightarrow> False
    | Inr r \<Rightarrow> parse_retry_after_seconds (date_of w) (wall w k) (max_retry_after p) (retry_after r) \<noteq> None)"

definition delay_after :: "retry_policy \<Rightarrow> ('a http_response_scheme) world \<Rightarrow> nat \<Rightarrow> real \<Rightarrow> bool" where
  "delay_after p w k x \<longleftrightarrow>
    (if server_asks p w k then 0 \<le> x \<and> x \<le> finite_value (max_retry_after p)
     else finite_value (backoff_factor p) * 2 ^ k / 2 \<le> x \<and> x \<le> finite_value (backoff_factor p) * 2 ^ k)"

lemma turn_delay_range:
  assumes "sane_policy p w" and "no_nan_header w" and "attempt_turn p m w k = Again x es"
  shows "\<exists>d. x = Fin d \<and> 0 \<le> d \<and> delay_after p w k d"
proof -
  from assms(1) obtain f c where p: "backoff_factor p = Fin f" "0 \<le> f" "max_retry_after p = Fin c" "0 \<le> c"
    and u: "0 \<le> draw w k" "draw w k \<le> 1"
    by (auto simp: sane_policy_def)
  from jittered_backoff_range [OF p(2) u] obtain d where
    d: "jittered_backoff (Fin f) k (draw w k) = Fin d" "f * 2 ^ k / 2 \<le> d" "d \<le> f * 2 ^ k" by blast
  have "0 \<le> f * 2 ^ k / 2" using p(2) by simp
  with d(2) have "0 \<le> d" by linarith
  show ?thesis
  proof (cases "send w k")
    case (Inl e)
    with assms(3) p(1) d(1) have "x = Fin d"
      by (auto simp: attempt_turn_def Let_def split: if_splits)
    with p d \<open>0 \<le> d\<close> Inl show ?thesis by (auto simp: delay_after_def server_asks_def)
  next
    case (Inr r)
    with assms(3) have x: "x = status_delay p w r k"
      by (auto simp: attempt_turn_def Let_def split: if_splits)
    show ?thesis
    proof (cases "parse_retry_after_seconds (date_of w) (wall w k) (max_retry_after p) (retry_after r)")
      case None
      with x p d \<open>0 \<le> d\<close> Inr show ?thesis by (auto simp: status_delay_def delay_after_def server_asks_def)
    next
      case (Some y)
      with parse_retry_after_range [of "date_of w" "wall w k" c "retry_after r" y] p Inr assms(2)
      obtain z where "y = Fin z" "0 \<le> z" "z \<le> c" by (auto simp: no_nan_header_def)
      with x Some p Inr show ?thesis by (auto simp: status_delay_def delay_after_def server_asks_def)
    qed
  qed
qed

section \<open>Properties of the transports\<close>

text \<open>Whether the policy retries an outcome, budget aside.\<close>

definition retried :: "retry_policy \<Rightarrow> string \<Rightarrow> exc + 'a http_response_scheme \<Rightarrow> bool" where
  "retried p m out = (case out of Inl e \<Rightarrow> retryable_exc e | Inr r \<Rightarrow> should_retry p m r)"

definition attempts_of :: "event list \<Rightarrow> nat list" where
  "attempts_of es = concat (map (\<lambda>e. case e of Attempt k \<Rightarrow> [k] | _ \<Rightarrow> []) es)"

definition closed_of :: "event list \<Rightarrow> nat list" where
  "closed_of es = concat (map (\<lambda>e. case e of Close k \<Rightarrow> [k] | _ \<Rightarrow> []) es)"

lemma attempts_of_simps [simp]:
  "attempts_of [] = []" "attempts_of (Attempt k # es) = k # attempts_of es"
  "attempts_of (es @ es') = attempts_of es @ attempts_of es'"
  "attempts_of (Close k # es) = attempts_of es" "attempts_of (Sleep d # es) = attempts_of es"
  "attempts_of (Warn_Status a b c d' # es) = attempts_of es"
  "attempts_of (Warn_Exception e b c d' # es) = attempts_of es"
  "attempts_of (Error_Status a c # es) = attempts_of es"
  "attempts_of (Error_Exception e c # es) = attempts_of es"
  by (simp_all add: attempts_of_def)

lemma closed_of_simps [simp]:
  "closed_of [] = []" "closed_of (Close k # es) = k # closed_of es"
  "closed_of (es @ es') = closed_of es @ closed_of es'"
  "closed_of (Attempt k # es) = closed_of es" "closed_of (Sleep d # es) = closed_of es"
  "closed_of (Warn_Status a b c d' # es) = closed_of es"
  "closed_of (Warn_Exception e b c d' # es) = closed_of es"
  "closed_of (Error_Status a c # es) = closed_of es"
  "closed_of (Error_Exception e c # es) = closed_of es"
  by (simp_all add: closed_of_def)

definition sleeps_of :: "event list \<Rightarrow> pyfloat list" where
  "sleeps_of es = concat (map (\<lambda>e. case e of Sleep d \<Rightarrow> [d] | _ \<Rightarrow> []) es)"

lemma sleeps_of_simps [simp]:
  "sleeps_of [] = []" "sleeps_of (Sleep d # es) = d # sleeps_of es"
  "sleeps_of (es @ es') = sleeps_of es @ sleeps_of es'"
  "sleeps_of (Attempt k # es) = sleeps_of es" "sleeps_of (Close k # es) = sleeps_of es"
  "sleeps_of (Warn_Status a b c d' # es) = sleeps_of es"
  "sleeps_of (Warn_Exception e b c d' # es) = sleeps_of es"
  "sleeps_of (Error_Status a c # es) = sleeps_of es"
  "sleeps_of (Error_Exception e c # es) = sleeps_of es"
  by (simp_all add: sleeps_of_def)

lemma sleeps_of_concat: "sleeps_of (concat ess) = concat (map sleeps_of ess)"
  by (induction ess) auto

lemma attempts_of_concat: "attempts_of (concat ess) = concat (map attempts_of ess)"
  by (induction ess) auto

lemma closed_of_concat: "closed_of (concat ess) = concat (map closed_of ess)"
  by (induction ess) auto

text \<open>Facts about one turn, for any sleep.\<close>

lemma turn_attempts: "attempts_of (turn_trace p m sleep w k) = [k]"
  by (auto simp: turn_trace_def attempt_turn_def Let_def
      split: sum.splits if_splits turn.splits option.splits)

lemma turn_closes:
  "closed_of (turn_trace p m sleep w k) =
    (case send w k of Inl e \<Rightarrow> []
     | Inr r \<Rightarrow> if should_retry p m r \<and> int k < retries p then [k] else [])"
  by (auto simp: turn_trace_def attempt_turn_def Let_def
      split: sum.splits if_splits turn.splits option.splits)

text \<open>A turn that goes on sleeps once, for a delay in its range; the last turn does not sleep.\<close>

lemma turn_sleeps:
  assumes "sane_policy p w" and "no_nan_header w"
  shows "if turn_stop p m sleep w k = None
    then \<exists>d. sleeps_of (turn_trace p m sleep w k) = [Fin d] \<and> 0 \<le> d \<and> delay_after p w k d
    else sleeps_of (turn_trace p m sleep w k) = []"
proof (cases "attempt_turn p m w k")
  case (Finish r es)
  then show ?thesis
    by (auto simp: turn_stop_def turn_trace_def attempt_turn_def Let_def split: sum.splits if_splits)
next
  case (Again d es)
  then have "sleeps_of es = []"
    by (auto simp: attempt_turn_def Let_def split: sum.splits if_splits)
  with Again turn_delay_range [OF assms Again] show ?thesis
    by (auto simp: turn_stop_def turn_trace_def split: option.split)
qed

lemma turn_goes_on:
  "turn_stop p m sleep w k = None \<Longrightarrow> retried p m (send w k) \<and> int k < retries p"
  by (auto simp: turn_stop_def retried_def attempt_turn_def Let_def
      split: sum.splits if_splits turn.splits)

text \<open>A sleep that accepts every non-negative finite length, as both sleeps do.\<close>

definition accepts_delays :: "(pyfloat \<Rightarrow> exc option) \<Rightarrow> bool" where
  "accepts_delays sleep \<longleftrightarrow> (\<forall>d. 0 \<le> d \<longrightarrow> sleep (Fin d) = None)"

lemma accepts_delays_sleeps: "accepts_delays sync_sleep" "accepts_delays async_sleep"
  by (simp_all add: accepts_delays_def sync_sleep_def async_sleep_def)

lemma turn_stops_with_outcome:
  assumes "sane_policy p w" and "no_nan_header w" and "accepts_delays sleep"
    and "turn_stop p m sleep w k = Some r"
  shows "r = send w k \<and> (retried p m (send w k) \<longrightarrow> retries p \<le> int k)"
proof (cases "attempt_turn p m w k")
  case (Finish x es)
  with assms(4) show ?thesis
    by (auto simp: turn_stop_def retried_def attempt_turn_def Let_def split: sum.splits if_splits)
next
  case (Again d es)
  from turn_delay_range [OF assms(1,2) this] assms(3) have "sleep d = None"
    by (auto simp: accepts_delays_def)
  with Again assms(4) show ?thesis by (simp add: turn_stop_def)
qed

lemma loop_outcome:
  assumes "sane_policy p w" and "no_nan_header w" and "accepts_delays sleep"
  shows "\<exists>n. int n \<le> max 0 (retries p)
    \<and> fst (retry_loop p m sleep w 0) = send w n
    \<and> attempts_of (snd (retry_loop p m sleep w 0)) = [0..<Suc n]
    \<and> closed_of (snd (retry_loop p m sleep w 0)) = filter (\<lambda>k. \<exists>r. send w k = Inr r) [0..<n]
    \<and> (\<forall>i < n. retried p m (send w i))
    \<and> (retried p m (send w n) \<longrightarrow> retries p \<le> int n)"
proof -
  from transport.run_first_stop [of 0 p m sleep w] obtain n r where n: "n \<le> nat (retries p)"
    and before: "\<forall>i. i < n \<longrightarrow> turn_stop p m sleep w i = None" and at: "turn_stop p m sleep w n = Some r"
    and run: "retry_loop p m sleep w 0 = (r, concat (map (turn_trace p m sleep w) [0..<Suc n]))"
    by auto
  have r: "r = send w n" "retried p m (send w n) \<longrightarrow> retries p \<le> int n"
    using turn_stops_with_outcome [OF assms at] by auto
  have goes: "retried p m (send w i) \<and> int i < retries p" if "i < n" for i
    using before turn_goes_on that by blast
  have last: "closed_of (turn_trace p m sleep w n) = []"
    using r(2) by (auto simp: turn_closes retried_def split: sum.splits)
  have "closed_of (turn_trace p m sleep w i) = (if \<exists>r. send w i = Inr r then [i] else [])" if "i < n" for i
    using goes [OF that] by (auto simp: turn_closes retried_def split: sum.splits)
  then have "concat (map (\<lambda>i. closed_of (turn_trace p m sleep w i)) [0..<n]) =
      concat (map (\<lambda>i. if \<exists>r. send w i = Inr r then [i] else []) [0..<n])"
    by (intro arg_cong [where f = concat] map_cong) auto
  moreover have "concat (map (\<lambda>i. if P i then [i] else []) xs) = filter P xs" for P and xs :: "nat list"
    by (induction xs) auto
  ultimately have "closed_of (snd (retry_loop p m sleep w 0)) = filter (\<lambda>k. \<exists>r. send w k = Inr r) [0..<n]"
    using last by (simp add: run closed_of_concat comp_def)
  moreover have "attempts_of (snd (retry_loop p m sleep w 0)) = [0..<Suc n]"
    by (simp add: run attempts_of_concat comp_def turn_attempts)
  ultimately show ?thesis using n r goes run by (intro exI [of _ n]) auto
qed

text \<open>A concrete world for the witnesses: a 503 asking for one second, then a 200.\<close>

abbreviation sample_policy :: retry_policy where
  "sample_policy \<equiv> \<lparr>retries = 2, backoff_factor = DEFAULT_BACKOFF_FACTOR, retry_non_idempotent = False,
    max_retry_after = MAX_RETRY_AFTER_SECONDS\<rparr>"

abbreviation sample_world :: "string option \<Rightarrow> http_response world" where
  "sample_world header \<equiv> \<lparr>
    send = (\<lambda>k. if k = 0 then Inr \<lparr>status_code = 503, retry_after = header, resp_text = []\<rparr>
                else Inr \<lparr>status_code = 200, retry_after = None, resp_text = ''ok''\<rparr>),
    draw = (\<lambda>k. 1 / 2), wall = (\<lambda>k. 0), date_of = (\<lambda>v. None)\<rparr>"

lemma sane_sample: "sane_policy sample_policy (sample_world h)"
  by (auto simp: sane_policy_def DEFAULT_BACKOFF_FACTOR_def MAX_RETRY_AFTER_SECONDS_def
      intro: exI [of _ "1 / 2"])

lemma no_nan_sample: "no_nan_header (sample_world (Some ''1''))"
  by (simp add: no_nan_header_def float_eval)

text \<open>
  C18. With a finite non-negative backoff and no NaN \<open>Retry-After\<close>, both transports answer with
  the outcome of the first attempt the policy does not retry, or of the last one the budget allows:
  attempts are numbered without gaps, never more than \<open>retries + 1\<close>, every earlier attempt was
  retryable, and exactly the responses of the earlier attempts are closed.
\<close>

theorem transport_first_final_outcome:
  assumes "sane_policy p w" and "no_nan_header w"
    and "run \<in> {send_with_retries p m w, asend_with_retries p m w}"
  shows "\<exists>n. int n \<le> max 0 (retries p) \<and> fst run = send w n
    \<and> attempts_of (snd run) = [0..<Suc n]
    \<and> closed_of (snd run) = filter (\<lambda>k. \<exists>r. send w k = Inr r) [0..<n]
    \<and> (\<forall>i < n. retried p m (send w i))
    \<and> (retried p m (send w n) \<longrightarrow> retries p \<le> int n)"
  using assms(3) loop_outcome [OF assms(1,2) accepts_delays_sleeps(1), of m]
    loop_outcome [OF assms(1,2) accepts_delays_sleeps(2), of m]
  by (auto simp: send_with_retries_def asend_with_retries_def)

lemma transport_first_final_outcome_witness:
  "\<exists>n. int n \<le> 2 \<and>
    fst (send_with_retries sample_policy ''GET'' (sample_world (Some ''1''))) = send (sample_world (Some ''1'')) n"
  using transport_first_final_outcome [OF sane_sample no_nan_sample insertI1, of "''GET''"] by auto

text \<open>
  A request whose method is not idempotent is never sent again after a response arrived, unless
  the caller opted in: a later attempt only follows a retryable transport error of the one before.
\<close>

theorem non_idempotent_resent_only_after_error:
  assumes "\<not> is_idempotent_method m" and "\<not> retry_non_idempotent p"
    and "Suc k \<in> set (attempts_of (snd (retry_loop p m sleep w 0)))"
  shows "\<exists>e. send w k = Inl e \<and> retryable_exc e"
proof -
  from transport.run_first_stop [of 0 p m sleep w] obtain n r where
    before: "\<forall>i. i < n \<longrightarrow> turn_stop p m sleep w i = None"
    and run: "retry_loop p m sleep w 0 = (r, concat (map (turn_trace p m sleep w) [0..<Suc n]))"
    by auto
  from assms(3) have "k < n" by (auto simp: run attempts_of_concat turn_attempts)
  with before turn_goes_on have "retried p m (send w k)" by blast
  with assms(1,2) show ?thesis
    by (auto simp: retried_def should_retry_def should_retry_status_def split: sum.splits if_splits)
qed

abbreviation refusing_world :: "http_response world" where
  "refusing_world \<equiv> (sample_world None)\<lparr>send := (\<lambda>k. Inl (Network_Error ''connect''))\<rparr>"

lemma non_idempotent_resent_only_after_error_witness:
  "\<exists>e. send refusing_world 0 = Inl e \<and> retryable_exc e"
proof (rule non_idempotent_resent_only_after_error)
  show "\<not> is_idempotent_method ''POST''" "\<not> retry_non_idempotent sample_policy"
    by (simp_all add: is_idempotent_method_def IDEMPOTENT_METHODS_def text_eval)
  have "sane_policy sample_policy refusing_world"
    using sane_sample by (simp add: sane_policy_def)
  from loop_outcome [OF this _ accepts_delays_sleeps(1), of "''POST''"] obtain n where
    "retried sample_policy ''POST'' (send refusing_world n) \<longrightarrow> retries sample_policy \<le> int n"
    "attempts_of (snd (retry_loop sample_policy ''POST'' sync_sleep refusing_world 0)) = [0..<Suc n]"
    by (auto simp: no_nan_header_def)
  then show "Suc 0 \<in> set (attempts_of (snd (retry_loop sample_policy ''POST'' sync_sleep refusing_world 0)))"
    by (simp add: retried_def)
qed

text \<open>
  C19. Every sleep of a call is accounted for, on both transports: with a finite non-negative backoff and no NaN
  \<open>Retry-After\<close>, the call sleeps once between two attempts and never after the last, so at most \<open>retries\<close>
  times, and the sleep after attempt \<open>k\<close> is non-negative and at most the Retry-After cap where
  that answer had a usable header, and otherwise between half and the whole of \<open>backoff * 2 ^ k\<close>.
\<close>

theorem transport_sleeps_bounded:
  assumes "sane_policy p w" and "no_nan_header w"
    and "run \<in> {send_with_retries p m w, asend_with_retries p m w}"
  shows "\<exists>n. int n \<le> max 0 (retries p) \<and> attempts_of (snd run) = [0..<Suc n] \<and> length (sleeps_of (snd run)) = n
    \<and> (\<forall>k < n. \<exists>x. sleeps_of (snd run) ! k = Fin x \<and> 0 \<le> x
        \<and> (if server_asks p w k then x \<le> finite_value (max_retry_after p)
           else finite_value (backoff_factor p) * 2 ^ k / 2 \<le> x \<and> x \<le> finite_value (backoff_factor p) * 2 ^ k))"
proof -
  obtain sleep where loop: "run = retry_loop p m sleep w 0"
    using assms(3) by (auto simp: send_with_retries_def asend_with_retries_def)
  from transport.run_first_stop [of 0 p m sleep w] obtain n r where n: "n \<le> nat (retries p)"
    and before: "\<forall>i. i < n \<longrightarrow> turn_stop p m sleep w i = None" and at: "turn_stop p m sleep w n = Some r"
    and trace: "retry_loop p m sleep w 0 = (r, concat (map (turn_trace p m sleep w) [0..<Suc n]))"
    by auto
  note turn = turn_sleeps [OF assms(1,2), of m sleep]
  have "\<forall>k. \<exists>d. k < n \<longrightarrow> sleeps_of (turn_trace p m sleep w k) = [Fin d] \<and> 0 \<le> d \<and> delay_after p w k d"
    using before turn by (metis (no_types, lifting))
  then obtain d where d: "\<And>k. k < n \<Longrightarrow> sleeps_of (turn_trace p m sleep w k) = [Fin (d k)] \<and> 0 \<le> d k \<and> delay_after p w k (d k)"
    by metis
  have "sleeps_of (turn_trace p m sleep w n) = []" using turn [of n] at by simp
  moreover have "concat (map (\<lambda>k. sleeps_of (turn_trace p m sleep w k)) [0..<n]) = map (Fin \<circ> d) [0..<n]"
  proof -
    have "map (\<lambda>k. sleeps_of (turn_trace p m sleep w k)) [0..<n] = map (\<lambda>k. [(Fin \<circ> d) k]) [0..<n]"
      using d by (intro map_cong) auto
    then show ?thesis by (simp only: concat_map_singleton)
  qed
  ultimately have slept: "sleeps_of (snd run) = map (Fin \<circ> d) [0..<n]"
    by (simp add: loop trace sleeps_of_concat comp_def)
  have tried: "attempts_of (snd run) = [0..<Suc n]"
    by (simp add: loop trace attempts_of_concat comp_def turn_attempts)
  have "0 \<le> d k \<and> (if server_asks p w k then d k \<le> finite_value (max_retry_after p)
      else finite_value (backoff_factor p) * 2 ^ k / 2 \<le> d k \<and> d k \<le> finite_value (backoff_factor p) * 2 ^ k)" if "k < n" for k
    using d [OF that] unfolding delay_after_def by argo
  moreover have "sleeps_of (snd run) ! k = Fin (d k)" if "k < n" for k using that by (simp add: slept)
  moreover have "int n \<le> max 0 (retries p)" "length (sleeps_of (snd run)) = n" using n by (simp_all add: slept)
  ultimately show ?thesis using tried by blast
qed

text \<open>A 503 that asks for one second and one that asks for nothing, then a 200; half a second of backoff.\<close>

lemma transport_sleeps_bounded_witness:
  "\<exists>x. 0 \<le> x \<and> x \<le> (30 :: real) \<and> sleeps_of (snd (send_with_retries sample_policy ''GET'' (sample_world (Some ''1'')))) = [Fin x]
   \<and> (\<exists>y. 1 / 4 \<le> y \<and> y \<le> (1 / 2 :: real) \<and> sleeps_of (snd (asend_with_retries sample_policy ''GET'' (sample_world None))) = [Fin y])"
proof -
  note eval = attempt_turn_def should_retry_def should_retry_status_def is_retryable_status_def
    is_idempotent_method_def IDEMPOTENT_METHODS_def status_delay_def parse_retry_after_seconds_def
    clamp_delay_def py_min_def py_max_def sync_sleep_def async_sleep_def MAX_RETRY_AFTER_SECONDS_def float_eval split_def Let_def
    jittered_backoff_Fin DEFAULT_BACKOFF_FACTOR_def RETRYABLE_STATUS_def
  have plain: "no_nan_header (sample_world None)" by (simp add: no_nan_header_def)
  have "attempts_of (snd (retry_loop sample_policy ''GET'' sync_sleep (sample_world (Some ''1'')) 0)) = [0, 1]"
    "attempts_of (snd (retry_loop sample_policy ''GET'' async_sleep (sample_world None) 0)) = [0, 1]"
    by (simp_all add: retry_loop.simps [of _ _ _ _ 0] retry_loop.simps [of _ _ _ _ "Suc 0"] eval)
  then have two: "attempts_of (snd (send_with_retries sample_policy ''GET'' (sample_world (Some ''1'')))) = [0, 1]"
    "attempts_of (snd (asend_with_retries sample_policy ''GET'' (sample_world None))) = [0, 1]"
    by (simp_all add: send_with_retries_def asend_with_retries_def)
  have asks: "server_asks sample_policy (sample_world (Some ''1'')) 0" "\<not> server_asks sample_policy (sample_world None) 0"
    by (simp_all add: server_asks_def parse_retry_after_seconds_def float_eval)
  have single: "\<exists>a. xs = [a]" if "length xs = 1" for xs :: "pyfloat list"
    using that by (cases xs) auto
  obtain n where n: "attempts_of (snd (send_with_retries sample_policy ''GET'' (sample_world (Some ''1'')))) = [0..<Suc n]"
    "length (sleeps_of (snd (send_with_retries sample_policy ''GET'' (sample_world (Some ''1''))))) = n"
    "\<forall>k < n. \<exists>x. sleeps_of (snd (send_with_retries sample_policy ''GET'' (sample_world (Some ''1'')))) ! k = Fin x \<and> 0 \<le> x
      \<and> (if server_asks sample_policy (sample_world (Some ''1'')) k then x \<le> finite_value (max_retry_after sample_policy)
         else finite_value (backoff_factor sample_policy) * 2 ^ k / 2 \<le> x \<and> x \<le> finite_value (backoff_factor sample_policy) * 2 ^ k)"
    using transport_sleeps_bounded [OF sane_sample no_nan_sample insertI1, of "''GET''"] by blast
  obtain m where m: "attempts_of (snd (asend_with_retries sample_policy ''GET'' (sample_world None))) = [0..<Suc m]"
    "length (sleeps_of (snd (asend_with_retries sample_policy ''GET'' (sample_world None)))) = m"
    "\<forall>k < m. \<exists>x. sleeps_of (snd (asend_with_retries sample_policy ''GET'' (sample_world None))) ! k = Fin x \<and> 0 \<le> x
      \<and> (if server_asks sample_policy (sample_world None) k then x \<le> finite_value (max_retry_after sample_policy)
         else finite_value (backoff_factor sample_policy) * 2 ^ k / 2 \<le> x \<and> x \<le> finite_value (backoff_factor sample_policy) * 2 ^ k)"
    using transport_sleeps_bounded [OF sane_sample plain insertI2 [OF singletonI], of "''GET''"] by blast
  have one: "n = 1" "m = 1" using arg_cong [OF n(1), of length] arg_cong [OF m(1), of length] by (simp_all add: two)
  obtain a b where "sleeps_of (snd (send_with_retries sample_policy ''GET'' (sample_world (Some ''1'')))) = [a]"
    "sleeps_of (snd (asend_with_retries sample_policy ''GET'' (sample_world None))) = [b]"
    using single n(2) m(2) one by blast
  with n(3) m(3) one asks show ?thesis
    by (simp add: MAX_RETRY_AFTER_SECONDS_def DEFAULT_BACKOFF_FACTOR_def) blast
qed

text \<open>
  A \<open>Retry-After\<close> header that spells NaN passes the clamp and reaches the sleep, so the
  transports raise the sleep's \<open>ValueError\<close> instead of retrying or returning the response.
\<close>

theorem nan_retry_after_raises:
  assumes "py_float v = Some NaN" and "send w 0 = Inr r" and "retry_after r = Some v" and "v \<noteq> []"
    and "should_retry p m r" and "0 < retries p" and "max_retry_after p = Fin c"
  shows "(\<exists>msg. fst (send_with_retries p m w) = Inl (Value_Error msg)) \<and>
    (\<exists>msg. fst (asend_with_retries p m w) = Inl (Value_Error msg))"
  using assms
  by (simp_all add: send_with_retries_def asend_with_retries_def retry_loop.simps [of p m _ w 0]
      attempt_turn_def status_delay_def parse_retry_after_seconds_def clamp_delay_def clamp_NaN
      sync_sleep_def async_sleep_def)

lemma nan_retry_after_raises_witness:
  "\<exists>msg. fst (send_with_retries sample_policy ''GET'' (sample_world (Some ''nan''))) = Inl (Value_Error msg)"
  by (rule nan_retry_after_raises [THEN conjunct1, of "''nan''" _ "\<lparr>status_code = 503, retry_after = Some ''nan'', resp_text = []\<rparr>"])
    (simp_all add: float_eval should_retry_def should_retry_status_def is_retryable_status_def
      is_idempotent_method_def IDEMPOTENT_METHODS_def MAX_RETRY_AFTER_SECONDS_def)

end
