(* ===== verification/Deadline.thy ===== *)
theory Deadline
  imports Retry
begin

text \<open>
  The second half of \<open>netix_backend/http/retry.py\<close>: one-shot requests, with or without a
  deadline over the whole retry loop. A request under a deadline reads the monotonic clock when it
  starts, before each attempt and after each attempt that is to be retried; \<open>readings\<close> holds
  those values.
\<close>

record timeouts =
  connect :: "real option"
  read_timeout :: "real option"
  write_timeout :: "real option"
  pool :: "real option"

datatype timeout_arg = Seconds real | Timeouts timeouts

record readings =
  started :: real
  before :: "nat \<Rightarrow> real"
  after :: "nat \<Rightarrow> real"

definition cap_timeout :: "real option \<Rightarrow> real \<Rightarrow> real" where
  "cap_timeout value remaining = (case value of None \<Rightarrow> remaining | Some x \<Rightarrow> min x remaining)"

definition attempt_timeout :: "timeout_arg \<Rightarrow> real \<Rightarrow> timeouts" where
  "attempt_timeout timeout remaining =
    (let base = (case timeout of Timeouts t \<Rightarrow> t
          | Seconds x \<Rightarrow> \<lparr>connect = Some x, read_timeout = Some x, write_timeout = Some x, pool = Some x\<rparr>)
     in \<lparr>connect = Some (cap_timeout (connect base) remaining),
         read_timeout = Some (cap_timeout (read_timeout base) remaining),
         write_timeout = Some (cap_timeout (write_timeout base) remaining),
         pool = Some (cap_timeout (pool base) remaining)\<rparr>)"

datatype deadline_event = Request nat timeouts | Pause pyfloat

text \<open>The arguments the loop keeps constant.\<close>

record deadline_args =
  d_method :: string
  d_timeout :: timeout_arg
  d_deadline :: real
  d_retries :: int
  d_backoff :: pyfloat
  d_retry_non_idempotent :: bool

definition end_time :: "deadline_args \<Rightarrow> readings \<Rightarrow> real" where
  "end_time a t = started t + d_deadline a"

definition deadline_retried :: "deadline_args \<Rightarrow> exc + 'a http_response_scheme \<Rightarrow> bool" where
  "deadline_retried a out = (case out of Inl e \<Rightarrow> retryable_exc e
    | Inr r \<Rightarrow> should_retry_status (d_method a) (status_code r) (d_retry_non_idempotent a))"

definition deadline_exceeded :: "deadline_args \<Rightarrow> exc" where
  "deadline_exceeded a = Timeout_Exception ''exceeded its deadline before any attempt completed''"

text \<open>The code after the loop: the last response, else the last exception, else a timeout.\<close>

definition deadline_result ::
  "deadline_args \<Rightarrow> 'a http_response_scheme option \<Rightarrow> exc option \<Rightarrow> exc + 'a http_response_scheme" where
  "deadline_result a last_response last_exc =
    (case last_response of Some r \<Rightarrow> Inr r
     | None \<Rightarrow> (case last_exc of Some e \<Rightarrow> Inl e | None \<Rightarrow> Inl (deadline_exceeded a)))"

function deadline_loop ::
  "deadline_args \<Rightarrow> readings \<Rightarrow> ('a http_response_scheme) world \<Rightarrow> nat
    \<Rightarrow> 'a http_response_scheme option \<Rightarrow> exc option
    \<Rightarrow> (exc + 'a http_response_scheme) \<times> deadline_event list" where
  "deadline_loop a t w attempt last_response last_exc =
    (if \<not> int attempt < d_retries a + 1 then (deadline_result a last_response last_exc, [])
     else
       let remaining = end_time a t - before t attempt in
       if remaining \<le> 0 then (deadline_result a last_response last_exc, [])
       else
         let out = send w attempt;
             request = Request attempt (attempt_timeout (d_timeout a) remaining);
             last_response' = (case out of Inr r \<Rightarrow> Some r | Inl e \<Rightarrow> last_response);
             last_exc' = (case out of Inl e \<Rightarrow> Some e | Inr r \<Rightarrow> last_exc)
         in
         if \<not> deadline_retried a out then (out, [request])
         else if int attempt \<ge> d_retries a then (deadline_result a last_response' last_exc', [request])
         else
           let budget = end_time a t - after t attempt in
           if budget \<le> 0 then (deadline_result a last_response' last_exc', [request])
           else
             let d = py_min (jittered_backoff (d_backoff a) attempt (draw w attempt)) (Fin budget) in
             case sync_sleep d of
               Some e \<Rightarrow> (Inl e, [request])
             | None \<Rightarrow>
                 let (r, es) = deadline_loop a t w (Suc attempt) last_response' last_exc'
                 in (r, request # Pause d # es))"
  by pat_completeness auto
termination
  by (relation "measure (\<lambda>(a, t, w, k, _, _). nat (d_retries a + 1 - int k))") auto

declare deadline_loop.simps [simp del]

definition request_within_deadline ::
  "deadline_args \<Rightarrow> readings \<Rightarrow> ('a http_response_scheme) world
    \<Rightarrow> (exc + 'a http_response_scheme) \<times> deadline_event list" where
  "request_within_deadline a t w = deadline_loop a t w 0 None None"

section \<open>One round of the loop\<close>

text \<open>
  Whether round \<open>k\<close> goes on to the next one, and the pause it makes then. Both are read off the
  code's conditions; \<open>deadline_loop_step\<close> and \<open>deadline_loop_end\<close> are the two cases of a round.
\<close>

definition round_pause :: "deadline_args \<Rightarrow> readings \<Rightarrow> ('a http_response_scheme) world \<Rightarrow> nat \<Rightarrow> pyfloat" where
  "round_pause a t w k =
    py_min (jittered_backoff (d_backoff a) k (draw w k)) (Fin (end_time a t - after t k))"

definition round_goes_on :: "deadline_args \<Rightarrow> readings \<Rightarrow> ('a http_response_scheme) world \<Rightarrow> nat \<Rightarrow> bool" where
  "round_goes_on a t w k \<longleftrightarrow> int k < d_retries a \<and> before t k < end_time a t \<and> after t k < end_time a t
    \<and> deadline_retried a (send w k) \<and> sync_sleep (round_pause a t w k) = None"

definition round_request :: "deadline_args \<Rightarrow> readings \<Rightarrow> nat \<Rightarrow> deadline_event" where
  "round_request a t k = Request k (attempt_timeout (d_timeout a) (end_time a t - before t k))"

definition add_response ::
  "exc + 'a http_response_scheme \<Rightarrow> 'a http_response_scheme option \<Rightarrow> 'a http_response_scheme option" where
  "add_response out r = (case out of Inr x \<Rightarrow> Some x | Inl e \<Rightarrow> r)"

definition add_error :: "exc + 'a http_response_scheme \<Rightarrow> exc option \<Rightarrow> exc option" where
  "add_error out e = (case out of Inl x \<Rightarrow> Some x | Inr r \<Rightarrow> e)"

lemma deadline_loop_step:
  "round_goes_on a t w k \<Longrightarrow>
    deadline_loop a t w k lr le =
      (let (r, es) = deadline_loop a t w (Suc k) (add_response (send w k) lr) (add_error (send w k) le)
       in (r, round_request a t k # Pause (round_pause a t w k) # es))"
  by (subst deadline_loop.simps)
    (simp add: round_goes_on_def round_pause_def round_request_def add_response_def add_error_def Let_def)

text \<open>A round that does not go on: no attempt at all, or one attempt and the result.\<close>

lemma deadline_loop_end:
  "\<not> round_goes_on a t w k \<Longrightarrow>
    deadline_loop a t w k lr le =
      (if d_retries a < int k \<or> end_time a t \<le> before t k then (deadline_result a lr le, [])
       else if \<not> deadline_retried a (send w k) then (send w k, [round_request a t k])
       else if d_retries a \<le> int k \<or> end_time a t \<le> after t k
       then (deadline_result a (add_response (send w k) lr) (add_error (send w k) le), [round_request a t k])
       else (Inl (the (sync_sleep (round_pause a t w k))), [round_request a t k]))"
  by (subst deadline_loop.simps)
    (auto simp: round_goes_on_def round_pause_def round_request_def add_response_def add_error_def Let_def
      split: option.splits)

lemma deadline_loop_cases:
  assumes go: "\<And>k lr le. round_goes_on a t w k \<Longrightarrow>
      P (Suc k) (add_response (send w k) lr) (add_error (send w k) le) \<Longrightarrow> P k lr le"
    and stop: "\<And>k lr le. \<not> round_goes_on a t w k \<Longrightarrow> P k lr le"
  shows "P k lr le"
proof (induction "nat (d_retries a + 1 - int k)" arbitrary: k lr le rule: less_induct)
  case less
  show ?case
  proof (cases "round_goes_on a t w k")
    case True
    then have "nat (d_retries a + 1 - int (Suc k)) < nat (d_retries a + 1 - int k)"
      by (auto simp: round_goes_on_def)
    from go [OF True less [OF this]] show ?thesis .
  next
    case False
    then show ?thesis by (rule stop)
  qed
qed

section \<open>What the loop issues and returns\<close>

fun requests_of :: "deadline_event list \<Rightarrow> nat list" where
  "requests_of [] = []"
| "requests_of (Request k tt # es) = k # requests_of es"
| "requests_of (Pause d # es) = requests_of es"

text \<open>The last response (exception) among the first \<open>n\<close> attempts.\<close>

fun last_response :: "('a http_response_scheme) world \<Rightarrow> nat \<Rightarrow> 'a http_response_scheme option" where
  "last_response w 0 = None"
| "last_response w (Suc n) = add_response (send w n) (last_response w n)"

fun last_error :: "('a http_response_scheme) world \<Rightarrow> nat \<Rightarrow> exc option" where
  "last_error w 0 = None"
| "last_error w (Suc n) = add_error (send w n) (last_error w n)"

text \<open>
  What a deadline allows. A timeout of an attempt is the one asked for, or what is left where that is less or
  none was asked for. An attempt starts before the deadline, with such timeouts; a pause starts where the clock
  is read after its own attempt and ends by the deadline. A trace is attempts and pauses in turn, numbered.
\<close>

fun asked_timeouts :: "timeout_arg \<Rightarrow> timeouts" where
  "asked_timeouts (Timeouts t) = t"
| "asked_timeouts (Seconds x) = \<lparr>connect = Some x, read_timeout = Some x, write_timeout = Some x, pool = Some x\<rparr>"

definition timeout_within :: "real option \<Rightarrow> real \<Rightarrow> real option \<Rightarrow> bool" where
  "timeout_within asked left got \<longleftrightarrow>
    (\<exists>s. got = Some s \<and> s \<le> left \<and> (case asked of None \<Rightarrow> s = left | Some x \<Rightarrow> s \<le> x \<and> (s = x \<or> s = left)))"

definition attempt_within :: "deadline_args \<Rightarrow> readings \<Rightarrow> nat \<Rightarrow> timeouts \<Rightarrow> bool" where
  "attempt_within a t k tt \<longleftrightarrow>
    (let asked = asked_timeouts (d_timeout a); left = end_time a t - before t k
     in 0 < left \<and> timeout_within (connect asked) left (connect tt) \<and> timeout_within (read_timeout asked) left (read_timeout tt)
      \<and> timeout_within (write_timeout asked) left (write_timeout tt) \<and> timeout_within (pool asked) left (pool tt))"

definition pause_within :: "deadline_args \<Rightarrow> readings \<Rightarrow> nat \<Rightarrow> pyfloat \<Rightarrow> bool" where
  "pause_within a t k d \<longleftrightarrow> (\<exists>x. d = Fin x \<and> 0 \<le> x \<and> after t k + x \<le> end_time a t)"

fun trace_within :: "deadline_args \<Rightarrow> readings \<Rightarrow> nat \<Rightarrow> deadline_event list \<Rightarrow> bool" where
  "trace_within a t k [] = True"
| "trace_within a t k [Request j tt] = (j = k \<and> attempt_within a t k tt)"
| "trace_within a t k (Request j tt # Pause d # es) =
    (j = k \<and> attempt_within a t k tt \<and> pause_within a t k d \<and> trace_within a t (Suc k) es)"
| "trace_within a t k es = False"

lemma cap_timeout_within: "timeout_within asked left (Some (cap_timeout asked left))"
  by (auto simp: timeout_within_def cap_timeout_def min_def split: option.split)

lemma round_request_within:
  assumes "before t k < end_time a t"
  shows "\<exists>tt. round_request a t k = Request k tt \<and> attempt_within a t k tt"
  using assms cap_timeout_within
  by (cases "d_timeout a") (simp_all add: attempt_within_def round_request_def attempt_timeout_def Let_def)

lemma round_pause_within:
  assumes "round_goes_on a t w k"
  shows "pause_within a t k (round_pause a t w k)"
proof -
  let ?b = "end_time a t - after t k"
  from assms have s: "sync_sleep (round_pause a t w k) = None" by (simp add: round_goes_on_def)
  then obtain x where x: "round_pause a t w k = Fin x" "0 \<le> x"
    by (cases "round_pause a t w k") (auto simp: sync_sleep_def split: if_splits)
  then have "x \<le> ?b"
    by (cases "jittered_backoff (d_backoff a) k (draw w k)")
      (auto simp: round_pause_def py_min_def split: if_splits)
  with x show ?thesis by (simp add: pause_within_def)
qed

lemma deadline_loop_within: "trace_within a t k (snd (deadline_loop a t w k lr le))"
proof (induction k lr le rule: deadline_loop_cases [of a t w])
  case (1 k lr le)
  moreover obtain tt where "round_request a t k = Request k tt" "attempt_within a t k tt"
    using round_request_within [of t k a] 1(1) by (auto simp: round_goes_on_def)
  ultimately show ?case by (simp add: deadline_loop_step split_def Let_def round_pause_within)
next
  case (2 k lr le)
  then show ?case
    using round_request_within [of t k a] by (cases "before t k < end_time a t") (auto simp: deadline_loop_end)
qed

text \<open>Under a finite non-negative backoff the loop never fails in its sleep.\<close>

definition sane_deadline :: "deadline_args \<Rightarrow> 'r world \<Rightarrow> bool" where
  "sane_deadline a w \<longleftrightarrow>
    (\<exists>f. d_backoff a = Fin f \<and> 0 \<le> f) \<and> (\<forall>k. 0 \<le> draw w k \<and> draw w k \<le> 1)"

lemma sane_pause_sleeps:
  assumes "sane_deadline a w" and "after t k < end_time a t"
  shows "sync_sleep (round_pause a t w k) = None"
proof -
  from assms(1) obtain f where f: "d_backoff a = Fin f" "0 \<le> f" "0 \<le> draw w k" "draw w k \<le> 1"
    by (auto simp: sane_deadline_def)
  from jittered_backoff_range [OF f(2-4)] obtain d where
    "jittered_backoff (Fin f) k (draw w k) = Fin d" "f * 2 ^ k / 2 \<le> d" by blast
  moreover have "0 \<le> f * 2 ^ k / 2" using f(2) by simp
  ultimately show ?thesis using f(1) assms(2)
    by (auto simp: round_pause_def py_min_def sync_sleep_def)
qed

lemma no_index_between: "(\<forall>i. k \<le> i \<and> i < k \<longrightarrow> P i) \<longleftrightarrow> True" for k :: nat
  by auto

lemma deadline_loop_result:
  assumes "sane_deadline a w"
  shows "lr = last_response w k \<Longrightarrow> le = last_error w k \<Longrightarrow>
    \<exists>n. k \<le> n \<and> int n \<le> max (int k) (d_retries a + 1)
      \<and> requests_of (snd (deadline_loop a t w k lr le)) = [k..<n]
      \<and> (\<forall>i. k \<le> i \<and> Suc i < n \<longrightarrow> deadline_retried a (send w i))
      \<and> fst (deadline_loop a t w k lr le) =
          (if k < n \<and> \<not> deadline_retried a (send w (n - 1)) then send w (n - 1)
           else deadline_result a (last_response w n) (last_error w n))"
proof (induction k lr le rule: deadline_loop_cases [of a t w])
  case (1 k lr le)
  then obtain n where n: "Suc k \<le> n" "int n \<le> max (int (Suc k)) (d_retries a + 1)"
    "requests_of (snd (deadline_loop a t w (Suc k) (add_response (send w k) lr) (add_error (send w k) le))) = [Suc k..<n]"
    "\<forall>i. Suc k \<le> i \<and> Suc i < n \<longrightarrow> deadline_retried a (send w i)"
    "fst (deadline_loop a t w (Suc k) (add_response (send w k) lr) (add_error (send w k) le)) =
      (if Suc k < n \<and> \<not> deadline_retried a (send w (n - 1)) then send w (n - 1)
       else deadline_result a (last_response w n) (last_error w n))"
    by auto
  have go: "deadline_retried a (send w k)" "int k < d_retries a"
    using 1(1) by (auto simp: round_goes_on_def)
  have "fst (deadline_loop a t w k lr le) =
      (if k < n \<and> \<not> deadline_retried a (send w (n - 1)) then send w (n - 1)
       else deadline_result a (last_response w n) (last_error w n))"
    using n(1,5) go(1) 1(1) by (cases "n = Suc k") (auto simp: deadline_loop_step split_def Let_def)
  moreover have "requests_of (snd (deadline_loop a t w k lr le)) = [k..<n]"
    using n(1,3) 1(1) by (simp add: deadline_loop_step split_def Let_def round_request_def upt_conv_Cons)
  moreover have "\<forall>i. k \<le> i \<and> Suc i < n \<longrightarrow> deadline_retried a (send w i)"
    using n(4) go(1) by (metis le_eq_less_or_eq Suc_leI)
  ultimately show ?case using n(1,2) go(2) by (intro exI [of _ n]) auto
next
  case (2 k lr le)
  show ?case
  proof (cases "d_retries a < int k \<or> end_time a t \<le> before t k")
    case True
    with 2 show ?thesis by (intro exI [of _ k]) (auto simp: deadline_loop_end)
  next
    case False
    have "deadline_retried a (send w k) \<longrightarrow> d_retries a \<le> int k \<or> end_time a t \<le> after t k"
      using False 2(1) sane_pause_sleeps [OF assms, of t k] by (auto simp: round_goes_on_def)
    with False 2 show ?thesis
      by (intro exI [of _ "Suc k"]) (simp add: deadline_loop_end round_request_def no_index_between)
  qed
qed

section \<open>One-shot requests\<close>

text \<open>
  \<open>request_with_retry\<close>: defaults resolved, then the deadline loop when a deadline is given, and
  otherwise one client call through the retrying transport (an injected transport is wrapped, so the
  policy is the same either way). \<open>post_with_retry\<close> fixes the method.
\<close>

record request_args =
  r_method :: string
  r_timeout :: timeout_arg
  r_retries :: "int option"
  r_backoff :: "pyfloat option"
  r_retry_non_idempotent :: bool
  r_deadline :: "real option"

definition request_with_retry ::
  "environ \<Rightarrow> bound_settings \<Rightarrow> request_args \<Rightarrow> readings \<Rightarrow> ('a http_response_scheme) world
    \<Rightarrow> exc + 'a http_response_scheme" where
  "request_with_retry env b a t w =
    rbind (case r_retries a of None \<Rightarrow> default_retries env b | Some n \<Rightarrow> Inr n) (\<lambda>attempts.
    rbind (case r_backoff a of None \<Rightarrow> default_backoff env b | Some x \<Rightarrow> Inr x) (\<lambda>factor.
      case r_deadline a of
        Some deadline \<Rightarrow>
          fst (request_within_deadline
            \<lparr>d_method = r_method a, d_timeout = r_timeout a, d_deadline = deadline, d_retries = attempts,
             d_backoff = factor, d_retry_non_idempotent = r_retry_non_idempotent a\<rparr> t w)
      | None \<Rightarrow>
          fst (send_with_retries
            \<lparr>retries = attempts, backoff_factor = factor,
             retry_non_idempotent = r_retry_non_idempotent a, max_retry_after = MAX_RETRY_AFTER_SECONDS\<rparr>
            (r_method a) w)))"

definition post_with_retry ::
  "environ \<Rightarrow> bound_settings \<Rightarrow> request_args \<Rightarrow> readings \<Rightarrow> ('a http_response_scheme) world
    \<Rightarrow> exc + 'a http_response_scheme" where
  "post_with_retry env b a t w = request_with_retry env b (a\<lparr>r_method := ''POST''\<rparr>) t w"

section \<open>Properties\<close>

abbreviation sample_args :: deadline_args where
  "sample_args \<equiv> \<lparr>d_method = ''GET'', d_timeout = Seconds 5, d_deadline = 3, d_retries = 2,
    d_backoff = DEFAULT_BACKOFF_FACTOR, d_retry_non_idempotent = False\<rparr>"

abbreviation sample_readings :: readings where
  "sample_readings \<equiv> \<lparr>started = 0, before = (\<lambda>k. of_nat (2 * k)), after = (\<lambda>k. of_nat (2 * k + 1))\<rparr>"

text \<open>
  C21. A deadlined request keeps to its deadline at every step it decides. Its trace is attempts, numbered from 0,
  with a pause after each but the last; attempt \<open>k\<close> only starts while the clock read before it is short of the
  deadline, and each of its four timeouts is the one asked for or, where that is longer or none was asked for,
  exactly what that reading leaves; the pause after attempt \<open>k\<close>, from the clock read after that very attempt,
  ends by the deadline. (An attempt may use up several of its timeouts one after the other, which the code does
  not bound further.)
\<close>

theorem deadline_never_outlived:
  "trace_within a t 0 (snd (request_within_deadline a t w))"
  by (simp add: request_within_deadline_def deadline_loop_within)

text \<open>
  C22. A deadlined request makes at most \<open>retries + 1\<close> attempts, numbered without gaps, all but
  the last of them retryable; it answers with the first outcome that is not retried, else with the
  last response received, else with the last transport error, else with a timeout error.
\<close>

theorem deadline_outcome:
  assumes "sane_deadline a w"
  shows "\<exists>n. int n \<le> max 0 (d_retries a + 1)
    \<and> requests_of (snd (request_within_deadline a t w)) = [0..<n]
    \<and> (\<forall>i. Suc i < n \<longrightarrow> deadline_retried a (send w i))
    \<and> fst (request_within_deadline a t w) =
        (if 0 < n \<and> \<not> deadline_retried a (send w (n - 1)) then send w (n - 1)
         else deadline_result a (last_response w n) (last_error w n))"
  using deadline_loop_result [OF assms, of None 0 None t] by (simp add: request_within_deadline_def)

lemma deadline_outcome_witness:
  "\<exists>n. int n \<le> 3 \<and> requests_of (snd (request_within_deadline sample_args sample_readings (sample_world None))) = [0..<n]"
proof -
  have "sane_deadline sample_args (sample_world None)"
    by (auto simp: sane_deadline_def DEFAULT_BACKOFF_FACTOR_def intro: exI [of _ "1 / 2"])
  from deadline_outcome [OF this, of sample_readings] show ?thesis by auto
qed

text \<open>
  A later transport error never hides an earlier response: once an attempt has been answered,
  a request under a deadline whose attempts are all retryable returns a response.
\<close>

theorem deadline_keeps_response:
  assumes "sane_deadline a w" and "\<And>i. deadline_retried a (send w i)"
    and "send w k = Inr r" and "k \<in> set (requests_of (snd (request_within_deadline a t w)))"
  shows "\<exists>r'. fst (request_within_deadline a t w) = Inr r'"
proof -
  from deadline_loop_result [OF assms(1), of None 0 None t] obtain n where
    n: "requests_of (snd (request_within_deadline a t w)) = [0..<n]"
    "fst (request_within_deadline a t w) = deadline_result a (last_response w n) (last_error w n)"
    using assms(2) by (auto simp: request_within_deadline_def)
  have "last_response w m \<noteq> None" if "k < m" for m
    using that
  proof (induction m)
    case (Suc m)
    with assms(3) show ?case by (cases "k = m") (auto simp: add_response_def split: sum.splits)
  qed simp
  with assms(4) n show ?thesis by (auto simp: deadline_result_def split: option.splits)
qed

abbreviation flapping_world :: "http_response world" where
  "flapping_world \<equiv> (sample_world None)\<lparr>send := (\<lambda>k. if k = 0
      then Inr \<lparr>status_code = 503, retry_after = None, resp_text = []\<rparr> else Inl (Network_Error ''reset''))\<rparr>"

lemma deadline_keeps_response_witness:
  "\<exists>r'. fst (request_within_deadline sample_args sample_readings flapping_world) = Inr r'"
proof (rule deadline_keeps_response [where k = 0])
  show "sane_deadline sample_args flapping_world"
    by (auto simp: sane_deadline_def DEFAULT_BACKOFF_FACTOR_def intro: exI [of _ "1 / 2"])
  show "deadline_retried sample_args (send flapping_world i)" for i
    by (simp add: deadline_retried_def should_retry_status_def is_retryable_status_def
        is_idempotent_method_def IDEMPOTENT_METHODS_def text_eval)
  show "0 \<in> set (requests_of (snd (request_within_deadline sample_args sample_readings flapping_world)))"
    unfolding request_within_deadline_def
    by (cases "round_goes_on sample_args sample_readings flapping_world 0")
      (simp_all add: deadline_loop_step deadline_loop_end split_def Let_def round_request_def end_time_def)
qed simp

end
