(* ===== verification/Cloning.thy ===== *)
theory Cloning
  imports Py_Text
begin

text \<open>
  \<open>netix_backend/cloning.py\<close>: the machine keys of cloned rows. A key owned by an
  organization is \<open>nc<org>_<base>\<close>; the functions build, strip, read and compare the prefix.
  A name may be missing (\<open>None\<close>), which the code treats as the empty string.
\<close>

definition ORG_KEY_PREFIX :: string where
  "ORG_KEY_PREFIX = ''nc''"

definition PROVENANCE_FIELDS :: "string list" where
  "PROVENANCE_FIELDS = [''cloned_from_id'', ''template_revision'', ''is_customized'']"

definition TEMPLATE_ORG_ID :: int where
  "TEMPLATE_ORG_ID = 0"

text \<open>
  The regular expression: the prefix, a greedy non-empty digit run, an underscore, and the rest of
  the text, newlines included. A digit is never an underscore, so no other split can match.
\<close>

definition org_key_match :: "string \<Rightarrow> (string \<times> string) option" where
  "org_key_match s =
    (if starts_with ORG_KEY_PREFIX s then
       (let r = drop (length ORG_KEY_PREFIX) s; org = takeWhile is_digit r; rest = dropWhile is_digit r
        in case rest of
             c # base \<Rightarrow> if org \<noteq> [] \<and> c = CHR ''_'' then Some (org, base) else None
           | [] \<Rightarrow> None)
     else None)"

definition or_empty :: "string option \<Rightarrow> string" where
  "or_empty name = (case name of None \<Rightarrow> [] | Some s \<Rightarrow> s)"

definition org_prefix :: "int \<Rightarrow> string" where
  "org_prefix org_id = ORG_KEY_PREFIX @ int_str org_id @ ''_''"

definition base_key :: "string option \<Rightarrow> string" where
  "base_key name =
    (case org_key_match (or_empty name) of Some (org, base) \<Rightarrow> base | None \<Rightarrow> or_empty name)"

definition org_key :: "string option \<Rightarrow> int \<Rightarrow> string" where
  "org_key name org_id = org_prefix org_id @ base_key name"

text \<open>\<open>int(match.group("org"))\<close> raises on a digit run past the interpreter's limit.\<close>

definition key_owner :: "string option \<Rightarrow> int option res" where
  "key_owner name =
    (case org_key_match (or_empty name) of
      None \<Rightarrow> Inr None
    | Some (org, base) \<Rightarrow>
        (case py_int org of Some i \<Rightarrow> Inr (Some i) | None \<Rightarrow> Inl (Value_Error ''int'')))"

definition is_org_key :: "string option \<Rightarrow> int \<Rightarrow> bool res" where
  "is_org_key name org_id = rbind (key_owner name) (\<lambda>owner. Inr (owner = Some org_id))"

section \<open>The match on a built key\<close>

lemma not_digit_underscore: "\<not> is_digit (CHR ''_'')"
  by (simp add: is_digit_def code_def)

lemma not_digit_minus: "\<not> is_digit (CHR ''-'')"
  by (simp add: is_digit_def code_def)

lemma org_key_match_prefix:
  "list_all is_digit ds \<Longrightarrow> ds \<noteq> [] \<Longrightarrow>
    org_key_match (ORG_KEY_PREFIX @ ds @ CHR ''_'' # base) = Some (ds, base)"
  by (simp add: org_key_match_def starts_with_def not_digit_underscore list_all_iff)

lemma org_key_match_built:
  "0 \<le> org \<Longrightarrow> org_key_match (org_prefix org @ base) = Some (nat_str (nat org), base)"
  using org_key_match_prefix [OF nat_str_digits nat_str_not_Nil, of "nat org" base]
  by (simp add: org_prefix_def int_str_def)

lemma org_key_match_negative: "org < 0 \<Longrightarrow> org_key_match (org_prefix org @ base) = None"
  by (simp add: org_key_match_def org_prefix_def int_str_def starts_with_def not_digit_minus)

lemma base_key_built: "0 \<le> org \<Longrightarrow> base_key (Some (org_key name org)) = base_key name"
  by (simp add: base_key_def [of "Some _"] org_key_def or_empty_def org_key_match_built)

lemma py_int_nat_str:
  "length (nat_str n) \<le> max_str_digits \<Longrightarrow> py_int (nat_str n) = Some (int n)"
  using py_int_int_str [of "int n"] by (simp add: int_str_def)

section \<open>Properties\<close>

text \<open>
  C39. Keys round-trip: for a non-negative organization id the owner of a built key is that
  organization, its base is the base of the name it was built from, and re-homing a key to another
  organization replaces the prefix instead of nesting it (so building twice changes nothing).
\<close>

theorem org_key_roundtrip:
  assumes "0 \<le> org" and "length (nat_str (nat org)) \<le> max_str_digits"
  shows "key_owner (Some (org_key name org)) = Inr (Some org)
    \<and> is_org_key (Some (org_key name org)) org = Inr True
    \<and> base_key (Some (org_key name org)) = base_key name
    \<and> org_key (Some (org_key name org)) other = org_key name other"
proof -
  have owner: "key_owner (Some (org_key name org)) = Inr (Some org)"
    using assms
    by (simp add: key_owner_def org_key_def or_empty_def org_key_match_built py_int_nat_str)
  moreover have "is_org_key (Some (org_key name org)) org = Inr True"
    using owner by (simp add: is_org_key_def)
  moreover have "base_key (Some (org_key name org)) = base_key name"
    using assms(1) by (rule base_key_built)
  ultimately show ?thesis by (simp add: org_key_def [of "Some _"] org_key_def [of name other])
qed

lemma org_key_roundtrip_witness:
  "key_owner (Some (org_key (Some ''nc7_fire_alarm'') 3)) = Inr (Some 3)"
  using org_key_roundtrip [of 3 "Some ''nc7_fire_alarm''" 0]
  by (simp add: nat_str.simps max_str_digits_def)

text \<open>
  For a negative organization id the round trip fails: the built key is nobody's key and
  building it again nests the prefix, although the key is documented as idempotent.
\<close>

theorem org_key_negative_nests:
  assumes "org < 0"
  shows "key_owner (Some (org_key name org)) = Inr None
    \<and> org_key (Some (org_key name org)) org = org_prefix org @ org_key name org
    \<and> org_key (Some (org_key name org)) org \<noteq> org_key name org"
  using assms
  by (simp add: key_owner_def base_key_def [of "Some _"] org_key_def or_empty_def
      org_key_match_negative) (simp add: org_prefix_def ORG_KEY_PREFIX_def)

lemma org_key_negative_nests_witness:
  "key_owner (Some (org_key (Some ''alarm'') (- 1))) = Inr None"
  using org_key_negative_nests [of "- 1" "Some ''alarm''"] by simp

end
