(* ===== verification/Py_Value.thy ===== *)
theory Py_Value
  imports Py_Text
begin

text \<open>
  The Python values the Django side of the package inspects at run time: truth, \<open>str\<close> and
  \<open>repr\<close>, equality, and conversion to an integer. Numbers other than integers, dates and objects
  carry the texts Python prints for them, so that printing needs no float formatting.
\<close>

datatype pyval =
    VNone
  | VBool bool
  | VInt int
  | VFloat pyfloat string
    \<comment> \<open>value, \<open>repr\<close>\<close>
  | VStr string
  | VStrSub string string
    \<comment> \<open>an instance of a subclass of \<open>str\<close>: text, \<open>repr\<close>\<close>
  | VDate string string string
    \<comment> \<open>a date, time or datetime: \<open>str\<close>, \<open>isoformat\<close>, \<open>repr\<close>\<close>
  | VDecimal pyfloat string string string
    \<comment> \<open>value, \<open>str\<close>, \<open>repr\<close>, and \<open>repr\<close> of the float it converts to\<close>
  | VList "pyval list"
  | VTuple "pyval list"
  | VSet "pyval list"
  | VDict "(pyval \<times> pyval) list"
  | VObj string string
    \<comment> \<open>any other object: \<open>str\<close>, \<open>repr\<close>\<close>

section \<open>Printing\<close>

fun py_repr :: "pyval \<Rightarrow> string" where
  "py_repr VNone = ''None''"
| "py_repr (VBool b) = (if b then ''True'' else ''False'')"
| "py_repr (VInt i) = int_str i"
| "py_repr (VFloat x r) = r"
| "py_repr (VStr s) = repr_str s"
| "py_repr (VStrSub s r) = r"
| "py_repr (VDate s i r) = r"
| "py_repr (VDecimal x s r f) = r"
| "py_repr (VList xs) = ''['' @ join '', '' (map py_repr xs) @ '']''"
| "py_repr (VTuple xs) = (case xs of
      [x] \<Rightarrow> ''('' @ py_repr x @ '',)''
    | _ \<Rightarrow> ''('' @ join '', '' (map py_repr xs) @ '')'')"
| "py_repr (VSet xs) = (if xs = [] then ''set()'' else ''{'' @ join '', '' (map py_repr xs) @ ''}'')"
| "py_repr (VDict d) =
    ''{'' @ join '', '' (map (\<lambda>p. py_repr (fst p) @ '': '' @ py_repr (snd p)) d) @ ''}''"
| "py_repr (VObj s r) = r"

definition py_str :: "pyval \<Rightarrow> string" where
  "py_str v = (case v of
      VStr s \<Rightarrow> s
    | VStrSub s r \<Rightarrow> s
    | VDate s i r \<Rightarrow> s
    | VDecimal x s r f \<Rightarrow> s
    | VObj s r \<Rightarrow> s
    | _ \<Rightarrow> py_repr v)"

lemma py_str_simps [simp]:
  "py_str VNone = ''None''" "py_str (VBool b) = (if b then ''True'' else ''False'')"
  "py_str (VInt i) = int_str i" "py_str (VStr s) = s" "py_str (VStrSub s r) = s"
  "py_str (VFloat x r) = r" "py_str (VObj s r) = s" "py_str (VDate s j r) = s"
  by (simp_all add: py_str_def)

section \<open>Types and truth\<close>

fun is_str :: "pyval \<Rightarrow> bool" where
  "is_str (VStr _) = True"
| "is_str (VStrSub _ _) = True"
| "is_str _ = False"

fun is_dict :: "pyval \<Rightarrow> bool" where
  "is_dict (VDict _) = True"
| "is_dict _ = False"

definition number_nonzero :: "pyfloat \<Rightarrow> bool" where
  "number_nonzero x \<longleftrightarrow> x \<noteq> Fin 0"

definition truthy :: "pyval \<Rightarrow> bool" where
  "truthy v = (case v of
      VNone \<Rightarrow> False
    | VBool b \<Rightarrow> b
    | VInt i \<Rightarrow> i \<noteq> 0
    | VFloat x r \<Rightarrow> number_nonzero x
    | VStr s \<Rightarrow> s \<noteq> []
    | VStrSub s r \<Rightarrow> s \<noteq> []
    | VDecimal x s r f \<Rightarrow> number_nonzero x
    | VList xs \<Rightarrow> xs \<noteq> []
    | VTuple xs \<Rightarrow> xs \<noteq> []
    | VSet xs \<Rightarrow> xs \<noteq> []
    | VDict d \<Rightarrow> d \<noteq> []
    | _ \<Rightarrow> True)"

lemma truthy_simps [simp]:
  "\<not> truthy VNone" "truthy (VBool b) = b" "truthy (VInt i) = (i \<noteq> 0)" "truthy (VStr s) = (s \<noteq> [])"
  "truthy (VStrSub s r) = (s \<noteq> [])" "truthy (VList xs) = (xs \<noteq> [])" "truthy (VTuple xs) = (xs \<noteq> [])"
  "truthy (VSet xs) = (xs \<noteq> [])" "truthy (VDict d) = (d \<noteq> [])"
  by (simp_all add: truthy_def)

text \<open>\<open>v == "text"\<close> for a literal: equal text, whatever the class of the string.\<close>

definition eq_text :: "pyval \<Rightarrow> string \<Rightarrow> bool" where
  "eq_text v t = (case v of VStr s \<Rightarrow> s = t | VStrSub s r \<Rightarrow> s = t | _ \<Rightarrow> False)"

text \<open>\<open>int(v)\<close>.\<close>

definition py_int_of :: "pyval \<Rightarrow> int res" where
  "py_int_of v = (case v of
      VBool b \<Rightarrow> Inr (if b then 1 else 0)
    | VInt i \<Rightarrow> Inr i
    | VFloat x r \<Rightarrow> int_of_float x
    | VDecimal x s r f \<Rightarrow> int_of_float x
    | VStr s \<Rightarrow> (case py_int s of Some i \<Rightarrow> Inr i | None \<Rightarrow> Inl (Value_Error ''invalid literal for int()''))
    | VStrSub s r \<Rightarrow> (case py_int s of Some i \<Rightarrow> Inr i | None \<Rightarrow> Inl (Value_Error ''invalid literal for int()''))
    | _ \<Rightarrow> Inl (Type_Error ''int() argument''))"

text \<open>A mapping with string keys: a row, an identity, a body.\<close>

type_synonym row = "(string, pyval) dict"

text \<open>A missing key and a stored \<open>None\<close> read the same through \<open>get\<close>.\<close>

definition get_val :: "(string, pyval) dict \<Rightarrow> string \<Rightarrow> pyval" where
  "get_val d k = (case dict_get d k of None \<Rightarrow> VNone | Some v \<Rightarrow> v)"

lemma get_val_set: "get_val (dict_set k v d) j = (if j = k then v else get_val d j)"
  by (simp add: get_val_def dict_simps)

end
