(* ===== verification/Tenancy.thy ===== *)
theory Tenancy
  imports Py_Value
begin

text \<open>
  \<open>netix_backend/django/views.py\<close>, the identity helpers and \<open>TenantWriteScopeMixin\<close>: who
  the caller is, which organization a write is pinned to, and what is handed to
  \<open>serializer.save\<close>. The serializer itself is Django REST framework's; the model records the
  keyword arguments the code passes to its \<open>save\<close>.
\<close>

section \<open>Requests, models, serializers\<close>

record user =
  is_authenticated :: bool
  user_is_superuser :: bool

text \<open>\<open>envoy\<close> is the identity dictionary the Envoy middleware attaches, if it is one.\<close>

record request =
  envoy :: "row option"
  user :: "user option"
  req_method :: string
  query_params :: "(string, string) dict"

text \<open>A model, as far as the code looks at it: the field names of its \<open>_meta\<close>.\<close>

type_synonym model = "string list"

record serializer =
  ser_model :: "model option"
  validated :: "row list"
  ser_instance :: "row option"

text \<open>
  The first segment of a \<open>__\<close> path, and the probe of a model for a field: an
  \<open>organization_id\<close> column may be declared as the foreign key \<open>organization\<close>.
\<close>

fun first_segment :: "string \<Rightarrow> string" where
  "first_segment [] = []"
| "first_segment [c] = [c]"
| "first_segment (c # d # cs) =
    (if c = CHR ''_'' \<and> d = CHR ''_'' then [] else c # first_segment (d # cs))"

definition probe_model_field :: "model \<Rightarrow> string \<Rightarrow> bool" where
  "probe_model_field m field_name =
    (let name = first_segment field_name in
     if name \<in> set m then True
     else if \<not> ends_with ''_id'' name then False
     else take (length name - 3) name \<in> set m)"

section \<open>Who is calling\<close>

definition is_superuser :: "request \<Rightarrow> bool" where
  "is_superuser r =
    (let flag = (case envoy r of None \<Rightarrow> VNone | Some e \<Rightarrow> get_val e ''is_superuser'') in
     if flag \<noteq> VNone then
       (if is_str flag then lower (strip (py_str flag)) = ''true'' else truthy flag)
     else (case user r of None \<Rightarrow> False | Some u \<Rightarrow> is_authenticated u \<and> user_is_superuser u))"

definition unresolved_organization :: "pyval \<Rightarrow> bool" where
  "unresolved_organization v \<longleftrightarrow> v = VNone \<or> eq_text v [] \<or> eq_text v ''bogus''"

definition invalid_organization :: exc where
  "invalid_organization = Permission_Denied ''The authenticated organization is invalid.''"

text \<open>\<open>TypeError\<close> and \<open>ValueError\<close> of the conversion become a 403; anything else passes.\<close>

definition tenant_organization_id :: "request \<Rightarrow> int option res" where
  "tenant_organization_id r =
    (case envoy r of
      None \<Rightarrow> Inr None
    | Some e \<Rightarrow>
        if is_superuser r then Inr None
        else
          let caller = get_val e ''organization'' in
          if unresolved_organization caller then Inr None
          else (case py_int_of caller of
              Inr organization_id \<Rightarrow> Inr (if organization_id = 0 then None else Some organization_id)
            | Inl (Type_Error _) \<Rightarrow> Inl invalid_organization
            | Inl (Value_Error _) \<Rightarrow> Inl invalid_organization
            | Inl e \<Rightarrow> Inl e))"

definition write_permissions :: "string \<Rightarrow> (string, string) dict" where
  "write_permissions codename =
    map (\<lambda>a. (a, codename)) [''create'', ''update'', ''partial_update'', ''destroy'']"

section \<open>Pinned writes\<close>

datatype scope_mode = Scope_Off | Scope_Pin | Scope_Pin_And_Reject

text \<open>The knobs of the mixin, with the action being served and the bound request.\<close>

record write_scope =
  tenant_write_scope :: scope_mode
  tenant_write_scope_field :: string
  tenant_write_exempt_actions :: "string list"
  tenant_write_pin_before_validation :: bool
  action :: "string option"
  bound_request :: "request option"

definition view_organization_id :: "write_scope \<Rightarrow> int option res" where
  "view_organization_id v =
    (if tenant_write_scope v = Scope_Off then Inr None
     else if (case action v of None \<Rightarrow> False | Some a \<Rightarrow> a \<in> set (tenant_write_exempt_actions v)) then Inr None
     else (case bound_request v of None \<Rightarrow> Inr None | Some r \<Rightarrow> tenant_organization_id r))"

text \<open>The keyword arguments for \<open>save\<close>: empty, or the scope field pinned.\<close>

type_synonym save_kwargs = "(string, int) dict"

definition tenant_save_kwargs :: "write_scope \<Rightarrow> serializer \<Rightarrow> save_kwargs res" where
  "tenant_save_kwargs v s =
    rbind (view_organization_id v) (\<lambda>organization_id.
      case organization_id of
        None \<Rightarrow> Inr []
      | Some o' \<Rightarrow>
          (case ser_model s of
            None \<Rightarrow> Inr []
          | Some m \<Rightarrow>
              if \<not> probe_model_field m (tenant_write_scope_field v) then Inr []
              else Inr [(tenant_write_scope_field v, o')]))"

definition foreign_owner :: "pyval \<Rightarrow> int \<Rightarrow> bool" where
  "foreign_owner submitted organization_id \<longleftrightarrow>
    submitted \<noteq> VNone \<and> py_str submitted \<noteq> int_str organization_id"

definition reject_foreign_body :: "write_scope \<Rightarrow> serializer \<Rightarrow> int \<Rightarrow> unit res" where
  "reject_foreign_body v s organization_id =
    (if list_ex (\<lambda>row. foreign_owner (get_val row (tenant_write_scope_field v)) organization_id) (validated s)
     then Inl (Permission_Denied ''Cannot write records for another organization.'')
     else Inr ())"

definition reject_foreign_instance :: "write_scope \<Rightarrow> serializer \<Rightarrow> int \<Rightarrow> unit res" where
  "reject_foreign_instance v s organization_id =
    (case ser_instance s of
      None \<Rightarrow> Inr ()
    | Some i \<Rightarrow>
        if foreign_owner (get_val i (tenant_write_scope_field v)) organization_id
        then Inl (Permission_Denied ''Tenant identities may only modify their organization's records.'')
        else Inr ())"

text \<open>
  The two hooks return the arguments \<open>serializer.save\<close> is called with; the parent's hook, which
  is taken when there is nothing to pin, calls it with none.
\<close>

definition perform_create :: "write_scope \<Rightarrow> serializer \<Rightarrow> save_kwargs res" where
  "perform_create v s =
    rbind (tenant_save_kwargs v s) (\<lambda>save_kwargs.
      case save_kwargs of
        [] \<Rightarrow> Inr []
      | (_, organization_id) # _ \<Rightarrow>
          if tenant_write_scope v = Scope_Pin_And_Reject
          then rbind (reject_foreign_body v s organization_id) (\<lambda>_. Inr save_kwargs)
          else Inr save_kwargs)"

definition perform_update :: "write_scope \<Rightarrow> serializer \<Rightarrow> save_kwargs res" where
  "perform_update v s =
    rbind (tenant_save_kwargs v s) (\<lambda>save_kwargs.
      case save_kwargs of
        [] \<Rightarrow> Inr []
      | (_, organization_id) # _ \<Rightarrow>
          if tenant_write_scope v = Scope_Pin_And_Reject
          then rbind (reject_foreign_body v s organization_id) (\<lambda>_.
               rbind (reject_foreign_instance v s organization_id) (\<lambda>_. Inr save_kwargs))
          else Inr save_kwargs)"

section \<open>Pinning before validation\<close>

text \<open>A request body: a list, which is left alone, or a mapping, which is copied before the pin.\<close>

datatype body = Body_List "row list" | Body_Map row

definition pinned_write_data :: "write_scope \<Rightarrow> model option \<Rightarrow> body \<Rightarrow> body res" where
  "pinned_write_data v serializer_model data =
    rbind (view_organization_id v) (\<lambda>organization_id.
      case (organization_id, data) of
        (Some o', Body_Map d) \<Rightarrow>
          (case serializer_model of
            Some m \<Rightarrow>
              if probe_model_field m (tenant_write_scope_field v)
              then Inr (Body_Map (dict_set (tenant_write_scope_field v) (VInt o') d))
              else Inr data
          | None \<Rightarrow> Inr data)
      | _ \<Rightarrow> Inr data)"

definition get_serializer_data :: "write_scope \<Rightarrow> model option \<Rightarrow> body option \<Rightarrow> body option res" where
  "get_serializer_data v serializer_model data =
    (case data of
      None \<Rightarrow> Inr None
    | Some d \<Rightarrow>
        if tenant_write_pin_before_validation v
        then rbind (pinned_write_data v serializer_model d) (\<lambda>d'. Inr (Some d'))
        else Inr (Some d))"

section \<open>Lemmas\<close>

named_theorems tenancy "the identity and pinning definitions"
declare is_superuser_def [tenancy] tenant_organization_id_def [tenancy]
  view_organization_id_def [tenancy] tenant_save_kwargs_def [tenancy]

lemma tenant_organization_id_Some:
  "tenant_organization_id r = Inr (Some organization) \<longleftrightarrow>
    (\<exists>e. envoy r = Some e \<and> \<not> is_superuser r \<and> \<not> unresolved_organization (get_val e ''organization'')
      \<and> py_int_of (get_val e ''organization'') = Inr organization \<and> organization \<noteq> 0)"
  by (auto simp: tenant_organization_id_def Let_def split: option.splits sum.splits exc.splits)

lemma view_organization_id_Some:
  "view_organization_id v = Inr (Some organization) \<longleftrightarrow>
    tenant_write_scope v \<noteq> Scope_Off \<and>
    \<not> (\<exists>a. action v = Some a \<and> a \<in> set (tenant_write_exempt_actions v)) \<and>
    (\<exists>r. bound_request v = Some r \<and> tenant_organization_id r = Inr (Some organization))"
  by (auto simp: view_organization_id_def split: option.splits)

text \<open>What the save arguments can be.\<close>

lemma tenant_save_kwargs_cases:
  "tenant_save_kwargs v s = Inr kw \<Longrightarrow>
    kw = [] \<or> (\<exists>organization. view_organization_id v = Inr (Some organization)
      \<and> kw = [(tenant_write_scope_field v, organization)])"
  by (auto simp: tenant_save_kwargs_def res_simps split: option.splits if_splits)

lemma tenant_save_kwargs_pinned:
  "view_organization_id v = Inr (Some organization) \<Longrightarrow> ser_model s = Some m \<Longrightarrow>
    probe_model_field m (tenant_write_scope_field v) \<Longrightarrow>
    tenant_save_kwargs v s = Inr [(tenant_write_scope_field v, organization)]"
  by (simp add: tenant_save_kwargs_def)

lemma perform_create_saves:
  "perform_create v s = Inr kw \<Longrightarrow> tenant_save_kwargs v s = Inr kw"
proof (cases "tenant_save_kwargs v s")
  case (Inr x)
  then show "perform_create v s = Inr kw \<Longrightarrow> tenant_save_kwargs v s = Inr kw"
    by (cases x) (auto simp: perform_create_def res_simps split: if_splits)
qed (simp add: perform_create_def)

lemma perform_update_saves:
  "perform_update v s = Inr kw \<Longrightarrow> tenant_save_kwargs v s = Inr kw"
proof (cases "tenant_save_kwargs v s")
  case (Inr x)
  then show "perform_update v s = Inr kw \<Longrightarrow> tenant_save_kwargs v s = Inr kw"
    by (cases x) (auto simp: perform_update_def res_simps split: if_splits)
qed (simp add: perform_update_def)

section \<open>Properties\<close>

text \<open>
  C1. A tenant's write is pinned to the tenant's organization whatever the body says: on a view
  that pins, for a model with the scope column, create and update call \<open>save\<close> with exactly that
  column set to the caller's organization; in the rejecting mode they raise a permission error
  instead exactly when a row of the body, or the row being updated, names another organization.
\<close>

theorem tenant_write_pinned:
  assumes "bound_request v = Some r" and "tenant_organization_id r = Inr (Some organization)"
    and "tenant_write_scope v \<noteq> Scope_Off"
    and "\<forall>a. action v = Some a \<longrightarrow> a \<notin> set (tenant_write_exempt_actions v)"
    and "ser_model s = Some m" and "probe_model_field m (tenant_write_scope_field v)"
  defines "field \<equiv> tenant_write_scope_field v"
  defines "rejecting \<equiv> tenant_write_scope v = Scope_Pin_And_Reject"
  defines "foreign_body \<equiv> list_ex (\<lambda>row. foreign_owner (get_val row field) organization) (validated s)"
  defines "foreign_row \<equiv> (case ser_instance s of None \<Rightarrow> False | Some i \<Rightarrow> foreign_owner (get_val i field) organization)"
  shows "perform_create v s =
      (if rejecting \<and> foreign_body then Inl (Permission_Denied ''Cannot write records for another organization.'')
       else Inr [(field, organization)])
    \<and> perform_update v s =
      (if rejecting \<and> foreign_body then Inl (Permission_Denied ''Cannot write records for another organization.'')
       else if rejecting \<and> foreign_row
       then Inl (Permission_Denied ''Tenant identities may only modify their organization's records.'')
       else Inr [(field, organization)])"
proof -
  have "view_organization_id v = Inr (Some organization)"
    using assms(1-4) by (auto simp: view_organization_id_Some)
  then have "tenant_save_kwargs v s = Inr [(field, organization)]"
    unfolding field_def using assms(5,6) by (rule tenant_save_kwargs_pinned)
  then show ?thesis
    by (auto simp: perform_create_def perform_update_def reject_foreign_body_def
        reject_foreign_instance_def rejecting_def foreign_body_def foreign_row_def field_def
        split: option.splits)
qed

abbreviation tenant_request :: request where
  "tenant_request \<equiv> \<lparr>envoy = Some [(''organization'', VInt 7), (''is_superuser'', VBool False)], user = None,
    req_method = ''POST'', query_params = [(''organization'', ''9'')]\<rparr>"

abbreviation pinning_view :: "scope_mode \<Rightarrow> write_scope" where
  "pinning_view mode \<equiv> \<lparr>tenant_write_scope = mode, tenant_write_scope_field = ''organization_id'',
    tenant_write_exempt_actions = [], tenant_write_pin_before_validation = False, action = Some ''create'',
    bound_request = Some tenant_request\<rparr>"

abbreviation foreign_body_serializer :: serializer where
  "foreign_body_serializer \<equiv> \<lparr>ser_model = Some [''id'', ''organization''],
    validated = [[(''organization_id'', VInt 9)]], ser_instance = None\<rparr>"

lemma tenant_request_organization: "tenant_organization_id tenant_request = Inr (Some 7)"
  by (simp add: tenancy get_val_def unresolved_organization_def eq_text_def py_int_of_def)

lemma organization_column: "probe_model_field [''id'', ''organization''] ''organization_id''"
  by (simp add: probe_model_field_def ends_with_def)

lemma tenant_write_pinned_witness:
  "perform_create (pinning_view Scope_Pin) foreign_body_serializer = Inr [(''organization_id'', 7)]"
  using tenant_write_pinned [OF _ tenant_request_organization, of "pinning_view Scope_Pin"
      foreign_body_serializer "[''id'', ''organization'']"] organization_column
  by simp

text \<open>
  Pinning is the only way the write hooks touch the saved arguments, and it never names anyone
  else's organization: whatever create or update adds is the view's scope field with the
  organization of the bound request's non-superuser identity.
\<close>

theorem pinned_organization_is_callers:
  assumes "perform_create v s = Inr kw \<or> perform_update v s = Inr kw" and "(f, organization) \<in> set kw"
  shows "f = tenant_write_scope_field v \<and>
    (\<exists>r e. bound_request v = Some r \<and> envoy r = Some e \<and> \<not> is_superuser r \<and>
      py_int_of (get_val e ''organization'') = Inr organization \<and> organization \<noteq> 0)"
proof -
  have "tenant_save_kwargs v s = Inr kw"
    using assms(1) perform_create_saves perform_update_saves by blast
  from tenant_save_kwargs_cases [OF this] assms(2)
  have "f = tenant_write_scope_field v" and "view_organization_id v = Inr (Some organization)" by auto
  then show ?thesis by (auto simp: view_organization_id_Some tenant_organization_id_Some)
qed

lemma pinned_organization_is_callers_witness:
  "py_int_of (get_val [(''organization'', VInt 7), (''is_superuser'', VBool False)] ''organization'') = Inr 7"
proof -
  have "perform_create (pinning_view Scope_Pin) foreign_body_serializer = Inr [(''organization_id'', 7)]"
    using organization_column
    by (simp add: perform_create_def tenant_save_kwargs_def view_organization_id_def tenant_request_organization)
  then show ?thesis
    using pinned_organization_is_callers [of "pinning_view Scope_Pin" foreign_body_serializer
        "[(''organization_id'', 7)]" "''organization_id''" 7] by simp
qed

text \<open>
  The organization a caller must write into: absent exactly for a request without an identity,
  a superuser, an unresolved organization or organization 0; an identity whose organization is not
  an integer is refused, never let through unpinned.
\<close>

theorem tenant_organization_cases:
  "(tenant_organization_id r = Inr None \<longleftrightarrow>
      (case envoy r of None \<Rightarrow> True
       | Some e \<Rightarrow> is_superuser r \<or> unresolved_organization (get_val e ''organization'')
           \<or> py_int_of (get_val e ''organization'') = Inr 0))
   \<and> ((\<exists>x. tenant_organization_id r = Inl x) \<longleftrightarrow>
      (case envoy r of None \<Rightarrow> False
       | Some e \<Rightarrow> \<not> is_superuser r \<and> \<not> unresolved_organization (get_val e ''organization'')
           \<and> (\<exists>x. py_int_of (get_val e ''organization'') = Inl x)))"
  by (auto simp: tenant_organization_id_def Let_def split: option.splits sum.splits exc.splits)

end
