(* ===== verification/Models.thy ===== *)
theory Models
  imports Py_Value
begin

text \<open>
  \<open>netix_backend/django/models.py\<close>: the abstract base models. Writing a row is Django's: its
  \<open>save\<close> is a parameter, and what the documentation promises of it is
  \<open>saves_columns\<close>. What is modelled is the code around it: the bump of \<open>updated_on\<close> on a
  partial write, the integrity error turned into a validation error, soft deletion, the filled in
  names, the stamped bulk update and the provenance flag.
\<close>

section \<open>Rows, instances, writes\<close>

text \<open>The base's \<open>save\<close> wraps the next one in the method resolution order, whatever that saves.\<close>

type_synonym store = "int \<rightharpoonup> row"

record instance_row =
  pk :: int
  columns :: row

text \<open>The instance and the stored rows after the write, and the error it raised, if it did.\<close>

type_synonym written = "instance_row \<times> store \<times> exc option"

type_synonym ('i, 's) saver = "string set option \<Rightarrow> 'i \<Rightarrow> 's \<Rightarrow> 'i \<times> 's \<times> exc option"

type_synonym orm_save = "(instance_row, store) saver"

definition set_column :: "string \<Rightarrow> pyval \<Rightarrow> instance_row \<Rightarrow> instance_row" where
  "set_column c v i = i\<lparr>columns := dict_set c v (columns i)\<rparr>"

text \<open>A partial write always covers \<open>updated_on\<close>; a full write is left alone.\<close>

definition ensure_updated_on :: "string set option \<Rightarrow> string set option" where
  "ensure_updated_on update_fields =
    (case update_fields of None \<Rightarrow> None | Some fs \<Rightarrow> Some (insert ''updated_on'' fs))"

fun integrity_as_validation :: "exc \<Rightarrow> exc" where
  "integrity_as_validation (Integrity_Error m) = Validation_Error None m"
| "integrity_as_validation e = e"

definition base_save :: "('i, 's) saver \<Rightarrow> ('i, 's) saver" where
  "base_save super_save update_fields i s =
    (case super_save (ensure_updated_on update_fields) i s of
      (i', s', error) \<Rightarrow> (i', s', map_option integrity_as_validation error))"

text \<open>The asynchronous twin awaits \<open>asave\<close> of Django instead; its text is the same.\<close>

definition base_asave :: "('i, 's) saver \<Rightarrow> ('i, 's) saver" where
  "base_asave super_asave update_fields i s =
    (case super_asave (ensure_updated_on update_fields) i s of
      (i', s', error) \<Rightarrow> (i', s', map_option integrity_as_validation error))"

section \<open>Soft deletion\<close>

text \<open>The overridable hook: it raises to block a soft delete, and does nothing by default.\<close>

definition validate_soft_delete :: "instance_row \<Rightarrow> exc option" where
  "validate_soft_delete i = None"

definition soft_delete :: "(instance_row \<Rightarrow> exc option) \<Rightarrow> orm_save \<Rightarrow> instance_row \<Rightarrow> store \<Rightarrow> written" where
  "soft_delete validate save i s =
    (case validate i of
      Some e \<Rightarrow> (i, s, Some e)
    | None \<Rightarrow> save (Some {''is_deleted''}) (set_column ''is_deleted'' (VBool True) i) s)"

definition asoft_delete :: "(instance_row \<Rightarrow> exc option) \<Rightarrow> orm_save \<Rightarrow> instance_row \<Rightarrow> store \<Rightarrow> written" where
  "asoft_delete validate asave i s =
    (case validate i of
      Some e \<Rightarrow> (i, s, Some e)
    | None \<Rightarrow> asave (Some {''is_deleted''}) (set_column ''is_deleted'' (VBool True) i) s)"

section \<open>Query sets and managers\<close>

definition alive :: "row list \<Rightarrow> row list" where
  "alive rows = filter (\<lambda>r. get_val r ''is_deleted'' = VBool False) rows"

definition dead :: "row list \<Rightarrow> row list" where
  "dead rows = filter (\<lambda>r. get_val r ''is_deleted'' = VBool True) rows"

text \<open>
  \<open>bulk_update\<close> is Django's: the result is the pair of rows and columns it is called with.
\<close>

definition stamp_and_update :: "pyval \<Rightarrow> instance_row list \<Rightarrow> string list \<Rightarrow> instance_row list \<times> string list" where
  "stamp_and_update now objs written =
    (map (set_column ''updated_on'' now) objs, dedupe (written @ [''updated_on'']))"

definition get_or_none :: "'a res \<Rightarrow> 'a option res" where
  "get_or_none got = (case got of
      Inr x \<Rightarrow> Inr (Some x)
    | Inl (Does_Not_Exist _) \<Rightarrow> Inr None
    | Inl e \<Rightarrow> Inl e)"

section \<open>Named and cloned rows\<close>

text \<open>
  The slugged shape fills a missing name from the display name, then a missing display name from
  the name; \<open>slugify\<close> is Django's.
\<close>

definition slugged_names :: "(pyval \<Rightarrow> string) \<Rightarrow> instance_row \<Rightarrow> instance_row" where
  "slugged_names slugify i =
    (let i1 = (if truthy (get_val (columns i) ''name'') then i
               else set_column ''name'' (VStr (slugify (get_val (columns i) ''display_name''))) i)
     in if truthy (get_val (columns i1) ''display_name'') then i1
        else set_column ''display_name'' (get_val (columns i1) ''name'') i1)"

definition slugged_save :: "(pyval \<Rightarrow> string) \<Rightarrow> orm_save \<Rightarrow> orm_save" where
  "slugged_save slugify super_save update_fields i s =
    base_save super_save update_fields (slugged_names slugify i) s"

definition mark_customized :: "instance_row \<Rightarrow> instance_row" where
  "mark_customized i =
    (if truthy (get_val (columns i) ''cloned_from_id'') \<and> \<not> truthy (get_val (columns i) ''is_customized'')
     then set_column ''is_customized'' (VBool True) i else i)"

definition model_str :: "instance_row \<Rightarrow> string" where
  "model_str i = int_str (pk i)"

definition named_str :: "instance_row \<Rightarrow> string" where
  "named_str i = int_str (pk i) @ '' - '' @ py_str (get_val (columns i) ''name'')"

definition model_repr :: "string \<Rightarrow> instance_row \<Rightarrow> string" where
  "model_repr class_name i = class_name @ '' - '' @ int_str (pk i)"

definition named_repr :: "string \<Rightarrow> instance_row \<Rightarrow> string" where
  "named_repr class_name i =
    class_name @ '' - '' @ int_str (pk i) @ '' - '' @ py_str (get_val (columns i) ''name'')"

section \<open>What Django promises of a partial save\<close>

text \<open>
  The new stored row: the columns written take the instance's values, except \<open>updated_on\<close>,
  an \<open>auto_now\<close> column, which takes the present; every other column keeps its value.
\<close>

definition columns_written :: "pyval \<Rightarrow> string set \<Rightarrow> instance_row \<Rightarrow> row \<Rightarrow> row \<Rightarrow> bool" where
  "columns_written now fs i old new \<longleftrightarrow>
    (\<forall>c. get_val new c =
      (if c \<notin> fs then get_val old c else if c = ''updated_on'' then now else get_val (columns i) c))"

text \<open>
  \<open>save(update_fields=fs)\<close> of a stored row either raises and changes nothing, or rewrites those
  columns of that row and no other row.
\<close>

definition saves_columns :: "pyval \<Rightarrow> orm_save \<Rightarrow> bool" where
  "saves_columns now save \<longleftrightarrow>
    (\<forall>fs i s old. s (pk i) = Some old \<longrightarrow>
      (case save (Some fs) i s of
        (i', s', None) \<Rightarrow> pk i' = pk i \<and> (\<exists>new. s' = s(pk i \<mapsto> new) \<and> columns_written now fs i old new)
      | (i', s', Some e) \<Rightarrow> s' = s))"

section \<open>Lemmas\<close>

lemma pk_set_column [simp]: "pk (set_column c v i) = pk i"
  by (simp add: set_column_def)

lemma get_set_column [simp]:
  "get_val (columns (set_column c v i)) d = (if d = c then v else get_val (columns i) d)"
  by (simp add: set_column_def get_val_set)

lemma base_asave_eq: "base_asave save = base_save save"
  by (simp add: fun_eq_iff base_asave_def base_save_def)

lemma saves_columnsD:
  assumes "saves_columns now save" and "s (pk i) = Some old"
  shows "case save (Some fs) i s of
        (i', s', None) \<Rightarrow> pk i' = pk i \<and> (\<exists>new. s' = s(pk i \<mapsto> new) \<and> columns_written now fs i old new)
      | (i', s', Some e) \<Rightarrow> s' = s"
  using assms(1) [unfolded saves_columns_def, THEN spec [of _ fs], THEN spec [of _ i], THEN spec [of _ s],
      THEN spec [of _ old]] assms(2) by (rule mp)

lemma base_save_cases:
  assumes "saves_columns now save" and "s (pk i) = Some old"
  obtains (raised) i' e where "base_save save (Some fs) i s = (i', s, Some e)"
  | (saved) i' new where "base_save save (Some fs) i s = (i', s(pk i \<mapsto> new), None)"
      and "columns_written now (insert ''updated_on'' fs) i old new"
proof -
  obtain i' s' eo where w: "save (Some (insert ''updated_on'' fs)) i s = (i', s', eo)"
    by (cases "save (Some (insert ''updated_on'' fs)) i s") auto
  note spec = saves_columnsD [where s = s and i = i and fs = "insert ''updated_on'' fs", OF assms]
  from w have base: "base_save save (Some fs) i s = (i', s', map_option integrity_as_validation eo)"
    by (simp add: base_save_def ensure_updated_on_def)
  show thesis
  proof (cases eo)
    case None
    with spec w obtain new where "s' = s(pk i \<mapsto> new)" and "columns_written now (insert ''updated_on'' fs) i old new"
      by auto
    with base None show thesis by (intro saved) auto
  next
    case (Some e)
    with spec w base show thesis by (intro raised) auto
  qed
qed

lemma asoft_delete_eq: "asoft_delete validate (base_asave save) = soft_delete validate (base_save save)"
  by (simp add: fun_eq_iff asoft_delete_def soft_delete_def base_asave_eq)

text \<open>The rows a soft delete leaves: nothing changed, or one row flagged and stamped.\<close>

definition soft_deleted :: "pyval \<Rightarrow> string \<Rightarrow> row \<Rightarrow> row \<Rightarrow> bool" where
  "soft_deleted now flag old new \<longleftrightarrow>
    (\<forall>c. get_val new c =
      (if c = ''updated_on'' then now else if c = flag then VBool True else get_val old c))"

lemma soft_delete_cases:
  assumes "saves_columns now save" and "s (pk i) = Some old"
  obtains (raised) i' e where "soft_delete validate (base_save save) i s = (i', s, Some e)"
  | (deleted) i' new where "soft_delete validate (base_save save) i s = (i', s(pk i \<mapsto> new), None)"
      and "validate i = None" and "soft_deleted now ''is_deleted'' old new"
proof (cases "validate i")
  case (Some e)
  then show thesis by (intro raised [of i e]) (simp add: soft_delete_def)
next
  case None
  let ?i = "set_column ''is_deleted'' (VBool True) i"
  have "s (pk ?i) = Some old" using assms(2) by simp
  with assms(1) show thesis
  proof (cases rule: base_save_cases [where fs = "{''is_deleted''}"])
    case (raised i' e)
    with None show thesis by (intro that(1)) (simp add: soft_delete_def)
  next
    case (saved i' new)
    with None show thesis
      by (intro that(2)) (auto simp: soft_delete_def columns_written_def soft_deleted_def)
  qed
qed

text \<open>A save that satisfies the promise, for a row that holds all its columns.\<close>

definition sample_save :: "pyval \<Rightarrow> orm_save" where
  "sample_save now update_fields i s =
    (case s (pk i) of
      None \<Rightarrow> (i, s, Some (Does_Not_Exist []))
    | Some old \<Rightarrow>
        let value = (\<lambda>c. if c = ''updated_on'' then now else get_val (columns i) c);
            new = (case update_fields of
                None \<Rightarrow> columns i
              | Some fs \<Rightarrow>
                  map (\<lambda>(c, v). (c, if c \<in> fs then value c else v)) old)
        in if case update_fields of None \<Rightarrow> True | Some fs \<Rightarrow> \<forall>c\<in>fs. c \<in> set (dict_keys old)
           then (i, s(pk i \<mapsto> new), None) else (i, s, Some (Value_Error ''update_fields'')))"

lemma get_val_map_columns:
  "get_val (map (\<lambda>(c, v). (c, if c \<in> fs then value c else v)) d) k =
    (if k \<in> set (dict_keys d) then if k \<in> fs then value k else get_val d k else VNone)"
  by (induction d) (auto simp: get_val_def dict_keys_def split: if_splits)

lemma get_val_notin: "k \<notin> set (dict_keys d) \<Longrightarrow> get_val d k = VNone"
  by (simp add: get_val_def dict_get_None_iff [symmetric])

lemma sample_save_saves: "saves_columns now (sample_save now)"
  by (auto simp: saves_columns_def sample_save_def Let_def columns_written_def get_val_map_columns
      get_val_notin)

section \<open>Properties\<close>

text \<open>
  Soft deletion through the base model writes one row and two columns: with Django's partial
  save as documented, it either raises and no stored row changes, or the hook allowed it, the row is
  flagged deleted and stamped with the present although the code asked for \<open>is_deleted\<close> alone,
  and every other column and every other row is as before. The asynchronous path agrees.
\<close>

theorem soft_delete_writes_flag_and_stamp:
  assumes "saves_columns now save" and "s (pk i) = Some old"
  shows "asoft_delete validate (base_asave save) i s = soft_delete validate (base_save save) i s \<and>
    (case soft_delete validate (base_save save) i s of
        (i', s', None) \<Rightarrow> validate i = None \<and> (\<exists>new. s' = s(pk i \<mapsto> new) \<and> soft_deleted now ''is_deleted'' old new)
      | (i', s', Some e) \<Rightarrow> s' = s)"
  using assms by (cases rule: soft_delete_cases [where validate = validate]) (auto simp: asoft_delete_eq)

abbreviation sample_row :: row where
  "sample_row \<equiv> [(''name'', VStr ''pump''), (''is_deleted'', VBool False), (''updated_on'', VInt 1)]"

lemma soft_delete_writes_flag_and_stamp_witness:
  "\<exists>new. fst (snd (soft_delete validate_soft_delete (base_save (sample_save (VInt 2)))
      \<lparr>pk = 5, columns = sample_row\<rparr> [5 \<mapsto> sample_row])) = [5 \<mapsto> new] \<and> soft_deleted (VInt 2) ''is_deleted'' sample_row new"
proof -
  have "snd (snd (soft_delete validate_soft_delete (base_save (sample_save (VInt 2)))
      \<lparr>pk = 5, columns = sample_row\<rparr> [5 \<mapsto> sample_row])) = None"
    by (simp add: soft_delete_def validate_soft_delete_def base_save_def ensure_updated_on_def sample_save_def
        set_column_def dict_set_def dict_keys_def)
  with soft_delete_writes_flag_and_stamp [OF sample_save_saves [of "VInt 2"],
      of "[5 \<mapsto> sample_row]" "\<lparr>pk = 5, columns = sample_row\<rparr>" sample_row validate_soft_delete]
  show ?thesis by (auto split: prod.splits)
qed

end
