(* ===== verification/Viewsets.thy ===== *)
theory Viewsets
  imports Tenancy Models
begin

text \<open>
  \<open>netix_backend/django/views.py\<close>, the other viewset mixins, and their asynchronous twins in
  \<open>views_aio.py\<close>: organization scoped query sets, soft deletion, atomic handlers, object
  ownership, mapped list errors, list bodies and \<open>?include_deleted\<close>. Query sets are built by
  Django and by the Envoy filter of \<open>envoy_pyauth\<close>; the model keeps the expression the code
  builds, and evaluates it over a filter given as a parameter.
\<close>

section \<open>Scoped query sets\<close>

text \<open>The keyword arguments the Envoy filter is called with.\<close>

record scope_kwargs =
  scope_request :: "request option"
  session_customer :: bool
  field_name :: string
  delete_filter :: bool
  include_shared :: "bool option"

datatype queryset =
    Declared string model
    \<comment> \<open>a query set declared on a class, with its model\<close>
  | Manager model
  | All queryset
  | Nothing queryset
  | Parent_Queryset
    \<comment> \<open>what the rest of the class hierarchy returns\<close>
  | Envoy_Get model scope_kwargs
  | Envoy_Filter queryset scope_kwargs
  | Filter_By queryset row
  | Order_By queryset "string list"

fun queryset_model :: "queryset \<Rightarrow> model" where
  "queryset_model (Declared n m) = m"
| "queryset_model (Manager m) = m"
| "queryset_model (All q) = queryset_model q"
| "queryset_model (Nothing q) = queryset_model q"
| "queryset_model Parent_Queryset = []"
| "queryset_model (Envoy_Get m k) = m"
| "queryset_model (Envoy_Filter q k) = queryset_model q"
| "queryset_model (Filter_By q f) = queryset_model q"
| "queryset_model (Order_By q fs) = queryset_model q"

text \<open>
  The class attributes of a view, the setting they fall back to, whether the installed Envoy
  filter knows \<open>include_shared\<close>, and the request and action being served.
\<close>

record scoped_view =
  organization_field :: string
  session_customer_filter :: "bool option"
  setting_session_customer_filter :: "bool option"
  model_queryset :: "queryset option"
  organization_field_optional :: bool
  accepts_include_shared :: bool
  view_request :: "request option"
  view_action :: "string option"
  include_deleted_actions :: "string list"
  include_deleted_queryset :: "queryset option"
  include_deleted_live_first :: bool

definition resolve_session_customer_filter :: "scoped_view \<Rightarrow> model option \<Rightarrow> string option \<Rightarrow> bool" where
  "resolve_session_customer_filter v m name =
    (let value = (case session_customer_filter v of
          Some b \<Rightarrow> b
        | None \<Rightarrow> (case setting_session_customer_filter v of Some b \<Rightarrow> b | None \<Rightarrow> True))
     in case m of
          Some m' \<Rightarrow>
            if value \<and> organization_field_optional v
            then probe_model_field m' (case name of
                Some n \<Rightarrow> if n = [] then organization_field v else n
              | None \<Rightarrow> organization_field v)
            else value
        | None \<Rightarrow> value)"

text \<open>The keyword-only knobs of the two query set entry points.\<close>

record scope_options =
  opt_field_name :: "string option"
  opt_delete_filter :: bool
  opt_include_shared :: "bool option"
  opt_additional_filter :: row

definition no_options :: scope_options where
  "no_options = \<lparr>opt_field_name = None, opt_delete_filter = True, opt_include_shared = None,
    opt_additional_filter = []\<rparr>"

definition scope_call_kwargs :: "scoped_view \<Rightarrow> model \<Rightarrow> scope_options \<Rightarrow> scope_kwargs" where
  "scope_call_kwargs v m opts =
    (let field = (case opt_field_name opts of
          Some n \<Rightarrow> if n = [] then organization_field v else n
        | None \<Rightarrow> organization_field v)
     in \<lparr>scope_request = view_request v,
         session_customer = resolve_session_customer_filter v (Some m) (Some field),
         field_name = field,
         delete_filter = opt_delete_filter opts,
         include_shared = (if accepts_include_shared v then opt_include_shared opts else None)\<rparr>)"

definition additionally :: "row \<Rightarrow> queryset \<Rightarrow> queryset" where
  "additionally extra q = (if extra = [] then q else Filter_By q extra)"

definition get_queryset_filter :: "scoped_view \<Rightarrow> model \<Rightarrow> scope_options \<Rightarrow> queryset" where
  "get_queryset_filter v m opts =
    additionally (opt_additional_filter opts) (Envoy_Get m (scope_call_kwargs v m opts))"

definition scope_queryset :: "scoped_view \<Rightarrow> queryset \<Rightarrow> scope_options \<Rightarrow> queryset" where
  "scope_queryset v q opts =
    additionally (opt_additional_filter opts) (Envoy_Filter q (scope_call_kwargs v (queryset_model q) opts))"

definition get_queryset :: "scoped_view \<Rightarrow> queryset" where
  "get_queryset v =
    (case model_queryset v of
      None \<Rightarrow> Parent_Queryset
    | Some q \<Rightarrow>
        (case view_request v of
          None \<Rightarrow> Nothing q
        | Some r \<Rightarrow> scope_queryset v (All q) no_options))"

section \<open>Deleted rows on request\<close>

definition INCLUDE_DELETED_PARAM :: string where "INCLUDE_DELETED_PARAM = ''include_deleted''"

definition INCLUDE_DELETED_ACTIONS :: "string list" where
  "INCLUDE_DELETED_ACTIONS = [''list'', ''retrieve'', ''update'', ''partial_update'']"

definition VIEW_TRUTHY :: "string list" where
  "VIEW_TRUTHY = [''1'', ''true'', ''yes'', ''on'']"

definition include_deleted_requested :: "scoped_view \<Rightarrow> bool" where
  "include_deleted_requested v =
    (if \<not> (case view_action v of None \<Rightarrow> False | Some a \<Rightarrow> a \<in> set (include_deleted_actions v)) then False
     else (case view_request v of
        None \<Rightarrow> False
      | Some r \<Rightarrow> (case dict_get (query_params r) INCLUDE_DELETED_PARAM of
            None \<Rightarrow> False
          | Some raw \<Rightarrow> lower (strip raw) \<in> set VIEW_TRUTHY)))"

definition include_deleted_queryset_filter :: "scoped_view \<Rightarrow> model \<Rightarrow> scope_options \<Rightarrow> queryset" where
  "include_deleted_queryset_filter v m opts =
    get_queryset_filter v m
      (opts\<lparr>opt_delete_filter := opt_delete_filter opts \<and> \<not> include_deleted_requested v\<rparr>)"

text \<open>
  \<open>scoped\<close> says whether the class also has \<open>_scope_queryset\<close>; the parent query set is what the
  next class returns.
\<close>

definition include_deleted_get_queryset :: "bool \<Rightarrow> scoped_view \<Rightarrow> queryset \<Rightarrow> queryset" where
  "include_deleted_get_queryset scoped v parent =
    (case include_deleted_queryset v of
      None \<Rightarrow> parent
    | Some q \<Rightarrow>
        if \<not> include_deleted_requested v then parent
        else if \<not> scoped then All q
        else scope_queryset v (All q) (no_options\<lparr>opt_delete_filter := False\<rparr>))"

fun query_order_by :: "queryset \<Rightarrow> string list" where
  "query_order_by (Order_By q fs) = fs"
| "query_order_by (All q) = query_order_by q"
| "query_order_by (Nothing q) = query_order_by q"
| "query_order_by (Filter_By q f) = query_order_by q"
| "query_order_by (Envoy_Filter q k) = query_order_by q"
| "query_order_by _ = []"

definition include_deleted_filter_queryset :: "scoped_view \<Rightarrow> queryset \<Rightarrow> queryset" where
  "include_deleted_filter_queryset v filtered =
    (if \<not> (include_deleted_live_first v \<and> include_deleted_requested v) then filtered
     else Order_By filtered (''is_deleted'' #
       (if query_order_by filtered = [] then [''id''] else query_order_by filtered)))"

section \<open>Soft deletion\<close>

text \<open>
  The knobs of \<open>SoftDeleteMixin\<close>, and what the instance's class offers: the two hooks are absent
  (\<open>None\<close>) when the class has no such method.
\<close>

record soft_delete_view =
  soft_delete_field :: string
  soft_delete_404_on_repeat :: bool
  soft_delete_validate :: bool
  consistent_envelope :: bool

record model_class =
  model_fields :: model
  validate_hook :: "(instance_row \<Rightarrow> exc option) option"
  soft_delete_hook :: "(instance_row \<Rightarrow> store \<Rightarrow> written) option"
  class_save :: orm_save

definition soft_delete_update_fields :: "soft_delete_view \<Rightarrow> model_class \<Rightarrow> string list" where
  "soft_delete_update_fields v c =
    [soft_delete_field v] @ (if probe_model_field (model_fields c) ''updated_on'' then [''updated_on''] else [])"

definition soft_delete_instance :: "soft_delete_view \<Rightarrow> model_class \<Rightarrow> instance_row \<Rightarrow> store \<Rightarrow> written" where
  "soft_delete_instance v c i s =
    (if soft_delete_404_on_repeat v \<and> truthy (get_val (columns i) (soft_delete_field v))
     then (i, s, Some Http404)
     else
       case (if soft_delete_validate v
             then (case validate_hook c of Some validate \<Rightarrow> validate i | None \<Rightarrow> None) else None) of
         Some e \<Rightarrow> (i, s, Some e)
       | None \<Rightarrow>
           (case soft_delete_hook c of
             Some model_soft_delete \<Rightarrow> model_soft_delete i s
           | None \<Rightarrow>
               class_save c (Some (set (soft_delete_update_fields v c)))
                 (set_column (soft_delete_field v) (VBool True) i) s))"

text \<open>A transaction: an exception that leaves the block takes the writes of the block with it.\<close>

definition atomically :: "(store \<Rightarrow> 'a res \<times> store) \<Rightarrow> store \<Rightarrow> 'a res \<times> store" where
  "atomically block s = (case block s of (Inl e, s') \<Rightarrow> (Inl e, s) | done \<Rightarrow> done)"

text \<open>
  The synchronous handler: the decorator makes the whole handler atomic, and the handler answers
  an \<open>Http404\<close> itself unless the consistent envelope is on. Statuses are the results.
\<close>

definition destroy_body ::
    "soft_delete_view \<Rightarrow> model_class \<Rightarrow> (store \<Rightarrow> instance_row res) \<Rightarrow> store \<Rightarrow> int res \<times> store" where
  "destroy_body v c get_object s =
    (let (outcome, s') = (case get_object s of
        Inl e \<Rightarrow> (Some e, s)
      | Inr i \<Rightarrow> (case soft_delete_instance v c i s of (i', s', error) \<Rightarrow> (error, s')))
     in case outcome of
          None \<Rightarrow> (Inr 204, s')
        | Some Http404 \<Rightarrow> if consistent_envelope v then (Inl Http404, s') else (Inr 404, s')
        | Some e \<Rightarrow> (Inl e, s'))"

definition destroy ::
    "soft_delete_view \<Rightarrow> model_class \<Rightarrow> (store \<Rightarrow> instance_row res) \<Rightarrow> store \<Rightarrow> int res \<times> store" where
  "destroy v c get_object = atomically (destroy_body v c get_object)"

text \<open>
  The asynchronous handler: only the soft delete is atomic, so a 404 it raises is rolled back
  before the handler answers it.
\<close>

definition atomic_soft_delete :: "soft_delete_view \<Rightarrow> model_class \<Rightarrow> instance_row \<Rightarrow> store \<Rightarrow> unit res \<times> store" where
  "atomic_soft_delete v c i =
    atomically (\<lambda>s. case soft_delete_instance v c i s of
        (i', s', None) \<Rightarrow> (Inr (), s')
      | (i', s', Some e) \<Rightarrow> (Inl e, s'))"

definition adestroy ::
    "soft_delete_view \<Rightarrow> model_class \<Rightarrow> (store \<Rightarrow> instance_row res) \<Rightarrow> store \<Rightarrow> int res \<times> store" where
  "adestroy v c aget_object s =
    (let (outcome, s') = (case aget_object s of
        Inl e \<Rightarrow> (Inl e, s)
      | Inr i \<Rightarrow> atomic_soft_delete v c i s)
     in case outcome of
          Inr _ \<Rightarrow> (Inr 204, s')
        | Inl Http404 \<Rightarrow> if consistent_envelope v then (Inl Http404, s') else (Inr 404, s')
        | Inl e \<Rightarrow> (Inl e, s'))"

section \<open>Atomic handlers\<close>

definition ATOMIC_ACTIONS :: "string list" where
  "ATOMIC_ACTIONS = [''create'', ''update'', ''partial_update'', ''destroy'']"

record handler =
  is_coroutine :: bool
  run_handler :: "store \<Rightarrow> int res \<times> store"

text \<open>
  The handler the parent's dispatch will find: the resolved one, wrapped in a transaction when its
  action is atomic and it is not a coroutine.
\<close>

definition dispatch_handler ::
    "string list \<Rightarrow> (string, string) dict \<Rightarrow> (string, handler) dict \<Rightarrow> string \<Rightarrow> handler option" where
  "dispatch_handler atomic_actions action_map handlers http_method =
    (let name = lower http_method; act = dict_get action_map name in
     case dict_get handlers name of
       None \<Rightarrow> None
     | Some h \<Rightarrow>
         if (case act of None \<Rightarrow> False | Some a \<Rightarrow> a \<in> set atomic_actions) \<and> \<not> is_coroutine h
         then Some (h\<lparr>run_handler := atomically (run_handler h)\<rparr>)
         else Some h)"

section \<open>Object ownership\<close>

definition SAFE_METHODS :: "string list" where
  "SAFE_METHODS = [''GET'', ''HEAD'', ''OPTIONS'']"

definition legacy_object_org_permission :: "request \<Rightarrow> row \<Rightarrow> bool" where
  "legacy_object_org_permission r obj =
    (if req_method r \<in> set SAFE_METHODS then True
     else case envoy r of
       None \<Rightarrow> True
     | Some e \<Rightarrow>
         if e = [] then True
         else
           let caller = get_val e ''organization'' in
           if py_str caller = ''0'' \<or> lower (py_str (get_val e ''is_superuser'')) = ''true'' then True
           else
             let owner = get_val obj ''organization_id'' in
             owner = VNone \<or> py_str owner = py_str caller)"

datatype ownership_mode = Ownership_Library | Ownership_Legacy_Open | Ownership_Off

record ownership_view =
  org_ownership :: ownership_mode
  org_ownership_exempt_actions :: "string list"
  ownership_action :: "string option"

text \<open>The library's own object permission is \<open>envoy_pyauth\<close>'s: a parameter.\<close>

definition has_object_permission :: "(request \<Rightarrow> row \<Rightarrow> bool) \<Rightarrow> ownership_view \<Rightarrow> request \<Rightarrow> row \<Rightarrow> bool" where
  "has_object_permission library v r obj =
    (if org_ownership v = Ownership_Off then True
     else if (case ownership_action v of None \<Rightarrow> False | Some a \<Rightarrow> a \<in> set (org_ownership_exempt_actions v)) then True
     else if org_ownership v = Ownership_Legacy_Open then legacy_object_org_permission r obj
     else library r obj)"

section \<open>Mapped list errors\<close>

type_synonym list_error_rule = "(exc \<Rightarrow> bool) \<times> (exc \<Rightarrow> bool) option \<times> string"

fun is_value_error :: "exc \<Rightarrow> bool" where
  "is_value_error (Value_Error m) = True"
| "is_value_error e = False"

definition list_error_map :: "list_error_rule list" where
  "list_error_map = [(is_value_error, None, ''Invalid query'')]"

fun first_list_rule :: "list_error_rule list \<Rightarrow> exc \<Rightarrow> string option" where
  "first_list_rule [] e = None"
| "first_list_rule ((error_type, predicate, message) # rules) e =
    (if error_type e \<and> (case predicate of None \<Rightarrow> True | Some p \<Rightarrow> p e) then Some message
     else first_list_rule rules e)"

definition mapped_list_errors :: "list_error_rule list \<Rightarrow> 'a res \<Rightarrow> 'a res" where
  "mapped_list_errors rules result =
    (case result of
      Inr x \<Rightarrow> Inr x
    | Inl e \<Rightarrow> (case first_list_rule rules e of
        Some message \<Rightarrow> Inl (Validation_Error None message)
      | None \<Rightarrow> Inl e))"

definition list_view :: "list_error_rule list \<Rightarrow> ('q \<Rightarrow> 'r res) \<Rightarrow> 'q \<Rightarrow> 'r res" where
  "list_view rules super_list request = mapped_list_errors rules (super_list request)"

definition filter_queryset_view :: "list_error_rule list \<Rightarrow> ('q \<Rightarrow> 'q res) \<Rightarrow> 'q \<Rightarrow> 'q res" where
  "filter_queryset_view rules super_filter q = mapped_list_errors rules (super_filter q)"

section \<open>Bodies that are lists\<close>

text \<open>
  Validation is the serializer's: it is given the data, whether it is a list, and the instance with
  the partial flag. The result is the status with the keyword arguments \<open>save\<close> got.
\<close>

type_synonym validator = "body \<Rightarrow> bool \<Rightarrow> (row \<times> bool) option \<Rightarrow> row list res"

fun is_list_body :: "body \<Rightarrow> bool" where
  "is_list_body (Body_List rows) = True"
| "is_list_body (Body_Map d) = False"

definition pinned_body :: "write_scope \<Rightarrow> model option \<Rightarrow> body \<Rightarrow> body res" where
  "pinned_body w m data =
    rbind (get_serializer_data w m (Some data)) (\<lambda>d. case d of Some d' \<Rightarrow> Inr d' | None \<Rightarrow> Inr data)"

definition create_view ::
    "write_scope \<Rightarrow> model option \<Rightarrow> validator \<Rightarrow> body \<Rightarrow> (int \<times> save_kwargs) res" where
  "create_view w m validate data =
    rbind (pinned_body w m data) (\<lambda>d.
    rbind (validate d (is_list_body data) None) (\<lambda>rows.
    rbind (perform_create w \<lparr>ser_model = m, validated = rows, ser_instance = None\<rparr>) (\<lambda>kw.
      Inr (201, kw))))"

definition update_view ::
    "write_scope \<Rightarrow> model option \<Rightarrow> validator \<Rightarrow> row res \<Rightarrow> bool \<Rightarrow> body \<Rightarrow> (int \<times> save_kwargs) res" where
  "update_view w m validate get_object partial data =
    rbind (if is_list_body data then Inr None
           else rbind get_object (\<lambda>i. Inr (Some (i, partial)))) (\<lambda>target.
    rbind (pinned_body w m data) (\<lambda>d.
    rbind (validate d (is_list_body data) target) (\<lambda>rows.
    rbind (perform_update w \<lparr>ser_model = m, validated = rows,
        ser_instance = map_option fst target\<rparr>) (\<lambda>kw.
      Inr (200, kw)))))"

section \<open>Asynchronous write hooks\<close>

text \<open>
  An asynchronous view awaits the serializer's own \<open>asave\<close> when the synchronous hook is the
  stock one and there is nothing to pin; otherwise it runs the synchronous hook in a thread.
\<close>

datatype save_call = Hook_Save save_kwargs | Plain_Save

definition perform_acreate :: "bool \<Rightarrow> (serializer \<Rightarrow> save_kwargs res) \<Rightarrow> write_scope \<Rightarrow> serializer \<Rightarrow> save_call res" where
  "perform_acreate has_sync_override hook w s =
    rbind (if has_sync_override then Inr True
           else rbind (tenant_save_kwargs w s) (\<lambda>kw. Inr (kw \<noteq> []))) (\<lambda>sync.
      if sync then rbind (hook s) (\<lambda>kw. Inr (Hook_Save kw)) else Inr Plain_Save)"

definition perform_aupdate :: "bool \<Rightarrow> (serializer \<Rightarrow> save_kwargs res) \<Rightarrow> write_scope \<Rightarrow> serializer \<Rightarrow> save_call res" where
  "perform_aupdate has_sync_override hook w s =
    rbind (if has_sync_override then Inr True
           else rbind (tenant_save_kwargs w s) (\<lambda>kw. Inr (kw \<noteq> []))) (\<lambda>sync.
      if sync then rbind (hook s) (\<lambda>kw. Inr (Hook_Save kw)) else Inr Plain_Save)"

section \<open>What a query set selects\<close>

text \<open>
  The database and the libraries: the rows behind a declared query set, a manager and the parent,
  which rows the Envoy filter keeps, what a lookup of \<open>filter\<close> matches, and ordering.
\<close>

record orm =
  declared_rows :: "string \<Rightarrow> row list"
  manager_rows :: "model \<Rightarrow> row list"
  parent_rows :: "row list"
  envoy_keeps :: "scope_kwargs \<Rightarrow> row \<Rightarrow> bool"
  matches :: "string \<Rightarrow> pyval \<Rightarrow> row \<Rightarrow> bool"
  ordered :: "string list \<Rightarrow> row list \<Rightarrow> row list"

fun rows_of :: "orm \<Rightarrow> queryset \<Rightarrow> row list" where
  "rows_of w (Declared n m) = declared_rows w n"
| "rows_of w (Manager m) = manager_rows w m"
| "rows_of w (All q) = rows_of w q"
| "rows_of w (Nothing q) = []"
| "rows_of w Parent_Queryset = parent_rows w"
| "rows_of w (Envoy_Get m k) = filter (envoy_keeps w k) (manager_rows w m)"
| "rows_of w (Envoy_Filter q k) = filter (envoy_keeps w k) (rows_of w q)"
| "rows_of w (Filter_By q f) = filter (\<lambda>r. list_all (\<lambda>(c, v). matches w c v r) f) (rows_of w q)"
| "rows_of w (Order_By q fs) = ordered w fs (rows_of w q)"

definition live :: "row \<Rightarrow> bool" where
  "live r \<longleftrightarrow> \<not> truthy (get_val r ''is_deleted'')"

text \<open>
  What \<open>delete_filter\<close> promises: it removes the deleted rows and leaves the rest of the scoping as
  it is.
\<close>

definition delete_filter_contract :: "orm \<Rightarrow> bool" where
  "delete_filter_contract w \<longleftrightarrow>
    (\<forall>k r. envoy_keeps w k r = (envoy_keeps w (k\<lparr>delete_filter := False\<rparr>) r \<and> (delete_filter k \<longrightarrow> live r)))"

section \<open>Lemmas\<close>

lemma rows_of_additionally:
  "rows_of w (additionally f q) = filter (\<lambda>r. list_all (\<lambda>(c, v). matches w c v r) f) (rows_of w q)"
  by (simp add: additionally_def)

lemma scope_call_kwargs_delete_filter:
  "scope_call_kwargs v m (opts\<lparr>opt_delete_filter := b\<rparr>) = (scope_call_kwargs v m opts)\<lparr>delete_filter := b\<rparr>"
  by (simp add: scope_call_kwargs_def Let_def)

text \<open>
  The same view with the delete filter on or off: on, the rows are the live ones of off, in the
  same order.
\<close>

lemma envoy_keeps_delete_filter:
  assumes "delete_filter_contract w"
  shows "envoy_keeps w (k\<lparr>delete_filter := b\<rparr>) r =
    (envoy_keeps w (k\<lparr>delete_filter := False\<rparr>) r \<and> (b \<longrightarrow> live r))"
  using assms [unfolded delete_filter_contract_def, rule_format, of "k\<lparr>delete_filter := b\<rparr>" r] by simp

lemma rows_delete_filter:
  assumes "delete_filter_contract w"
  shows "rows_of w (get_queryset_filter v m (opts\<lparr>opt_delete_filter := b\<rparr>)) =
    filter (\<lambda>r. b \<longrightarrow> live r) (rows_of w (get_queryset_filter v m (opts\<lparr>opt_delete_filter := False\<rparr>)))"
  by (auto simp: get_queryset_filter_def rows_of_additionally scope_call_kwargs_delete_filter
      envoy_keeps_delete_filter [OF assms, where b = b] intro!: filter_cong)

lemma rows_scope_delete_filter:
  assumes "delete_filter_contract w"
  shows "rows_of w (scope_queryset v q (opts\<lparr>opt_delete_filter := b\<rparr>)) =
    filter (\<lambda>r. b \<longrightarrow> live r) (rows_of w (scope_queryset v q (opts\<lparr>opt_delete_filter := False\<rparr>)))"
  by (auto simp: scope_queryset_def rows_of_additionally scope_call_kwargs_delete_filter
      envoy_keeps_delete_filter [OF assms, where b = b] intro!: filter_cong)

text \<open>A transaction keeps the outcome and, after an exception, the rows.\<close>

lemma atomically_fst [simp]: "fst (atomically b s) = fst (b s)"
  by (auto simp: atomically_def split: prod.splits sum.splits)

lemma atomically_snd:
  "snd (atomically b s) = (case fst (b s) of Inl e \<Rightarrow> s | Inr x \<Rightarrow> snd (b s))"
  by (auto simp: atomically_def split: prod.splits sum.splits)

definition find_object :: "int \<Rightarrow> store \<Rightarrow> instance_row res" where
  "find_object p s = (case s p of None \<Rightarrow> Inl Http404 | Some r \<Rightarrow> Inr \<lparr>pk = p, columns = r\<rparr>)"

section \<open>Properties\<close>


abbreviation tombstones :: orm where
  "tombstones \<equiv> \<lparr>declared_rows = \<lambda>n. [],
    manager_rows = \<lambda>m. [[(''id'', VInt 1)], [(''id'', VInt 2), (''is_deleted'', VBool True)]],
    parent_rows = [], envoy_keeps = \<lambda>k r. delete_filter k \<longrightarrow> live r,
    matches = \<lambda>c v r. get_val r c = v, ordered = \<lambda>fs rows. rows\<rparr>"

abbreviation plain_view :: "request option \<Rightarrow> scoped_view" where
  "plain_view r \<equiv> \<lparr>organization_field = ''organization_id'', session_customer_filter = None,
    setting_session_customer_filter = None, model_queryset = None, organization_field_optional = False,
    accepts_include_shared = True, view_request = r, view_action = Some ''list'',
    include_deleted_actions = INCLUDE_DELETED_ACTIONS, include_deleted_queryset = None,
    include_deleted_live_first = False\<rparr>"

abbreviation asking_for_deleted :: request where
  "asking_for_deleted \<equiv> \<lparr>envoy = None, user = None, req_method = ''GET'',
    query_params = [(''include_deleted'', '' TRUE '')]\<rparr>"

lemma include_deleted_requested_sample: "include_deleted_requested (plain_view (Some asking_for_deleted))"
  by code_simp


text \<open>
  The models a viewset retires rows of: one with no soft delete of its own, which the mixin flags with
  Django's partial save, and one that derives from the package's \<open>BaseModel\<close>, whose \<open>soft_delete\<close> validates and
  saves through the base. Django's save is as documented.
\<close>

definition retirable :: "pyval \<Rightarrow> soft_delete_view \<Rightarrow> model_class \<Rightarrow> bool" where
  "retirable now v c \<longleftrightarrow> soft_delete_field v \<noteq> ''updated_on'' \<and>
    (soft_delete_hook c = None \<and> saves_columns now (class_save c)
     \<or> (\<exists>validate save. soft_delete_hook c = Some (soft_delete validate (base_save save)) \<and> saves_columns now save
          \<and> soft_delete_field v = ''is_deleted''))"

definition stamps :: "model_class \<Rightarrow> bool" where
  "stamps c \<longleftrightarrow> soft_delete_hook c \<noteq> None \<or> probe_model_field (model_fields c) ''updated_on''"

definition retired_row :: "pyval \<Rightarrow> soft_delete_view \<Rightarrow> model_class \<Rightarrow> row \<Rightarrow> row \<Rightarrow> bool" where
  "retired_row now v c old new \<longleftrightarrow>
    (\<forall>col. get_val new col =
      (if col = soft_delete_field v then VBool True
       else if col = ''updated_on'' \<and> stamps c then now else get_val old col))"

lemma retirable_cases:
  assumes "retirable now v c" and "s (pk i) = Some old" and "columns i = old"
  obtains (repeated) "soft_delete_404_on_repeat v" and "truthy (get_val old (soft_delete_field v))"
      and "soft_delete_instance v c i s = (i, s, Some Http404)"
  | (raised) i' e where "soft_delete_instance v c i s = (i', s, Some e)"
  | (flagged) i' new where "soft_delete_instance v c i s = (i', s(pk i \<mapsto> new), None)" and "retired_row now v c old new"
      and "\<not> (soft_delete_404_on_repeat v \<and> truthy (get_val old (soft_delete_field v)))"
proof (cases "soft_delete_404_on_repeat v \<and> truthy (get_val old (soft_delete_field v))")
  case True
  with assms(3) show thesis by (intro repeated) (simp_all add: soft_delete_instance_def)
next
  case live: False
  let ?allowed = "if soft_delete_validate v then (case validate_hook c of Some validate \<Rightarrow> validate i | None \<Rightarrow> None) else None"
  show thesis
  proof (cases ?allowed)
    case (Some e)
    with live assms(3) show thesis by (intro raised [of i e]) (auto simp: soft_delete_instance_def)
  next
    case None
    show thesis
    proof (cases "soft_delete_hook c")
      case no_hook: None
      with assms(1) have save: "saves_columns now (class_save c)" "soft_delete_field v \<noteq> ''updated_on''"
        by (auto simp: retirable_def)
      let ?i = "set_column (soft_delete_field v) (VBool True) i" and ?fs = "set (soft_delete_update_fields v c)"
      have sd: "soft_delete_instance v c i s = class_save c (Some ?fs) ?i s"
        unfolding soft_delete_instance_def None no_hook using live assms(3) by auto
      have "s (pk ?i) = Some old" using assms(2) by simp
      note spec = saves_columnsD [where s = s and i = ?i and fs = ?fs, OF save(1) this]
      obtain i' s' eo where w: "class_save c (Some ?fs) ?i s = (i', s', eo)"
        by (cases "class_save c (Some ?fs) ?i s") auto
      show thesis
      proof (cases eo)
        case None
        with spec w obtain new where new: "s' = s(pk i \<mapsto> new)" "columns_written now ?fs ?i old new" by auto
        from new(2) no_hook save(2) have "retired_row now v c old new"
          by (auto simp: retired_row_def stamps_def columns_written_def soft_delete_update_fields_def)
        with sd w None new(1) live show thesis by (intro flagged) auto
      next
        case (Some e)
        with spec w sd show thesis by (intro raised) auto
      qed
    next
      case (Some hook)
      with assms(1) obtain validate save where hook: "hook = soft_delete validate (base_save save)"
        and save: "saves_columns now save" "soft_delete_field v = ''is_deleted''"
        by (auto simp: retirable_def)
      have sd: "soft_delete_instance v c i s = soft_delete validate (base_save save) i s"
        unfolding soft_delete_instance_def None Some hook using live assms(3) by auto
      from save(1) assms(2) show thesis
      proof (cases rule: soft_delete_cases [where validate = validate])
        case (raised i' e)
        with sd show thesis by (intro that(2)) simp
      next
        case (deleted i' new)
        moreover from deleted(3) save(2) Some have "retired_row now v c old new"
          by (auto simp: soft_deleted_def retired_row_def stamps_def)
        ultimately show thesis using sd live by (intro that(3)) auto
      qed
    qed
  qed
qed

text \<open>What a handler answers an object that is not there: an empty 404, or the exception for the consistent envelope.\<close>

abbreviation missing :: "soft_delete_view \<Rightarrow> int res" where
  "missing v \<equiv> if consistent_envelope v then Inl Http404 else Inr 404"

text \<open>
  C6. \<open>DELETE\<close> retires a row once. For a model with no soft delete of its own and for one of the package's
  \<open>BaseModel\<close>, whatever its validation hooks raise and whichever envelope is on, and with Django's partial save
  as documented: a 204 means that the row was there and, where the view answers repeats with 404, was
  live, and that it, and only it, got its flag set, and its stamp if it has one, with every other column kept;
  any other outcome changed nothing. Where the view answers repeats with 404, as it does by default, asking again is
  answered as for an object that is not there, and changes nothing; where it opted out, asking again
  either changes nothing or is a 204 that writes the flag and the stamp again and no other column.
\<close>

theorem destroy_retires_once:
  assumes "retirable now v c" and answer: "destroy v c (find_object p) s = (outcome, s')"
  shows "if outcome = Inr 204
    then (\<exists>old new. s p = Some old \<and> s' = s(p \<mapsto> new) \<and> retired_row now v c old new
      \<and> (if soft_delete_404_on_repeat v
         then \<not> truthy (get_val old (soft_delete_field v)) \<and> destroy v c (find_object p) s' = (missing v, s')
         else \<forall>again s''. destroy v c (find_object p) s' = (again, s'') \<longrightarrow>
            s'' = s' \<or> again = Inr 204 \<and> (\<exists>newer. s'' = s(p \<mapsto> newer) \<and> retired_row now v c new newer)))
    else s' = s"
proof (cases "s p")
  case None
  with answer show ?thesis
    by (auto simp: destroy_def destroy_body_def find_object_def atomically_def split: if_splits)
next
  case (Some old)
  let ?i = "\<lparr>pk = p, columns = old\<rparr>"
  have found: "find_object p s = Inr ?i" using Some by (simp add: find_object_def)
  have "s (pk ?i) = Some old" "columns ?i = old" using Some by simp_all
  from assms(1) this show ?thesis
  proof (cases rule: retirable_cases)
    case repeated
    with answer found show ?thesis
      by (auto simp: destroy_def destroy_body_def atomically_def split: if_splits)
  next
    case (raised i' e)
    with answer found show ?thesis
      by (cases "e = Http404") (auto simp: destroy_def destroy_body_def atomically_def split: exc.splits if_splits)
  next
    case (flagged i' new)
    have o: "outcome = Inr 204 \<and> s' = s(p \<mapsto> new)"
      using answer found flagged(1) by (auto simp: destroy_def destroy_body_def atomically_def)
    let ?j = "\<lparr>pk = p, columns = new\<rparr>"
    have again: "find_object p s' = Inr ?j" "s' (pk ?j) = Some new" "columns ?j = new"
      using o by (simp_all add: find_object_def)
    have flag: "truthy (get_val new (soft_delete_field v))" using flagged(2) by (simp add: retired_row_def)
    have repeat: "if soft_delete_404_on_repeat v
       then \<not> truthy (get_val old (soft_delete_field v)) \<and> destroy v c (find_object p) s' = (missing v, s')
       else \<forall>again s''. destroy v c (find_object p) s' = (again, s'') \<longrightarrow>
          s'' = s' \<or> again = Inr 204 \<and> (\<exists>newer. s'' = s(p \<mapsto> newer) \<and> retired_row now v c new newer)"
      using assms(1) again(2,3)
    proof (cases rule: retirable_cases)
      case repeated
      with again(1) flagged(3) show ?thesis
        by (auto simp: destroy_def destroy_body_def atomically_def)
    next
      case (raised i2 e)
      with again(1) flag flagged(3) show ?thesis
        by (cases "e = Http404")
          (auto simp: destroy_def destroy_body_def atomically_def soft_delete_instance_def split: exc.splits if_splits)
    next
      case twice: (flagged i2 newer)
      have "destroy v c (find_object p) s' = (Inr 204, s'(p \<mapsto> newer))"
        using again(1) twice(1) by (simp add: destroy_def destroy_body_def atomically_def)
      moreover have "s'(p \<mapsto> newer) = s(p \<mapsto> newer)" using o by simp
      ultimately show ?thesis using flag twice(2,3) by auto
    qed
    with o flagged(2) Some show ?thesis by auto
  qed
qed

abbreviation plain_class :: model_class where
  "plain_class \<equiv> \<lparr>model_fields = [''name'', ''is_deleted''], validate_hook = None, soft_delete_hook = None,
    class_save = sample_save (VInt 2)\<rparr>"

abbreviation retiring_view :: soft_delete_view where
  "retiring_view \<equiv> \<lparr>soft_delete_field = ''is_deleted'', soft_delete_404_on_repeat = True,
    soft_delete_validate = False, consistent_envelope = False\<rparr>"

abbreviation pump :: row where
  "pump \<equiv> [(''name'', VStr ''pump''), (''is_deleted'', VBool False)]"

abbreviation retired_pump :: row where
  "retired_pump \<equiv> [(''name'', VStr ''pump''), (''is_deleted'', VBool True)]"

abbreviation base_class :: model_class where
  "base_class \<equiv> \<lparr>model_fields = [''is_deleted'', ''updated_on''], validate_hook = Some validate_soft_delete,
    soft_delete_hook = Some (soft_delete validate_soft_delete (base_save (sample_save (VInt 2)))),
    class_save = base_save (sample_save (VInt 2))\<rparr>"

abbreviation stamped_pump :: "pyval \<Rightarrow> pyval \<Rightarrow> row" where
  "stamped_pump flag stamp \<equiv> [(''is_deleted'', flag), (''updated_on'', stamp)]"

lemma destroy_retires_once_witness:
  "destroy retiring_view plain_class (find_object 5) [5 \<mapsto> pump] = (Inr 204, [5 \<mapsto> retired_pump]) \<and>
   destroy retiring_view plain_class (find_object 5) [5 \<mapsto> retired_pump] = (Inr 404, [5 \<mapsto> retired_pump]) \<and>
   destroy (retiring_view\<lparr>consistent_envelope := True\<rparr>) base_class (find_object 5) [5 \<mapsto> stamped_pump (VBool True) (VInt 2)] =
     (Inl Http404, [5 \<mapsto> stamped_pump (VBool True) (VInt 2)]) \<and>
   (\<exists>newer. destroy (retiring_view\<lparr>soft_delete_404_on_repeat := False\<rparr>) base_class (find_object 5)
      [5 \<mapsto> stamped_pump (VBool True) (VInt 1)] = (Inr 204, [5 \<mapsto> newer])
     \<and> retired_row (VInt 2) (retiring_view\<lparr>soft_delete_404_on_repeat := False\<rparr>) base_class (stamped_pump (VBool True) (VInt 1)) newer)"
proof -
  note eval = destroy_def destroy_body_def find_object_def atomically_def soft_delete_instance_def
    soft_delete_def validate_soft_delete_def base_save_def ensure_updated_on_def
    sample_save_def set_column_def dict_set_def dict_keys_def soft_delete_update_fields_def
    probe_model_field_def ends_with_def get_val_def
  have able: "retirable (VInt 2) retiring_view plain_class"
    "retirable (VInt 2) (retiring_view\<lparr>consistent_envelope := True\<rparr>) base_class"
    "retirable (VInt 2) (retiring_view\<lparr>soft_delete_404_on_repeat := False\<rparr>) base_class"
    using sample_save_saves by (auto simp: retirable_def)
  have first: "destroy retiring_view plain_class (find_object 5) [5 \<mapsto> pump] = (Inr 204, [5 \<mapsto> retired_pump])"
    by (simp add: eval)
  have second: "destroy (retiring_view\<lparr>consistent_envelope := True\<rparr>) base_class (find_object 5) [5 \<mapsto> stamped_pump (VBool False) (VInt 1)] =
      (Inr 204, [5 \<mapsto> stamped_pump (VBool True) (VInt 2)])"
    by (simp add: eval)
  have third: "destroy (retiring_view\<lparr>soft_delete_404_on_repeat := False\<rparr>) base_class (find_object 5)
      [5 \<mapsto> stamped_pump (VBool True) (VInt 1)] = (Inr 204, [5 \<mapsto> stamped_pump (VBool True) (VInt 2)])"
    by (simp add: eval)
  show ?thesis
    using destroy_retires_once [OF able(1) first] destroy_retires_once [OF able(2) second]
      destroy_retires_once [OF able(3) third] first third
    by simp blast
qed

text \<open>
  C7. The two \<open>DELETE\<close> handlers give the same answer, and leave the same rows but in one case:
  when the model's own soft delete raises \<open>Http404\<close> after it has written, the synchronous
  handler, which catches the exception inside its own transaction, commits what was written while
  answering 404, and the asynchronous one rolls it back.
\<close>

theorem destroy_agrees_with_adestroy:
  "fst (destroy v c get_object s) = fst (adestroy v c get_object s) \<and>
   snd (destroy v c get_object s) =
    (case get_object s of
      Inl e \<Rightarrow> s
    | Inr i \<Rightarrow>
        (case soft_delete_instance v c i s of
          (i', s', Some e) \<Rightarrow> if e = Http404 \<and> \<not> consistent_envelope v then s' else snd (adestroy v c get_object s)
        | (i', s', None) \<Rightarrow> snd (adestroy v c get_object s)))"
proof (cases "get_object s")
  case (Inl e)
  then show ?thesis
    by (cases e) (simp_all add: destroy_def destroy_body_def adestroy_def atomically_def)
next
  case (Inr i)
  obtain i' s' eo where "soft_delete_instance v c i s = (i', s', eo)"
    by (cases "soft_delete_instance v c i s") auto
  with Inr show ?thesis
    by (cases eo; cases "the eo")
      (simp_all add: destroy_def destroy_body_def adestroy_def atomic_soft_delete_def atomically_def)
qed

text \<open>
  The asynchronous write hooks save what the synchronous ones would: with the stock hook, they
  raise the same permission errors, save with the same pinned arguments, and fall back to the
  serializer's own asynchronous save exactly when nothing is pinned.
\<close>

theorem async_hooks_keep_pinning:
  "perform_acreate False (perform_create w) w s =
    rbind (perform_create w s) (\<lambda>kw. Inr (if kw = [] then Plain_Save else Hook_Save kw)) \<and>
   perform_aupdate False (perform_update w) w s =
    rbind (perform_update w s) (\<lambda>kw. Inr (if kw = [] then Plain_Save else Hook_Save kw))"
proof (cases "tenant_save_kwargs w s")
  case (Inl e)
  then show ?thesis
    by (simp add: perform_acreate_def perform_aupdate_def perform_create_def perform_update_def)
next
  case (Inr kw)
  show ?thesis
  proof (cases kw)
    case Nil
    with Inr show ?thesis
      by (simp add: perform_acreate_def perform_aupdate_def perform_create_def perform_update_def)
  next
    case (Cons p kws)
    with Inr have "perform_create w s = Inr k \<Longrightarrow> k \<noteq> []" "perform_update w s = Inr k \<Longrightarrow> k \<noteq> []" for k
      using perform_create_saves perform_update_saves by fastforce+
    with Inr Cons show ?thesis
      by (cases "perform_create w s"; cases "perform_update w s")
        (auto simp: perform_acreate_def perform_aupdate_def)
  qed
qed

text \<open>
  A list body sent to an update addresses no row: the handler neither loads the object of the URL
  nor gives the serializer an instance, so no stored owner is compared.
\<close>

lemma list_update_addresses_no_row:
  "update_view w m validate get_object partial (Body_List rows) =
    rbind (pinned_body w m (Body_List rows)) (\<lambda>d.
    rbind (validate d True None) (\<lambda>validated_rows.
    rbind (perform_update w \<lparr>ser_model = m, validated = validated_rows, ser_instance = None\<rparr>) (\<lambda>kw.
      Inr (200, kw))))"
  by (simp add: update_view_def)

end
