(* ===== verification/Org_Scope.thy ===== *)
theory Org_Scope
  imports Viewsets
begin

text \<open>
  \<open>netix_backend/django/org_scope.py\<close>: reads and writes of another organization by a platform
  superuser through \<open>?organization=<id>\<close>, in front of the scoped viewset, and the raw OpenAPI
  parameter of \<open>org_scope_schema.py\<close>.
\<close>

section \<open>The target of a request\<close>

definition ORGANIZATION_QUERY_PARAM :: string where
  "ORGANIZATION_QUERY_PARAM = ''organization''"

definition INVALID_ORGANIZATION :: string where
  "INVALID_ORGANIZATION = ''Must be an integer organization id.''"

definition FORBIDDEN_ORGANIZATION :: string where
  "FORBIDDEN_ORGANIZATION = ''Only superusers can access another organization's configuration.''"

record org_scope_view =
  superuser_org_query_param :: string
  superuser_org_scope_field :: string
  superuser_org_scope_model :: "model option"
  superuser_org_blank_is_absent :: bool
  superuser_org_invalid_message :: string
  superuser_org_forbidden_message :: string
  superuser_org_ordering :: "string list"
  superuser_org_extra_filter :: row
  declared_model_queryset :: "queryset option"
  declared_queryset :: "queryset option"
  serializer_class_model :: "model option"

definition org_scope_defaults :: org_scope_view where
  "org_scope_defaults = \<lparr>superuser_org_query_param = ORGANIZATION_QUERY_PARAM,
    superuser_org_scope_field = ''organization_id'', superuser_org_scope_model = None,
    superuser_org_blank_is_absent = False, superuser_org_invalid_message = INVALID_ORGANIZATION,
    superuser_org_forbidden_message = FORBIDDEN_ORGANIZATION, superuser_org_ordering = [''id''],
    superuser_org_extra_filter = [(''is_deleted'', VBool False)], declared_model_queryset = None,
    declared_queryset = None, serializer_class_model = None\<rparr>"

text \<open>The parameter is parsed before the caller is checked.\<close>

definition superuser_target_organization_id :: "org_scope_view \<Rightarrow> request option \<Rightarrow> int option res" where
  "superuser_target_organization_id v bound =
    (case bound of
      None \<Rightarrow> Inr None
    | Some r \<Rightarrow>
        (case dict_get (query_params r) (superuser_org_query_param v) of
          None \<Rightarrow> Inr None
        | Some raw \<Rightarrow>
            if superuser_org_blank_is_absent v \<and> raw = [] then Inr None
            else (case py_int raw of
                None \<Rightarrow> Inl (Validation_Error (Some (superuser_org_query_param v)) (superuser_org_invalid_message v))
              | Some organization \<Rightarrow>
                  if \<not> is_superuser r then Inl (Permission_Denied (superuser_org_forbidden_message v))
                  else Inr (Some organization))))"

section \<open>Reads\<close>

definition superuser_org_model :: "org_scope_view \<Rightarrow> model res" where
  "superuser_org_model v =
    (case superuser_org_scope_model v of
      Some m \<Rightarrow> Inr m
    | None \<Rightarrow>
        (case declared_model_queryset v of
          Some q \<Rightarrow> Inr (queryset_model q)
        | None \<Rightarrow>
            (case declared_queryset v of
              Some q \<Rightarrow> Inr (queryset_model q)
            | None \<Rightarrow>
                (case serializer_class_model v of
                  Some m \<Rightarrow> Inr m
                | None \<Rightarrow>
                    Inl (Runtime_Error ''SuperuserOrgScopeMixin requires 'superuser_org_scope_model' to be set.'')))))"

definition superuser_org_manager :: "model \<Rightarrow> queryset" where
  "superuser_org_manager m = Manager m"

text \<open>\<open>{field: organization, **extra}\<close>: an extra filter on the scope field itself would win.\<close>

definition superuser_org_queryset :: "org_scope_view \<Rightarrow> model option \<Rightarrow> int \<Rightarrow> queryset res" where
  "superuser_org_queryset v m organization =
    rbind (case m of Some m' \<Rightarrow> Inr m' | None \<Rightarrow> superuser_org_model v) (\<lambda>m'.
      Inr (Order_By
        (Filter_By (superuser_org_manager m')
          (dict_update [(superuser_org_scope_field v, VInt organization)] (superuser_org_extra_filter v)))
        (superuser_org_ordering v)))"

definition get_org_scoped_queryset ::
    "org_scope_view \<Rightarrow> scoped_view \<Rightarrow> model option \<Rightarrow> scope_options \<Rightarrow> queryset res" where
  "get_org_scoped_queryset v sv m opts =
    rbind (superuser_target_organization_id v (view_request sv)) (\<lambda>target.
      case target of
        Some organization \<Rightarrow> superuser_org_queryset v m organization
      | None \<Rightarrow>
          rbind (case m of Some m' \<Rightarrow> Inr m' | None \<Rightarrow> superuser_org_model v) (\<lambda>resolved.
            Inr (get_queryset_filter sv resolved opts)))"

definition org_scope_get_queryset :: "org_scope_view \<Rightarrow> request option \<Rightarrow> queryset res \<Rightarrow> queryset res" where
  "org_scope_get_queryset v bound parent =
    rbind (superuser_target_organization_id v bound) (\<lambda>target.
      case target of
        None \<Rightarrow> parent
      | Some organization \<Rightarrow> superuser_org_queryset v None organization)"

section \<open>Writes\<close>

text \<open>The hooks below this mixin are an argument; in the shared viewset they pin the tenant.\<close>

definition org_scope_perform_create ::
    "org_scope_view \<Rightarrow> request option \<Rightarrow> (serializer \<Rightarrow> save_kwargs res) \<Rightarrow> serializer \<Rightarrow> save_kwargs res" where
  "org_scope_perform_create v bound parent s =
    rbind (superuser_target_organization_id v bound) (\<lambda>target.
      case target of
        None \<Rightarrow> parent s
      | Some organization \<Rightarrow> Inr [(superuser_org_scope_field v, organization)])"

definition org_scope_perform_update ::
    "org_scope_view \<Rightarrow> request option \<Rightarrow> (serializer \<Rightarrow> save_kwargs res) \<Rightarrow> serializer \<Rightarrow> save_kwargs res" where
  "org_scope_perform_update v bound parent s =
    rbind (superuser_target_organization_id v bound) (\<lambda>target.
      case target of
        None \<Rightarrow> parent s
      | Some organization \<Rightarrow> Inr [(superuser_org_scope_field v, organization)])"

section \<open>The advertised parameter\<close>

definition SUPERUSER_ORG_SCOPE_ACTIONS :: "string list" where
  "SUPERUSER_ORG_SCOPE_ACTIONS =
    [''list'', ''retrieve'', ''create'', ''update'', ''partial_update'', ''destroy'']"

definition superuser_org_scope_parameter_dict :: "string \<Rightarrow> string \<Rightarrow> row" where
  "superuser_org_scope_parameter_dict description name =
    [(''name'', VStr name), (''required'', VBool False), (''in'', VStr ''query''),
     (''description'', VStr description), (''schema'', VDict [(VStr ''type'', VStr ''integer'')])]"

section \<open>Lemmas\<close>

lemma target_Some:
  "superuser_target_organization_id v bound = Inr (Some organization) \<longleftrightarrow>
    (\<exists>r raw. bound = Some r \<and> dict_get (query_params r) (superuser_org_query_param v) = Some raw \<and>
      \<not> (superuser_org_blank_is_absent v \<and> raw = []) \<and> py_int raw = Some organization \<and> is_superuser r)"
  by (auto simp: superuser_target_organization_id_def split: option.splits)

lemma target_Inl:
  "superuser_target_organization_id v bound = Inl e \<Longrightarrow>
    \<exists>r raw. bound = Some r \<and> dict_get (query_params r) (superuser_org_query_param v) = Some raw \<and>
      (if py_int raw = None
       then e = Validation_Error (Some (superuser_org_query_param v)) (superuser_org_invalid_message v)
       else \<not> is_superuser r \<and> e = Permission_Denied (superuser_org_forbidden_message v))"
  by (auto simp: superuser_target_organization_id_def split: option.splits if_splits)

lemma org_scope_update_eq_create: "org_scope_perform_update = org_scope_perform_create"
  by (simp add: fun_eq_iff org_scope_perform_update_def org_scope_perform_create_def)

text \<open>The whole write path of a viewset that has the mixin in front of the pinning one.\<close>

definition cross_org_create :: "org_scope_view \<Rightarrow> write_scope \<Rightarrow> serializer \<Rightarrow> save_kwargs res" where
  "cross_org_create v w = org_scope_perform_create v (bound_request w) (perform_create w)"

definition cross_org_update :: "org_scope_view \<Rightarrow> write_scope \<Rightarrow> serializer \<Rightarrow> save_kwargs res" where
  "cross_org_update v w = org_scope_perform_update v (bound_request w) (perform_update w)"

text \<open>What a caller that is no superuser gets for the parameter: nothing, or the refusal that every hook raises.\<close>

definition tenant_refusal :: "org_scope_view \<Rightarrow> request \<Rightarrow> exc option" where
  "tenant_refusal v r =
    (case dict_get (query_params r) (superuser_org_query_param v) of
      None \<Rightarrow> None
    | Some raw \<Rightarrow>
        if raw = [] \<and> superuser_org_blank_is_absent v then None
        else if py_int raw = None
        then Some (Validation_Error (Some (superuser_org_query_param v)) (superuser_org_invalid_message v))
        else Some (Permission_Denied (superuser_org_forbidden_message v)))"

lemma tenant_target:
  assumes "\<not> is_superuser r"
  shows "superuser_target_organization_id v (Some r) =
    (case tenant_refusal v r of None \<Rightarrow> Inr None | Some e \<Rightarrow> Inl e)"
  using assms by (auto simp: superuser_target_organization_id_def tenant_refusal_def split: option.splits)

lemma py_int_empty: "py_int [] = None"
  by code_simp

section \<open>Properties\<close>

text \<open>
  C2. A tenant never crosses organizations. For a caller that is not a superuser, a request that leaves the
  query parameter out (or blank, where the view reads blank as absent) gets exactly what the rest of the view
  gives: the parent's query set, the scoped query set, the hooks below. A request that sends it is refused by
  every read and write hook alike: with a validation error naming the parameter when it is no integer, and a
  permission error with the view's message when it is one, whichever organization it names. So a create or
  update that goes through saves either nothing extra or the scope field pinned to the caller's own
  organization.
\<close>

theorem tenant_never_crosses:
  fixes v :: org_scope_view
  assumes "bound_request w = Some r" and "view_request sv = Some r" and "\<not> is_superuser r"
  defines "sent \<equiv> dict_get (query_params r) (superuser_org_query_param v)"
  shows "(if sent = None \<or> sent = Some [] \<and> superuser_org_blank_is_absent v
     then org_scope_get_queryset v (Some r) parent = parent
       \<and> get_org_scoped_queryset v sv (Some m) opts = Inr (get_queryset_filter sv m opts)
       \<and> cross_org_create v w s = perform_create w s \<and> cross_org_update v w s = perform_update w s
     else \<exists>e. e = (if py_int (the sent) = None
           then Validation_Error (Some (superuser_org_query_param v)) (superuser_org_invalid_message v)
           else Permission_Denied (superuser_org_forbidden_message v))
       \<and> org_scope_get_queryset v (Some r) parent = Inl e \<and> get_org_scoped_queryset v sv (Some m) opts = Inl e
       \<and> cross_org_create v w s = Inl e \<and> cross_org_update v w s = Inl e)
   \<and> (\<forall>kw f organization. (cross_org_create v w s = Inr kw \<or> cross_org_update v w s = Inr kw) \<and> (f, organization) \<in> set kw \<longrightarrow>
      f = tenant_write_scope_field w \<and> tenant_organization_id r = Inr (Some organization))"
proof (intro conjI)
  note hooks = org_scope_get_queryset_def get_org_scoped_queryset_def cross_org_create_def cross_org_update_def
    org_scope_perform_create_def org_scope_perform_update_def assms(1,2) tenant_target [OF assms(3)]
  show "if sent = None \<or> sent = Some [] \<and> superuser_org_blank_is_absent v
     then org_scope_get_queryset v (Some r) parent = parent
       \<and> get_org_scoped_queryset v sv (Some m) opts = Inr (get_queryset_filter sv m opts)
       \<and> cross_org_create v w s = perform_create w s \<and> cross_org_update v w s = perform_update w s
     else \<exists>e. e = (if py_int (the sent) = None
           then Validation_Error (Some (superuser_org_query_param v)) (superuser_org_invalid_message v)
           else Permission_Denied (superuser_org_forbidden_message v))
       \<and> org_scope_get_queryset v (Some r) parent = Inl e \<and> get_org_scoped_queryset v sv (Some m) opts = Inl e
       \<and> cross_org_create v w s = Inl e \<and> cross_org_update v w s = Inl e"
    unfolding hooks by (cases sent) (auto simp: tenant_refusal_def sent_def)
  show "\<forall>kw f organization. (cross_org_create v w s = Inr kw \<or> cross_org_update v w s = Inr kw) \<and> (f, organization) \<in> set kw \<longrightarrow>
      f = tenant_write_scope_field w \<and> tenant_organization_id r = Inr (Some organization)"
  proof (intro allI impI)
    fix kw f organization
    assume kw: "(cross_org_create v w s = Inr kw \<or> cross_org_update v w s = Inr kw) \<and> (f, organization) \<in> set kw"
    then have "perform_create w s = Inr kw \<or> perform_update w s = Inr kw"
      unfolding hooks by (cases "tenant_refusal v r") auto
    then have "tenant_save_kwargs w s = Inr kw"
      using perform_create_saves perform_update_saves by blast
    from tenant_save_kwargs_cases [OF this] kw
    have "f = tenant_write_scope_field w" and "view_organization_id w = Inr (Some organization)" by auto
    then show "f = tenant_write_scope_field w \<and> tenant_organization_id r = Inr (Some organization)"
      using assms(1) by (auto simp: view_organization_id_Some)
  qed
qed

text \<open>A tenant of organization 7 that asks for organization 9, for gibberish, and for nothing.\<close>

abbreviation asking_tenant :: "(string, string) dict \<Rightarrow> request" where
  "asking_tenant params \<equiv> tenant_request\<lparr>query_params := params\<rparr>"

lemma tenant_never_crosses_witness:
  "org_scope_get_queryset org_scope_defaults (Some (asking_tenant [(''organization'', ''9'')])) (Inr Parent_Queryset) =
      Inl (Permission_Denied FORBIDDEN_ORGANIZATION)
   \<and> cross_org_create org_scope_defaults (pinning_view Scope_Pin\<lparr>bound_request := Some (asking_tenant [(''organization'', ''x'')])\<rparr>)
      foreign_body_serializer = Inl (Validation_Error (Some ''organization'') INVALID_ORGANIZATION)
   \<and> org_scope_get_queryset org_scope_defaults (Some (asking_tenant [])) (Inr Parent_Queryset) = Inr Parent_Queryset
   \<and> cross_org_create org_scope_defaults (pinning_view Scope_Pin\<lparr>bound_request := Some (asking_tenant [])\<rparr>) foreign_body_serializer =
      perform_create (pinning_view Scope_Pin\<lparr>bound_request := Some (asking_tenant [])\<rparr>) foreign_body_serializer"
proof -
  have tenant: "\<not> is_superuser (asking_tenant params)" for params by (simp add: is_superuser_def get_val_def)
  note crossing = tenant_never_crosses [where w = "pinning_view Scope_Pin\<lparr>bound_request := Some (asking_tenant params)\<rparr>"
      and r = "asking_tenant params" and sv = "plain_view (Some (asking_tenant params))" and v = org_scope_defaults
      and parent = "Inr Parent_Queryset" and m = "[]" and opts = no_options and s = foreign_body_serializer
      for params, OF _ _ tenant, THEN conjunct1]
  have "py_int ''9'' = Some 9" "py_int ''x'' = None" by code_simp+
  then show ?thesis
    using crossing [of "[(''organization'', ''9'')]"] crossing [of "[(''organization'', ''x'')]"] crossing [of "[]"]
    by (simp add: org_scope_defaults_def ORGANIZATION_QUERY_PARAM_def)
qed

text \<open>
  C3. A superuser's target is exactly what was asked: with an integer in the query parameter, reads
  select precisely the rows of the model's manager that belong to that organization and pass the
  extra filter (live rows, by default), and create and update save with that organization, whatever
  the tenant pinning below would have done.
\<close>

theorem superuser_target_reaches_organization:
  assumes "is_superuser r" and "dict_get (query_params r) (superuser_org_query_param v) = Some raw"
    and "py_int raw = Some organization"
    and "bound_request w = Some r" and "view_request sv = Some r" and "superuser_org_scope_model v = Some m"
    and "dict_get (superuser_org_extra_filter v) (superuser_org_scope_field v) = None"
    and "\<And>c x row. matches db c x row = (get_val row c = x)"
    and "\<And>fs rows. set (ordered db fs rows) = set rows"
    and "dict_ok (superuser_org_extra_filter v)"
  shows "cross_org_create v w s = Inr [(superuser_org_scope_field v, organization)]
    \<and> cross_org_update v w s = Inr [(superuser_org_scope_field v, organization)]
    \<and> (\<exists>q. get_org_scoped_queryset v sv None opts = Inr q
        \<and> org_scope_get_queryset v (Some r) parent = Inr q
        \<and> set (rows_of db q) = {row \<in> set (manager_rows db m).
            get_val row (superuser_org_scope_field v) = VInt organization
            \<and> (\<forall>(c, x) \<in> set (superuser_org_extra_filter v). get_val row c = x)})"
proof -
  let ?f = "superuser_org_scope_field v" and ?x = "superuser_org_extra_filter v"
  have "\<not> (superuser_org_blank_is_absent v \<and> raw = [])"
    using assms(3) py_int_empty by auto
  with assms(1-3) have target: "superuser_target_organization_id v (Some r) = Inr (Some organization)"
    by (auto simp: target_Some)
  let ?q = "Order_By (Filter_By (Manager m) (dict_update [(?f, VInt organization)] ?x)) (superuser_org_ordering v)"
  have q: "superuser_org_queryset v None organization = Inr ?q"
    using assms(6) by (simp add: superuser_org_queryset_def superuser_org_model_def superuser_org_manager_def)
  have f: "set (dict_update [(?f, VInt organization)] ?x) = insert (?f, VInt organization) (set ?x)"
    using assms(7,10) by (rule set_dict_update_new)
  have rows: "set (rows_of db ?q) = {row \<in> set (manager_rows db m). get_val row ?f = VInt organization
      \<and> (\<forall>(c, x) \<in> set ?x. get_val row c = x)}"
    by (auto simp: assms(8,9) list_all_iff f)
  have "get_org_scoped_queryset v sv None opts = Inr ?q"
    and "org_scope_get_queryset v (Some r) parent = Inr ?q"
    using target q assms(5) by (simp_all add: get_org_scoped_queryset_def org_scope_get_queryset_def)
  with rows target assms(4) show ?thesis
    by (auto simp: cross_org_create_def cross_org_update_def org_scope_perform_create_def org_scope_perform_update_def)
qed

abbreviation platform_request :: request where
  "platform_request \<equiv> \<lparr>envoy = Some [(''is_superuser'', VBool True)], user = None, req_method = ''GET'',
    query_params = [(''organization'', ''7'')]\<rparr>"

abbreviation organization_rows :: orm where
  "organization_rows \<equiv> \<lparr>declared_rows = \<lambda>n. [],
    manager_rows = \<lambda>m. [[(''organization_id'', VInt 7), (''is_deleted'', VBool False)],
      [(''organization_id'', VInt 7), (''is_deleted'', VBool True)], [(''organization_id'', VInt 9), (''is_deleted'', VBool False)]],
    parent_rows = [], envoy_keeps = \<lambda>k r. False, matches = \<lambda>c v r. get_val r c = v, ordered = \<lambda>fs rows. rows\<rparr>"

lemma superuser_target_reaches_organization_witness:
  "\<exists>q. get_org_scoped_queryset (org_scope_defaults\<lparr>superuser_org_scope_model := Some [''id'']\<rparr>)
      (plain_view (Some platform_request)) None no_options = Inr q
    \<and> set (rows_of organization_rows q) = {[(''organization_id'', VInt 7), (''is_deleted'', VBool False)]}"
proof -
  let ?v = "org_scope_defaults\<lparr>superuser_org_scope_model := Some [''id'']\<rparr>"
  let ?w = "(pinning_view Scope_Pin)\<lparr>bound_request := Some platform_request\<rparr>"
  have su: "is_superuser platform_request" by (simp add: is_superuser_def get_val_def)
  have qp: "dict_get (query_params platform_request) (superuser_org_query_param ?v) = Some ''7''"
    by (simp add: org_scope_defaults_def ORGANIZATION_QUERY_PARAM_def)
  have seven: "py_int ''7'' = Some 7" by code_simp
  have "dict_get (superuser_org_extra_filter ?v) (superuser_org_scope_field ?v) = None"
    and "dict_ok (superuser_org_extra_filter ?v)"
    by (simp_all add: org_scope_defaults_def dict_ok_def)
  note filtered = this
  let ?rows = "{row \<in> set (manager_rows organization_rows [''id'']).
      get_val row (superuser_org_scope_field ?v) = VInt 7
      \<and> (\<forall>(c, x) \<in> set (superuser_org_extra_filter ?v). get_val row c = x)}"
  have rows: "?rows = {[(''organization_id'', VInt 7), (''is_deleted'', VBool False)]}"
    by (auto simp: org_scope_defaults_def get_val_def)
  have "\<exists>q. get_org_scoped_queryset ?v (plain_view (Some platform_request)) None no_options = Inr q
      \<and> org_scope_get_queryset ?v (Some platform_request) (Inr Parent_Queryset) = Inr q
      \<and> set (rows_of organization_rows q) = ?rows"
    by (rule conjunct2 [OF conjunct2 [OF superuser_target_reaches_organization
        [where w = ?w and s = foreign_body_serializer, OF su qp seven _ _ _ filtered(1) _ _ filtered(2)]]]) simp_all
  then show ?thesis unfolding rows by blast
qed

text \<open>
  The parameter is parsed before the caller is checked: garbage is a validation error for
  everyone, an integer is a permission error exactly for a caller that is not a superuser, and an
  error stops reads and writes alike before the rest of the view sees them.
\<close>

theorem parse_before_gate:
  "(\<exists>e. superuser_target_organization_id v (Some r) = Inl e) \<longleftrightarrow>
    (case dict_get (query_params r) (superuser_org_query_param v) of
      None \<Rightarrow> False
    | Some raw \<Rightarrow> \<not> (superuser_org_blank_is_absent v \<and> raw = []) \<and> (py_int raw = None \<or> \<not> is_superuser r))"
  by (auto simp: superuser_target_organization_id_def split: option.splits)

end
