(* ===== verification/Json_Text.thy ===== *)
theory Json_Text
  imports Py_Text Prelude
begin

text \<open>
  JSON as the receivers of the package's bodies read it: \<open>json.loads\<close> of the standard library on objects
  whose values are texts and whole numbers, which is all the package writes by itself. Any other value is
  outside this reader, which answers \<open>None\<close> there, as it does where \<open>json.loads\<close> raises. What \<open>json.dumps\<close>
  writes of such an object is read back, whatever the texts in it are.
\<close>

section \<open>The reader\<close>

datatype json_value = JStr string | JInt int

definition json_space :: "char \<Rightarrow> bool" where
  "json_space c \<longleftrightarrow> list_ex (\<lambda>n. code c = n) [32, 9, 10, 13]"

definition skip_spaces :: "string \<Rightarrow> string" where
  "skip_spaces = dropWhile json_space"

definition hex_value :: "char \<Rightarrow> nat option" where
  "hex_value c =
    (let n = code c in
     if 48 \<le> n \<and> n \<le> 57 then Some (n - 48)
     else if 97 \<le> n \<and> n \<le> 102 then Some (n - 87)
     else if 65 \<le> n \<and> n \<le> 70 then Some (n - 55)
     else None)"

text \<open>What follows a backslash; a code point beyond this model's characters is outside the reader.\<close>

fun read_escape :: "string \<Rightarrow> (char \<times> string) option" where
  "read_escape [] = None"
| "read_escape (c # cs) =
    (let n = code c in
     if n = 34 \<or> n = 92 \<or> n = 47 then Some (c, cs)
     else if n = 98 then Some (char_of (8::nat), cs)
     else if n = 102 then Some (char_of (12::nat), cs)
     else if n = 110 then Some (char_of (10::nat), cs)
     else if n = 114 then Some (char_of (13::nat), cs)
     else if n = 116 then Some (char_of (9::nat), cs)
     else if n = 117 then
       (case cs of
         a # b # d # e # rest \<Rightarrow>
           (case (hex_value a, hex_value b, hex_value d, hex_value e) of
             (Some 0, Some 0, Some x, Some y) \<Rightarrow> Some (char_of (16 * x + y), rest)
           | _ \<Rightarrow> None)
       | _ \<Rightarrow> None)
     else None)"

lemma read_escape_shorter: "read_escape cs = Some (c, rest) \<Longrightarrow> length rest < length cs"
  by (cases cs) (auto simp: Let_def split: if_splits list.splits option.splits nat.splits)

text \<open>The characters up to the closing quote; a control character ends the reading with an error.\<close>

function read_chars :: "string \<Rightarrow> (string \<times> string) option" where
  "read_chars [] = None"
| "read_chars (c # cs) =
    (if code c = 34 then Some ([], cs)
     else if code c = 92 then
       (case read_escape cs of None \<Rightarrow> None | Some (d, rest) \<Rightarrow> map_option (apfst ((#) d)) (read_chars rest))
     else if code c < 32 then None
     else map_option (apfst ((#) c)) (read_chars cs))"
  by pat_completeness auto
termination by (relation "measure length") (auto dest: read_escape_shorter)

definition read_string :: "string \<Rightarrow> (string \<times> string) option" where
  "read_string cs = (case cs of [] \<Rightarrow> None | c # rest \<Rightarrow> if c = double_quote then read_chars rest else None)"

text \<open>
  A number has no leading zero, and it is whole unless a point or an exponent follows; \<open>int\<close> refuses
  texts beyond its digit limit.
\<close>

definition number_stops :: "string \<Rightarrow> bool" where
  "number_stops cs \<longleftrightarrow> cs = [] \<or> \<not> is_digit (hd cs) \<and> code (hd cs) \<notin> {46, 69, 101}"

definition number_sign :: "string \<Rightarrow> string" where
  "number_sign cs = takeWhile (\<lambda>c. code c = 45) (take 1 cs)"

definition whole_digits :: "string \<Rightarrow> string" where
  "whole_digits cs = (let run = takeWhile is_digit cs in if take 1 run = ''0'' then ''0'' else run)"

definition read_number :: "string \<Rightarrow> (int \<times> string) option" where
  "read_number cs =
    (let sign = number_sign cs;
         body = drop (length sign) cs;
         digits = whole_digits body;
         rest = drop (length digits) body
     in if digits = [] \<or> \<not> number_stops rest then None
        else map_option (\<lambda>i. (i, rest)) (py_int (sign @ digits)))"

definition read_value :: "string \<Rightarrow> (json_value \<times> string) option" where
  "read_value cs =
    (if take 1 cs = [double_quote] then map_option (apfst JStr) (read_string cs)
     else map_option (apfst JInt) (read_number cs))"

definition read_member :: "string \<Rightarrow> ((string \<times> json_value) \<times> string) option" where
  "read_member cs =
    (case read_string cs of
      None \<Rightarrow> None
    | Some (k, rest) \<Rightarrow>
        (case skip_spaces rest of
          [] \<Rightarrow> None
        | c # rest' \<Rightarrow>
            if c = CHR '':''
            then map_option (\<lambda>(v, rest''). ((k, v), skip_spaces rest'')) (read_value (skip_spaces rest'))
            else None))"

lemma read_chars_shorter: "read_chars cs = Some (s, rest) \<Longrightarrow> length rest < length cs"
  by (induction cs arbitrary: s rest rule: read_chars.induct)
    (auto split: if_splits option.splits dest!: read_escape_shorter, fastforce+)

lemma read_string_shorter: "read_string cs = Some (s, rest) \<Longrightarrow> length rest < length cs"
  by (auto simp: read_string_def split: list.splits if_splits dest: read_chars_shorter)

lemma read_value_shorter: "read_value cs = Some (v, rest) \<Longrightarrow> length rest \<le> length cs"
  by (auto simp: read_value_def read_number_def Let_def split: if_splits dest!: read_string_shorter)

lemma skip_spaces_shorter: "length (skip_spaces cs) \<le> length cs"
  by (simp add: skip_spaces_def length_dropWhile_le)

lemma read_member_shorter: "read_member cs = Some (m, rest) \<Longrightarrow> length rest < length cs"
proof -
  assume "read_member cs = Some (m, rest)"
  then obtain k r c r' v r'' where "read_string cs = Some (k, r)" "skip_spaces r = c # r'"
    "read_value (skip_spaces r') = Some (v, r'')" "rest = skip_spaces r''"
    by (auto simp: read_member_def split: option.splits list.splits if_splits)
  with read_string_shorter [of cs k r] read_value_shorter [of "skip_spaces r'" v r''] skip_spaces_shorter [of r]
    skip_spaces_shorter [of r'] skip_spaces_shorter [of r''] show ?thesis by simp
qed

function read_members :: "string \<Rightarrow> ((string \<times> json_value) list \<times> string) option" where
  "read_members cs =
    (case read_member cs of
      Some (m, c # rest) \<Rightarrow>
        if c = CHR ''}'' then Some ([m], rest)
        else if c = CHR '','' then map_option (apfst ((#) m)) (read_members (skip_spaces rest))
        else None
    | _ \<Rightarrow> None)"
  by pat_completeness auto
termination
proof (relation "measure length")
  fix cs :: string and x m out c rest
  assume "read_member cs = Some x" "(m, out) = x" "out = c # rest"
  with read_member_shorter [of cs m out] skip_spaces_shorter [of rest]
  show "(skip_spaces rest, cs) \<in> measure length" by auto
qed simp

declare read_members.simps [simp del]

text \<open>The whole text is one object; of a name that comes twice the last value counts.\<close>

definition json_object :: "string \<Rightarrow> (string, json_value) dict option" where
  "json_object cs =
    (case skip_spaces cs of
      [] \<Rightarrow> None
    | c # rest \<Rightarrow>
        if c \<noteq> CHR ''{'' then None
        else
          (case (if take 1 (skip_spaces rest) = ''}'' then Some ([], tl (skip_spaces rest))
                 else read_members (skip_spaces rest)) of
            None \<Rightarrow> None
          | Some (ms, end) \<Rightarrow> if skip_spaces end = [] then Some (dict_update [] ms) else None))"

section \<open>Reading what was written\<close>

text \<open>A writer and a reader that stops where the text written ends, whatever follows that may follow it.\<close>

locale text_reader =
  fixes text_of :: "'a \<Rightarrow> string" and read :: "string \<Rightarrow> ('a \<times> string) option"
    and fits :: "'a \<Rightarrow> bool" and follows :: "string \<Rightarrow> bool"
  assumes reads: "fits a \<Longrightarrow> follows rest \<Longrightarrow> read (text_of a @ rest) = Some (a, rest)"
begin

lemma injective: "fits a \<Longrightarrow> fits b \<Longrightarrow> follows [] \<Longrightarrow> text_of a = text_of b \<Longrightarrow> a = b"
  by (metis (no_types) option.inject prod.inject reads)

lemma apart:
  assumes "fits a" "fits b" "follows r" "follows s" "text_of a @ r = text_of b @ s"
  shows "a = b \<and> r = s"
  using trans [OF reads [OF assms(1,3), symmetric] reads [OF assms(2,4), folded assms(5)]] by simp

end

subsection \<open>Texts\<close>

lemma hex_value_digit: "n < 16 \<Longrightarrow> hex_value (hex_digit n) = Some n"
  by (cases "n < 10") (simp_all add: hex_digit_def hex_value_def code_digit code_char_of)

lemma code_less: "code c < 256"
  by (simp add: code_def)

lemma code_of_char [simp]: "char_of (code c) = c"
  by (simp add: code_def)

lemma code_eq: "code c = n \<Longrightarrow> c = char_of n"
  by auto

lemma escape_hex: "read_escape (CHR ''u'' # CHR ''0'' # CHR ''0'' # hex_digit (code c div 16) # hex_digit (code c mod 16) # t) = Some (c, t)"
proof -
  have "code c div 16 < 16" using code_less [of c] by simp
  moreover have "hex_value CHR ''0'' = Some 0" by (simp add: hex_value_def code_def)
  ultimately show ?thesis by (simp add: hex_value_digit code_def [of "CHR ''u''"]) 
qed

lemma escape_letter:
  "read_escape (CHR ''n'' # t) = Some (char_of (10::nat), t)" "read_escape (CHR ''r'' # t) = Some (char_of (13::nat), t)"
  "read_escape (CHR ''t'' # t) = Some (char_of (9::nat), t)" "read_escape (CHR ''f'' # t) = Some (char_of (12::nat), t)"
  "read_escape (CHR ''b'' # t) = Some (char_of (8::nat), t)"
  by (simp_all add: code_def)

lemma escape_self: "code c = 34 \<or> code c = 92 \<Longrightarrow> read_escape (c # t) = Some (c, t)"
  by auto

lemma read_json_char: "read_chars (json_char c @ t) = map_option (apfst ((#) c)) (read_chars t)"
proof -
  have control: "char_of n = c" if "code c = n" for n using that by auto
  then show ?thesis
    by (auto simp: json_char_def Let_def escape_hex escape_letter escape_self code_char_of control
        simp del: read_escape.simps)
qed

lemma read_written_chars: "read_chars (concat (map json_char s) @ double_quote # t) = Some (s, t)"
  by (induction s) (simp_all add: read_json_char double_quote_def code_char_of)

interpretation json_strings: text_reader json_str read_string "\<lambda>s. True" "\<lambda>rest. True"
  by unfold_locales (simp add: json_str_def read_string_def read_written_chars)

subsection \<open>Numbers\<close>

lemma digit_zero: "digit 0 = CHR ''0''"
  using code_of_char [of "CHR ''0''"] by (simp add: digit_def code_def)

lemma leading_zero: "take 1 (nat_str n) = ''0'' \<longleftrightarrow> n = 0"
proof (induction n rule: nat_str.induct)
  case (1 n)
  have digit: "digit m = CHR ''0'' \<longleftrightarrow> m = 0" if "m < 10" for m
    using code_digit [OF that] digit_zero by (auto simp: code_def)
  show ?case
  proof (cases "n < 10")
    case True
    then show ?thesis by (subst nat_str.simps) (simp add: digit)
  next
    case False
    then have "take 1 (nat_str n) = take 1 (nat_str (n div 10))"
      by (subst nat_str.simps) (cases "nat_str (n div 10)"; simp)
    with 1 [OF False] False show ?thesis by simp
  qed
qed

lemma digit_run: "number_stops rest \<Longrightarrow> takeWhile is_digit (nat_str n @ rest) = nat_str n"
  using nat_str_digits [of n] by (cases rest) (auto simp: number_stops_def list_all_iff takeWhile_append)

lemma nat_str_zero: "nat_str 0 = ''0''"
  by (subst nat_str.simps) (simp add: digit_zero)

lemma whole_run:
  "number_stops rest \<Longrightarrow> whole_digits (nat_str n @ rest) = nat_str n"
  using leading_zero [of n] by (auto simp: whole_digits_def digit_run nat_str_zero)

abbreviation prints :: "int \<Rightarrow> bool" where
  "prints i \<equiv> length (nat_str (nat \<bar>i\<bar>)) \<le> max_str_digits"

interpretation json_numbers: text_reader int_str read_number prints number_stops
proof
  fix i rest
  assume fits: "prints i" and stops: "number_stops rest"
  define sign where "sign = (if i < 0 then ''-'' else [])"
  have shape: "int_str i = sign @ nat_str (nat \<bar>i\<bar>)" by (simp add: int_str_def sign_def)
  obtain d ds where d: "nat_str (nat \<bar>i\<bar>) = d # ds" by (cases "nat_str (nat \<bar>i\<bar>)") auto
  then have "is_digit d" using hd_nat_str [of "nat \<bar>i\<bar>"] by simp
  then have "number_sign (sign @ nat_str (nat \<bar>i\<bar>) @ rest) = sign"
    by (auto simp: number_sign_def d sign_def is_digit_def code_def)
  then show "read_number (int_str i @ rest) = Some (i, rest)"
    using whole_run [OF stops, of "nat \<bar>i\<bar>"] py_int_int_str [OF fits] stops
    by (simp add: read_number_def shape Let_def)
qed

subsection \<open>Values, members and objects\<close>

fun json_text :: "json_value \<Rightarrow> string" where
  "json_text (JStr s) = json_str s"
| "json_text (JInt i) = int_str i"

fun json_fits :: "json_value \<Rightarrow> bool" where
  "json_fits (JStr s) \<longleftrightarrow> True"
| "json_fits (JInt i) \<longleftrightarrow> prints i"

lemma int_str_no_quote: "take 1 (int_str i @ rest) \<noteq> [double_quote]"
proof -
  obtain d ds where d: "nat_str (nat \<bar>i\<bar>) = d # ds" by (cases "nat_str (nat \<bar>i\<bar>)") auto
  then have "is_digit d" using hd_nat_str [of "nat \<bar>i\<bar>"] by simp
  moreover have "code CHR ''-'' = 45" by (simp add: code_def)
  moreover have "code double_quote = 34" by (simp add: double_quote_def code_char_of)
  ultimately show ?thesis using d by (auto simp: int_str_def is_digit_def)
qed

interpretation json_values: text_reader json_text read_value json_fits number_stops
proof
  fix v rest
  assume "json_fits v" "number_stops rest"
  then show "read_value (json_text v @ rest) = Some (v, rest)"
    using json_strings.reads json_numbers.reads int_str_no_quote
    by (cases v) (simp_all add: read_value_def json_str_def)
qed

definition member_text :: "string \<Rightarrow> string \<times> json_value \<Rightarrow> string" where
  "member_text colon m = (case m of (k, v) \<Rightarrow> json_str k @ colon @ json_text v)"

text \<open>\<open>json.dumps\<close> with its two separators.\<close>

definition json_object_text :: "string \<Rightarrow> string \<Rightarrow> (string, json_value) dict \<Rightarrow> string" where
  "json_object_text comma colon ms = ''{'' @ join comma (map (member_text colon) ms) @ ''}''"

lemma skip_written: "list_all json_space ws \<Longrightarrow> skip_spaces (ws @ cs) = skip_spaces cs"
  by (simp add: skip_spaces_def list_all_iff)

lemma skip_nothing: "cs = [] \<or> \<not> json_space (hd cs) \<Longrightarrow> skip_spaces cs = cs"
  by (cases cs) (simp_all add: skip_spaces_def)

lemma punctuation: "\<not> json_space CHR '':''" "\<not> json_space CHR '',''" "\<not> json_space CHR ''{''" "\<not> json_space CHR ''}''"
    "\<not> json_space double_quote" "double_quote \<noteq> CHR ''}''"
proof -
  have "code double_quote = 34" by (simp add: double_quote_def code_char_of)
  moreover have "code CHR ''}'' = 125" by (simp add: code_def)
  ultimately show "double_quote \<noteq> CHR ''}''" by force
qed (simp_all add: json_space_def code_def double_quote_def)

lemma json_text_starts: "cs = json_text v @ rest \<Longrightarrow> \<not> json_space (hd cs)"
proof (cases v)
  case (JInt i)
  obtain d ds where d: "nat_str (nat \<bar>i\<bar>) = d # ds" by (cases "nat_str (nat \<bar>i\<bar>)") auto
  then have "is_digit d" using hd_nat_str [of "nat \<bar>i\<bar>"] by simp
  moreover assume "cs = json_text v @ rest"
  moreover have "code CHR ''-'' = 45" by (simp add: code_def)
  ultimately show ?thesis using JInt d by (auto simp: int_str_def is_digit_def json_space_def)
qed (simp add: json_str_def punctuation)

lemma stops_punctuation: "number_stops (CHR ''}'' # cs)" "number_stops (CHR '','' # cs)"
  by (simp_all add: number_stops_def is_digit_def code_def)

lemma members_start:
  assumes "ms \<noteq> []"
  shows "\<exists>cs. join comma (map (member_text colon) ms) = double_quote # cs"
  using assms by (cases ms rule: remdups_adj.cases) (auto simp: member_text_def json_str_def split: prod.split)

lemma member_reads:
  assumes "json_fits v" and "list_all json_space ws" and "number_stops rest"
  shows "read_member (member_text (CHR '':'' # ws) (k, v) @ rest) = Some ((k, v), skip_spaces rest)"
proof -
  have "skip_spaces (ws @ json_text v @ rest) = json_text v @ rest"
    using skip_written [OF assms(2)] skip_nothing json_text_starts by auto
  then show ?thesis
    using json_strings.reads [of k] json_values.reads [OF assms(1,3)] skip_nothing [of "CHR '':'' # cs" for cs]
    by (simp add: read_member_def member_text_def punctuation)
qed

lemma members_read:
  assumes "ms \<noteq> []" and "\<forall>m \<in> set ms. json_fits (snd m)" and "list_all json_space ws" and "list_all json_space ws'"
  shows "read_members (join (CHR '','' # ws') (map (member_text (CHR '':'' # ws)) ms) @ CHR ''}'' # rest) = Some (ms, rest)"
  using assms(1,2)
proof (induction ms rule: list_nonempty_induct)
  case (single m)
  then show ?case
    using member_reads [OF _ assms(3) stops_punctuation(1) [of rest], of "snd m" "fst m"]
    by (simp add: read_members.simps skip_nothing punctuation)
next
  case (cons m ms)
  let ?more = "join (CHR '','' # ws') (map (member_text (CHR '':'' # ws)) ms) @ CHR ''}'' # rest"
  obtain m' ms' where ms: "ms = m' # ms'" using cons.hyps by (cases ms) auto
  have join: "join (CHR '','' # ws') (map (member_text (CHR '':'' # ws)) (m # ms)) @ CHR ''}'' # rest
      = member_text (CHR '':'' # ws) m @ CHR '','' # ws' @ ?more"
    by (simp add: ms)
  have "skip_spaces ?more = ?more"
    using members_start [OF cons.hyps, of "CHR '','' # ws'" "CHR '':'' # ws"] by (auto simp: skip_nothing punctuation)
  then have "skip_spaces (ws' @ ?more) = ?more" using skip_written [OF assms(4)] by simp
  with cons member_reads [OF _ assms(3) stops_punctuation(2) [of "ws' @ ?more"], of "snd m" "fst m"]
  show ?case unfolding join
    by (subst read_members.simps) (simp add: skip_nothing punctuation)
qed

lemma spaces: "list_all json_space '' ''" "list_all json_space []"
  by (simp_all add: json_space_def code_def)

lemma json_object_reads:
  assumes "\<forall>m \<in> set ms. json_fits (snd m)" and "list_all json_space ws" and "list_all json_space ws'"
  shows "json_object (json_object_text (CHR '','' # ws') (CHR '':'' # ws) ms) = Some (dict_update [] ms)"
proof (cases "ms = []")
  case True
  then show ?thesis by (simp add: json_object_def json_object_text_def skip_nothing punctuation)
next
  case False
  let ?inside = "join (CHR '','' # ws') (map (member_text (CHR '':'' # ws)) ms) @ ''}''"
  obtain cs where cs: "?inside = double_quote # cs"
    using members_start [OF False, of "CHR '','' # ws'" "CHR '':'' # ws"] by auto
  with members_read [OF False assms, of "[]"] show ?thesis
    by (simp add: json_object_def json_object_text_def skip_nothing punctuation)
qed

end
