(* ===== verification/Request_Timeout.thy ===== *)
theory Request_Timeout
  imports Json_Text
begin

text \<open>
  \<open>netix_backend/asgi/timeout.py\<close>: the ceiling on request handling. The replies it renders are
  functions; the middleware is a state machine over the events of the event loop, because what
  makes it hard is the interleaving of the wrapped application, the ceiling and the replies of many
  requests. Between two \<open>await\<close>s the code is atomic, so one event is one such stretch.
\<close>

section \<open>Replies\<close>

type_synonym header = "string \<times> string"

datatype message = Response_Start int "header list" | Response_Body string

record conn =
  scope_type :: string
  scope_method :: "string option"
  scope_path :: string
  scope_headers :: "header list"

text \<open>The Django settings the module reads, at their defaults while unconfigured.\<close>

record cors_settings =
  allow_all_origins :: bool
  allowed_origins :: "string list"
  allow_credentials :: bool

definition unconfigured :: cors_settings where
  "unconfigured = \<lparr>allow_all_origins = False, allowed_origins = [], allow_credentials = False\<rparr>"

fun find_header :: "string \<Rightarrow> header list \<Rightarrow> string option" where
  "find_header n [] = None"
| "find_header n ((m, v) # hs) = (if m = n then Some v else find_header n hs)"

definition request_origin :: "conn \<Rightarrow> string option" where
  "request_origin c = find_header ''origin'' (scope_headers c)"

definition cors_headers :: "cors_settings \<Rightarrow> conn \<Rightarrow> header list" where
  "cors_headers dj c =
    (case request_origin c of
      None \<Rightarrow> []
    | Some origin \<Rightarrow>
        if origin = [] then []
        else if \<not> allow_all_origins dj \<and> origin \<notin> set (allowed_origins dj) then []
        else
          [(''access-control-allow-origin'', if allow_all_origins dj then ''*'' else origin), (''vary'', ''Origin'')]
          @ (if \<not> allow_all_origins dj \<and> allow_credentials dj
             then [(''access-control-allow-credentials'', ''true'')] else []))"

definition retry_after_header :: "int option \<Rightarrow> header list" where
  "retry_after_header ra = (case ra of None \<Rightarrow> [] | Some n \<Rightarrow> [(''retry-after'', int_str n)])"

text \<open>\<open>json.dumps({"status_code": status, "messages": message})\<close>.\<close>

definition error_body_text :: "int \<Rightarrow> string \<Rightarrow> string" where
  "error_body_text status text' =
    ''{'' @ json_str ''status_code'' @ '': '' @ int_str status @ '', '' @ json_str ''messages'' @ '': '' @
    json_str text' @ ''}''"

type_synonym renderer = "int \<Rightarrow> string \<Rightarrow> conn \<Rightarrow> int option \<Rightarrow> message \<times> message"

definition error_messages :: "cors_settings \<Rightarrow> renderer" where
  "error_messages dj status text' c retry_after =
    (let body = error_body_text status text';
         headers = [(''content-type'', ''application/json''), (''content-length'', nat_str (length body))]
           @ retry_after_header retry_after @ cors_headers dj c
     in (Response_Start status headers, Response_Body body))"

definition text_messages :: renderer where
  "text_messages status text' c retry_after =
    (Response_Start status ([(''content-type'', ''text/plain; charset=utf-8'')] @ retry_after_header retry_after),
     Response_Body text')"

fun is_start :: "message \<Rightarrow> bool" where
  "is_start (Response_Start s hs) = True"
| "is_start (Response_Body b) = False"

text \<open>
  What the middleware needs of a renderer: one status line with the status asked for, then one
  body.
\<close>

locale error_renderer =
  fixes render :: renderer
  assumes render_start: "\<exists>hs. fst (render status text' c ra) = Response_Start status hs"
    and render_body: "\<exists>b. snd (render status text' c ra) = Response_Body b"
begin

lemma one_start: "length (filter is_start [fst (render st t c ra), snd (render st t c ra)]) = 1"
  using render_start [of st t c ra] render_body [of st t c ra] by auto

end

interpretation json_errors: error_renderer "error_messages dj" for dj
  by unfold_locales (simp_all add: error_messages_def Let_def)

interpretation text_errors: error_renderer text_messages
  by unfold_locales (simp_all add: text_messages_def)

section \<open>The middleware\<close>

definition SAFE_METHODS_CAPPED :: "string list" where
  "SAFE_METHODS_CAPPED = [''GET'', ''HEAD'', ''OPTIONS'']"

definition NEVER_SHED :: "string list" where "NEVER_SHED = [''OPTIONS'']"
definition RETRY_AFTER_SECONDS :: int where "RETRY_AFTER_SECONDS = 5"
definition TIMEOUT_MESSAGE :: string where "TIMEOUT_MESSAGE = ''Request exceeded the server time limit.''"
definition OVERLOADED_MESSAGE :: string where
  "OVERLOADED_MESSAGE = ''Server is shedding load; retry shortly.''"

text \<open>The ceiling itself only enters through the moment the event loop reports it as passed.\<close>

record timeout_config =
  ceiling :: pyfloat
  max_abandoned :: pyfloat
  safe_methods :: "string list option"
  never_shed :: "string list"
  retry_after :: "int option"
  error_body :: renderer
  timeout_message :: string
  overloaded_message :: string

definition init_timeout :: "pyfloat \<Rightarrow> pyfloat option \<Rightarrow> string option \<Rightarrow> (string \<Rightarrow> pyfloat option) \<Rightarrow> pyfloat" where
  "init_timeout request_timeout_seconds timeout timeout_setting django_setting =
    (let timeout' = (case (timeout, timeout_setting) of
        (None, Some name) \<Rightarrow> django_setting name
      | _ \<Rightarrow> timeout)
     in case timeout' of None \<Rightarrow> request_timeout_seconds | Some t \<Rightarrow> t)"

definition is_capped :: "timeout_config \<Rightarrow> string option \<Rightarrow> bool" where
  "is_capped cfg http_method =
    (case safe_methods cfg of
      None \<Rightarrow> True
    | Some ms \<Rightarrow> (case http_method of None \<Rightarrow> False | Some m \<Rightarrow> m \<in> set ms))"

definition watched :: "timeout_config \<Rightarrow> conn \<Rightarrow> bool" where
  "watched cfg c \<longleftrightarrow> scope_type c = ''http'' \<and> is_capped cfg (scope_method c)"

definition sheddable :: "timeout_config \<Rightarrow> conn \<Rightarrow> bool" where
  "sheddable cfg c \<longleftrightarrow> (case scope_method c of None \<Rightarrow> True | Some m \<Rightarrow> m \<notin> set (never_shed cfg))"

definition over_limit :: "timeout_config \<Rightarrow> nat list \<Rightarrow> bool" where
  "over_limit cfg ab \<longleftrightarrow> flt_le (max_abandoned cfg) (Fin (real (length ab)))"

definition overloaded_reply :: "timeout_config \<Rightarrow> conn \<Rightarrow> message list" where
  "overloaded_reply cfg c =
    (case error_body cfg 503 (overloaded_message cfg) c (retry_after cfg) of (a, b) \<Rightarrow> [a, b])"

definition timeout_reply :: "timeout_config \<Rightarrow> conn \<Rightarrow> message list" where
  "timeout_reply cfg c = (case error_body cfg 504 (timeout_message cfg) c None of (a, b) \<Rightarrow> [a, b])"

section \<open>Requests in flight\<close>

text \<open>
  Where the middleware's own coroutine stands for one request: not called, awaiting the
  application directly, waiting under the ceiling, awaiting a response already under way, sending
  its own reply, returned; and the application's task. \<open>started\<close> and \<open>muted\<close> are the
  response channel's \<open>started\<close> and \<open>abandoned\<close>; \<open>app_out\<close> records what the application
  passed to its \<open>send\<close>.
\<close>

datatype handler_state = Unseen | Direct | Watching | Draining | Replying "message list" | Returned

datatype app_state = Idle | Running | Ended

record request_state =
  handler :: handler_state
  app :: app_state
  scope :: conn
  started :: bool
  muted :: bool
  app_out :: "message list"

text \<open>The requests by number, the abandoned ones, and what reached the server, in order.\<close>

record server =
  reqs :: "nat \<Rightarrow> request_state"
  abandoned :: "nat list"
  wire :: "(nat \<times> message) list"

definition no_scope :: conn where
  "no_scope = \<lparr>scope_type = [], scope_method = None, scope_path = [], scope_headers = []\<rparr>"

definition fresh_request :: "conn \<Rightarrow> handler_state \<Rightarrow> app_state \<Rightarrow> request_state" where
  "fresh_request c h a = \<lparr>handler = h, app = a, scope = c, started = False, muted = False, app_out = []\<rparr>"

definition initial_server :: server where
  "initial_server = \<lparr>reqs = \<lambda>i. fresh_request no_scope Unseen Idle, abandoned = [], wire = []\<rparr>"

definition put_request :: "nat \<Rightarrow> request_state \<Rightarrow> server \<Rightarrow> server" where
  "put_request i r s = s\<lparr>reqs := (reqs s)(i := r)\<rparr>"

definition transmit :: "nat \<Rightarrow> message \<Rightarrow> server \<Rightarrow> server" where
  "transmit i m s = s\<lparr>wire := wire s @ [(i, m)]\<rparr>"

text \<open>The events: a call, the application sending or ending, the ceiling passing, one reply sent,
  the late finish of an abandoned task being logged.\<close>

datatype loop_event =
    Arrive nat conn
  | App_Sends nat message
  | App_Ends nat
  | Ceiling nat
  | Reply nat
  | Late nat

definition arrive :: "timeout_config \<Rightarrow> nat \<Rightarrow> conn \<Rightarrow> server \<Rightarrow> server" where
  "arrive cfg i c s =
    (if \<not> watched cfg c then put_request i (fresh_request c Direct Running) s
     else if sheddable cfg c \<and> over_limit cfg (abandoned s)
     then put_request i (fresh_request c (Replying (overloaded_reply cfg c)) Idle) s
     else put_request i (fresh_request c Watching Running) s)"

text \<open>
  The channel's \<open>send\<close>, for a watched request, and the server's own for the others. An
  application follows ASGI: one status line, then bodies.
\<close>

definition asgi_order :: "message list \<Rightarrow> message \<Rightarrow> bool" where
  "asgi_order out m \<longleftrightarrow> (if is_start m then \<not> list_ex is_start out else list_ex is_start out)"

definition app_sends :: "nat \<Rightarrow> message \<Rightarrow> server \<Rightarrow> server" where
  "app_sends i m s =
    (let r = reqs s i; r' = r\<lparr>app_out := app_out r @ [m]\<rparr> in
     if handler r = Direct then transmit i m (put_request i r' s)
     else if muted r then put_request i r' s
     else transmit i m (put_request i (r'\<lparr>started := started r \<or> is_start m\<rparr>) s))"

definition app_ends :: "nat \<Rightarrow> server \<Rightarrow> server" where
  "app_ends i s =
    (let r = reqs s i in
     put_request i (r\<lparr>app := Ended,
       handler := (if handler r \<in> {Direct, Watching, Draining} then Returned else handler r)\<rparr>) s)"

definition ceiling_passes :: "timeout_config \<Rightarrow> nat \<Rightarrow> server \<Rightarrow> server" where
  "ceiling_passes cfg i s =
    (let r = reqs s i in
     if started r then put_request i (r\<lparr>handler := Draining\<rparr>) s
     else (put_request i (r\<lparr>muted := True, handler := Replying (timeout_reply cfg (scope r))\<rparr>) s)
            \<lparr>abandoned := abandoned s @ [i]\<rparr>)"

definition send_reply :: "nat \<Rightarrow> message \<Rightarrow> message list \<Rightarrow> server \<Rightarrow> server" where
  "send_reply i m ms s =
    transmit i m (put_request i ((reqs s i)\<lparr>handler := (if ms = [] then Returned else Replying ms)\<rparr>) s)"

definition log_late_finish :: "nat \<Rightarrow> server \<Rightarrow> server" where
  "log_late_finish i s = s\<lparr>abandoned := removeAll i (abandoned s)\<rparr>"

text \<open>One event, when it can happen.\<close>

fun loop_step :: "timeout_config \<Rightarrow> loop_event \<Rightarrow> server \<Rightarrow> server option" where
  "loop_step cfg (Arrive i c) s = (if handler (reqs s i) = Unseen then Some (arrive cfg i c s) else None)"
| "loop_step cfg (App_Sends i m) s =
    (if app (reqs s i) = Running \<and> asgi_order (app_out (reqs s i)) m then Some (app_sends i m s) else None)"
| "loop_step cfg (App_Ends i) s = (if app (reqs s i) = Running then Some (app_ends i s) else None)"
| "loop_step cfg (Ceiling i) s = (if handler (reqs s i) = Watching then Some (ceiling_passes cfg i s) else None)"
| "loop_step cfg (Reply i) s =
    (case handler (reqs s i) of Replying (m # ms) \<Rightarrow> Some (send_reply i m ms s) | _ \<Rightarrow> None)"
| "loop_step cfg (Late i) s =
    (if app (reqs s i) = Ended \<and> i \<in> set (abandoned s) then Some (log_late_finish i s) else None)"

text \<open>The states a run goes through, as long as each satisfies what the server enforces.\<close>

inductive reachable :: "timeout_config \<Rightarrow> (server \<Rightarrow> bool) \<Rightarrow> server \<Rightarrow> bool" for cfg enforced where
  start: "reachable cfg enforced initial_server"
| event: "reachable cfg enforced s \<Longrightarrow> loop_step cfg e s = Some s' \<Longrightarrow> enforced s' \<Longrightarrow> reachable cfg enforced s'"

inductive_cases reachableE: "reachable cfg enforced s"

section \<open>What an error reply says\<close>

lemma error_body_object: "error_body_text st t = json_object_text '', '' '': '' [(''status_code'', JInt st), (''messages'', JStr t)]"
  by (simp add: error_body_text_def json_object_text_def member_text_def)

lemma error_body_reads:
  "prints st \<Longrightarrow> json_object (error_body_text st t) = Some [(''status_code'', JInt st), (''messages'', JStr t)]"
  using json_object_reads [OF _ spaces(1,1), of "[(''status_code'', JInt st), (''messages'', JStr t)]"]
  by (simp add: error_body_object dict_update_Nil dict_ok_def dict_keys_def)

section \<open>What each request's state is\<close>

definition wire_of :: "nat \<Rightarrow> server \<Rightarrow> message list" where
  "wire_of i s = map snd (filter (\<lambda>p. fst p = i) (wire s))"

text \<open>
  The invariant of one request: who speaks for it. Either the application does, and every message
  it sent is on the wire; or the middleware does, with its 504 after muting an application that had
  sent nothing, or with its 503 instead of calling the application.
\<close>

definition speaks_app :: "request_state \<Rightarrow> message list \<Rightarrow> bool" where
  "speaks_app r w \<longleftrightarrow> \<not> muted r \<and> w = app_out r"

definition speaks_504 :: "timeout_config \<Rightarrow> request_state \<Rightarrow> message list \<Rightarrow> message list \<Rightarrow> bool" where
  "speaks_504 cfg r w ms \<longleftrightarrow> muted r \<and> app r \<noteq> Idle \<and> watched cfg (scope r) \<and> w @ ms = timeout_reply cfg (scope r)"

definition speaks_503 :: "timeout_config \<Rightarrow> request_state \<Rightarrow> message list \<Rightarrow> message list \<Rightarrow> bool" where
  "speaks_503 cfg r w ms \<longleftrightarrow> \<not> muted r \<and> app r = Idle \<and> app_out r = [] \<and> watched cfg (scope r)
    \<and> sheddable cfg (scope r) \<and> w @ ms = overloaded_reply cfg (scope r)"

definition request_inv :: "timeout_config \<Rightarrow> request_state \<Rightarrow> message list \<Rightarrow> bool" where
  "request_inv cfg r w \<longleftrightarrow> length (filter is_start (app_out r)) \<le> 1 \<and>
    (case handler r of
      Unseen \<Rightarrow> app r = Idle \<and> app_out r = [] \<and> speaks_app r w
    | Direct \<Rightarrow> app r = Running \<and> \<not> watched cfg (scope r) \<and> speaks_app r w
    | Watching \<Rightarrow> app r = Running \<and> watched cfg (scope r) \<and> speaks_app r w
        \<and> started r = list_ex is_start (app_out r) \<and> (app_out r \<noteq> [] \<longrightarrow> started r)
    | Draining \<Rightarrow> app r = Running \<and> watched cfg (scope r) \<and> speaks_app r w
    | Replying ms \<Rightarrow> ms \<noteq> [] \<and> (speaks_504 cfg r w ms \<or> speaks_503 cfg r w ms)
    | Returned \<Rightarrow> app r = Ended \<and> speaks_app r w \<or> speaks_504 cfg r w [] \<or> speaks_503 cfg r w [])"

definition abandoned_inv :: "server \<Rightarrow> bool" where
  "abandoned_inv s \<longleftrightarrow> distinct (abandoned s) \<and> (\<forall>i \<in> set (abandoned s). muted (reqs s i)) \<and>
    (\<forall>i. muted (reqs s i) \<and> app (reqs s i) = Running \<longrightarrow> i \<in> set (abandoned s))"

definition server_inv :: "timeout_config \<Rightarrow> server \<Rightarrow> bool" where
  "server_inv cfg s \<longleftrightarrow> (\<forall>i. request_inv cfg (reqs s i) (wire_of i s)) \<and> abandoned_inv s"

lemmas speaks_defs = speaks_app_def speaks_504_def speaks_503_def

lemma wire_of_transmit [simp]: "wire_of i (transmit j m s) = wire_of i s @ (if j = i then [m] else [])"
  by (simp add: wire_of_def transmit_def)

lemma wire_of_put [simp]: "wire_of i (put_request j r s) = wire_of i s"
  by (simp add: wire_of_def put_request_def)

lemma reqs_simps [simp]:
  "reqs (put_request i r s) j = (if j = i then r else reqs s j)" "reqs (transmit i m s) = reqs s"
  "abandoned (put_request i r s) = abandoned s" "abandoned (transmit i m s) = abandoned s"
  "wire_of i (s\<lparr>abandoned := ab\<rparr>) = wire_of i s"
  by (auto simp: put_request_def transmit_def wire_of_def)

lemma asgi_order_count:
  "asgi_order out m \<Longrightarrow> length (filter is_start out) \<le> 1 \<Longrightarrow> length (filter is_start (out @ [m])) \<le> 1"
  by (auto simp: asgi_order_def list_ex_iff filter_empty_conv split: if_splits)

lemma asgi_order_started: "asgi_order out m \<Longrightarrow> list_ex is_start (out @ [m])"
  by (auto simp: asgi_order_def split: if_splits)

text \<open>One lemma per event: the request concerned keeps its invariant.\<close>

lemma arrive_inv:
  assumes "handler (reqs s i) = Unseen" and "request_inv cfg (reqs s i) (wire_of i s)"
  shows "request_inv cfg (reqs (arrive cfg i c s) i) (wire_of i (arrive cfg i c s))"
  using assms
  by (auto simp: arrive_def request_inv_def fresh_request_def speaks_defs overloaded_reply_def split: prod.splits)

lemma app_sends_inv:
  assumes "app (reqs s i) = Running" and "asgi_order (app_out (reqs s i)) m"
    and "request_inv cfg (reqs s i) (wire_of i s)"
  shows "request_inv cfg (reqs (app_sends i m s) i) (wire_of i (app_sends i m s))"
  using assms asgi_order_count [OF assms(2)] asgi_order_started [OF assms(2)]
  by (cases "handler (reqs s i)")
    (auto simp: app_sends_def Let_def request_inv_def speaks_defs asgi_order_def split: if_splits)

lemma app_ends_inv:
  assumes "app (reqs s i) = Running" and "request_inv cfg (reqs s i) (wire_of i s)"
  shows "request_inv cfg (reqs (app_ends i s) i) (wire_of i (app_ends i s))"
  using assms
  by (cases "handler (reqs s i)") (auto simp: app_ends_def Let_def request_inv_def speaks_defs)

lemma ceiling_inv:
  assumes "handler (reqs s i) = Watching" and "request_inv cfg (reqs s i) (wire_of i s)"
  shows "request_inv cfg (reqs (ceiling_passes cfg i s) i) (wire_of i (ceiling_passes cfg i s))"
  using assms
  by (auto simp: ceiling_passes_def Let_def request_inv_def speaks_defs timeout_reply_def split: prod.splits)

lemma reply_inv:
  assumes "handler (reqs s i) = Replying (m # ms)" and "request_inv cfg (reqs s i) (wire_of i s)"
  shows "request_inv cfg (reqs (send_reply i m ms s) i) (wire_of i (send_reply i m ms s))"
  using assms by (auto simp: send_reply_def request_inv_def speaks_defs)

section \<open>Every event keeps the invariant\<close>

fun event_request :: "loop_event \<Rightarrow> nat" where
  "event_request (Arrive i c) = i"
| "event_request (App_Sends i m) = i"
| "event_request (App_Ends i) = i"
| "event_request (Ceiling i) = i"
| "event_request (Reply i) = i"
| "event_request (Late i) = i"

lemmas step_defs = arrive_def app_sends_def app_ends_def ceiling_passes_def send_reply_def log_late_finish_def Let_def

lemma loop_step_frame:
  assumes "loop_step cfg e s = Some s'" and "j \<noteq> event_request e"
  shows "reqs s' j = reqs s j \<and> wire_of j s' = wire_of j s"
  using assms
  by (cases e) (auto simp: step_defs split: if_splits handler_state.splits list.splits)

lemma loop_step_request_inv:
  assumes "loop_step cfg e s = Some s'" and "\<forall>i. request_inv cfg (reqs s i) (wire_of i s)"
  shows "request_inv cfg (reqs s' j) (wire_of j s')"
proof (cases "j = event_request e")
  case False
  with loop_step_frame [OF assms(1)] assms(2) show ?thesis by simp
next
  case True
  have inv: "request_inv cfg (reqs s i) (wire_of i s)" for i using assms(2) by blast
  show ?thesis
  proof (cases e)
    case (Reply i)
    with assms(1) True inv [of i] reply_inv show ?thesis
      by (auto split: handler_state.splits list.splits)
  next
    case (Late i)
    with assms(1) True inv [of i] show ?thesis
      by (auto simp: log_late_finish_def split: if_splits)
  qed (use assms(1) True inv arrive_inv app_sends_inv app_ends_inv ceiling_inv in \<open>auto split: if_splits\<close>)
qed

lemma loop_step_abandoned_inv:
  assumes "loop_step cfg e s = Some s'" and "server_inv cfg s"
  shows "abandoned_inv s'"
proof -
  have ab: "abandoned_inv s" and inv: "\<And>i. request_inv cfg (reqs s i) (wire_of i s)"
    using assms(2) by (auto simp: server_inv_def)
  show ?thesis
  proof (cases e)
    case (Arrive i c)
    with assms(1) inv [of i] ab show ?thesis
      by (auto simp: arrive_def abandoned_inv_def fresh_request_def request_inv_def speaks_app_def split: if_splits)
  next
    case (App_Sends i m)
    with assms(1) ab show ?thesis
      by (auto simp: app_sends_def Let_def abandoned_inv_def split: if_splits)
  next
    case (App_Ends i)
    with assms(1) ab show ?thesis
      by (auto simp: app_ends_def Let_def abandoned_inv_def split: if_splits)
  next
    case (Ceiling i)
    with assms(1) inv [of i] ab show ?thesis
      by (auto simp: ceiling_passes_def Let_def abandoned_inv_def request_inv_def speaks_app_def split: if_splits)
  next
    case (Reply i)
    with assms(1) ab show ?thesis
      by (auto simp: send_reply_def abandoned_inv_def split: handler_state.splits list.splits if_split_asm)
  next
    case (Late i)
    with assms(1) ab show ?thesis
      by (auto simp: log_late_finish_def abandoned_inv_def distinct_removeAll split: if_splits)
  qed
qed

lemma initial_inv: "server_inv cfg initial_server"
  by (simp add: server_inv_def initial_server_def request_inv_def fresh_request_def speaks_app_def
      wire_of_def abandoned_inv_def)

lemma reachable_inv: "reachable cfg enforced s \<Longrightarrow> server_inv cfg s"
proof (induction rule: reachable.induct)
  case start
  show ?case by (rule initial_inv)
next
  case (event s e s')
  have "\<forall>i. request_inv cfg (reqs s' i) (wire_of i s')"
    using loop_step_request_inv [OF event.hyps(2)] event.IH by (simp add: server_inv_def)
  with loop_step_abandoned_inv [OF event.hyps(2) event.IH] show ?case by (simp add: server_inv_def)
qed

section \<open>How much work is abandoned\<close>

text \<open>The requests under the ceiling, and the abandoned ones, of the methods that may be shed.\<close>

definition watching :: "timeout_config \<Rightarrow> server \<Rightarrow> nat set" where
  "watching cfg s = {i. handler (reqs s i) = Watching \<and> sheddable cfg (scope (reqs s i))}"

definition left_running :: "timeout_config \<Rightarrow> server \<Rightarrow> nat set" where
  "left_running cfg s = {i \<in> set (abandoned s). sheddable cfg (scope (reqs s i))}"

text \<open>What a server with a concurrency limit enforces: at most so many watched requests.\<close>

definition within_limit :: "timeout_config \<Rightarrow> nat \<Rightarrow> server \<Rightarrow> bool" where
  "within_limit cfg limit s \<longleftrightarrow> finite (watching cfg s) \<and> card (watching cfg s) \<le> limit"

lemma left_running_bound: "card (left_running cfg s) \<le> length (abandoned s)"
  unfolding left_running_def by (rule card_filter_set_le)

lemma not_muted_not_abandoned: "server_inv cfg s \<Longrightarrow> \<not> muted (reqs s i) \<Longrightarrow> i \<notin> set (abandoned s)"
  by (auto simp: server_inv_def abandoned_inv_def)

lemma unseen_not_muted: "server_inv cfg s \<Longrightarrow> handler (reqs s i) = Unseen \<Longrightarrow> \<not> muted (reqs s i)"
  using speaks_app_def by (auto simp: server_inv_def request_inv_def dest!: spec [of _ i])

text \<open>
  How one event changes the two sets: an admission adds one watched request while fewer than
  \<open>n\<close> are abandoned, the ceiling moves one from the watched to the abandoned, anything else adds
  to neither.
\<close>

lemma loop_step_sets:
  assumes step: "loop_step cfg e s = Some s'" and inv: "server_inv cfg s" and n: "max_abandoned cfg = Fin (real n)"
  obtains (admitted) "left_running cfg s' = left_running cfg s" and "length (abandoned s) < n"
  | (left) i where "i \<in> watching cfg s" and "watching cfg s' = watching cfg s - {i}"
      and "left_running cfg s' \<subseteq> insert i (left_running cfg s)"
  | (other) "watching cfg s' \<subseteq> watching cfg s" and "left_running cfg s' \<subseteq> left_running cfg s"
proof (cases e)
  case (Arrive i c)
  with step have s': "s' = arrive cfg i c s" and unseen: "handler (reqs s i) = Unseen" by (auto split: if_splits)
  have fresh: "i \<notin> set (abandoned s)"
    using not_muted_not_abandoned [OF inv] unseen_not_muted [OF inv unseen] by blast
  with s' have left: "left_running cfg s' = left_running cfg s"
    by (auto simp: left_running_def arrive_def)
  show thesis
  proof (cases "watched cfg c \<and> sheddable cfg c \<and> \<not> over_limit cfg (abandoned s)")
    case True
    with n left show thesis by (intro admitted) (auto simp: over_limit_def flt_le_def)
  next
    case False
    with s' unseen have "watching cfg s' \<subseteq> watching cfg s"
      by (auto simp: watching_def arrive_def fresh_request_def split: if_splits)
    with left show thesis by (intro other) auto
  qed
next
  case (App_Sends i m)
  with step have "watching cfg s' \<subseteq> watching cfg s" and "left_running cfg s' \<subseteq> left_running cfg s"
    by (auto simp: app_sends_def Let_def watching_def left_running_def split: if_splits)
  then show thesis by (rule other)
next
  case (App_Ends i)
  with step have "watching cfg s' \<subseteq> watching cfg s" and "left_running cfg s' \<subseteq> left_running cfg s"
    by (auto simp: app_ends_def Let_def watching_def left_running_def split: if_splits)
  then show thesis by (rule other)
next
  case (Ceiling i)
  with step have s': "s' = ceiling_passes cfg i s" and h: "handler (reqs s i) = Watching" by (auto split: if_splits)
  show thesis
  proof (cases "sheddable cfg (scope (reqs s i)) \<and> \<not> started (reqs s i)")
    case True
    with s' h show thesis
      by (intro left [of i]) (auto simp: ceiling_passes_def Let_def watching_def left_running_def)
  next
    case False
    with s' h have "watching cfg s' \<subseteq> watching cfg s" and "left_running cfg s' \<subseteq> left_running cfg s"
      by (auto simp: ceiling_passes_def Let_def watching_def left_running_def split: if_splits)
    then show thesis by (rule other)
  qed
next
  case (Reply i)
  with step have "watching cfg s' \<subseteq> watching cfg s" and "left_running cfg s' \<subseteq> left_running cfg s"
    by (auto simp: send_reply_def watching_def left_running_def split: handler_state.splits list.splits if_split_asm)
  then show thesis by (rule other)
next
  case (Late i)
  with step have "watching cfg s' \<subseteq> watching cfg s" and "left_running cfg s' \<subseteq> left_running cfg s"
    by (auto simp: log_late_finish_def watching_def left_running_def split: if_splits)
  then show thesis by (rule other)
qed

lemma finite_left_running [simp]: "finite (left_running cfg s)"
  by (simp add: left_running_def)

lemma reachable_enforced: "reachable cfg enforced s \<Longrightarrow> enforced initial_server \<Longrightarrow> enforced s"
  by (induction rule: reachable.induct) auto

lemma initial_within_limit: "within_limit cfg limit initial_server"
  by (simp add: within_limit_def watching_def initial_server_def fresh_request_def)

lemma reachable_work_bound:
  assumes "reachable cfg (within_limit cfg limit) s" and n: "max_abandoned cfg = Fin (real n)" "0 < n"
  shows "card (left_running cfg s) + card (watching cfg s) < n + limit"
  using assms(1)
proof (induction rule: reachable.induct)
  case start
  show ?case
    using n(2) by (simp add: left_running_def watching_def initial_server_def fresh_request_def)
next
  case (event s e s')
  have limit: "card (watching cfg s') \<le> limit" using event.hyps(3) by (simp add: within_limit_def)
  have fin: "finite (watching cfg s)"
    using reachable_enforced [OF event.hyps(1) initial_within_limit] by (simp add: within_limit_def)
  from event.hyps(2) reachable_inv [OF event.hyps(1)] n(1) show ?case
  proof (cases rule: loop_step_sets)
    case admitted
    with limit left_running_bound [of cfg s] show ?thesis by simp
  next
    case (left i)
    from fin left(1) have "card (watching cfg s') = card (watching cfg s) - 1" "0 < card (watching cfg s)"
      unfolding left(2) by (auto simp: card_gt_0_iff)
    moreover have "card (left_running cfg s') \<le> Suc (card (left_running cfg s))"
      by (rule le_trans [OF card_mono [OF _ left(3)] card_insert_le_m1]) auto
    ultimately show ?thesis using event.IH by linarith
  next
    case other
    with card_mono [OF fin other(1)] card_mono [OF finite_left_running other(2)] event.IH show ?thesis by linarith
  qed
qed

section \<open>Properties\<close>

fun run_events :: "timeout_config \<Rightarrow> loop_event list \<Rightarrow> server \<Rightarrow> server option" where
  "run_events cfg [] s = Some s"
| "run_events cfg (e # es) s = (case loop_step cfg e s of None \<Rightarrow> None | Some s' \<Rightarrow> run_events cfg es s')"

lemma run_reachable: "run_events cfg es s = Some s' \<Longrightarrow> reachable cfg (\<lambda>s. True) s \<Longrightarrow> reachable cfg (\<lambda>s. True) s'"
  by (induction es arbitrary: s) (auto split: option.splits intro: reachable.event)

text \<open>A run whose states all satisfy what the server enforces, one event at a time.\<close>

fun enforced_run :: "timeout_config \<Rightarrow> (server \<Rightarrow> bool) \<Rightarrow> loop_event list \<Rightarrow> server \<Rightarrow> server \<Rightarrow> bool" where
  "enforced_run cfg enforced [] s s' \<longleftrightarrow> s' = s"
| "enforced_run cfg enforced (e # es) s s' \<longleftrightarrow>
    (case loop_step cfg e s of None \<Rightarrow> False | Some t \<Rightarrow> enforced t \<and> enforced_run cfg enforced es t s')"

lemma enforced_run_reachable:
  "enforced_run cfg enforced es s s' \<Longrightarrow> reachable cfg enforced s \<Longrightarrow> reachable cfg enforced s'"
  by (induction es arbitrary: s) (auto split: option.splits intro: reachable.event)

text \<open>
  Every request is answered by exactly one voice, however its application, the ceiling and the
  other requests interleave. Either what reached the server is, message for message, what the
  application sent; or the application was muted by the ceiling and the server got (so far) the
  504 reply and nothing else; or the application was never called and the server got the 503. The
  last two only happen to HTTP requests whose method the ceiling covers, the 503 never to a method
  that is never shed.
\<close>

theorem one_voice:
  assumes "reachable cfg enforced s"
  shows "\<not> muted (reqs s i) \<and> wire_of i s = app_out (reqs s i)
    \<or> muted (reqs s i) \<and> watched cfg (scope (reqs s i)) \<and> (\<exists>ms. wire_of i s @ ms = timeout_reply cfg (scope (reqs s i)))
    \<or> app (reqs s i) = Idle \<and> watched cfg (scope (reqs s i)) \<and> sheddable cfg (scope (reqs s i))
        \<and> (\<exists>ms. wire_of i s @ ms = overloaded_reply cfg (scope (reqs s i)))"
proof -
  from reachable_inv [OF assms] have "request_inv cfg (reqs s i) (wire_of i s)" by (simp add: server_inv_def)
  then show ?thesis
    by (cases "handler (reqs s i)") (auto simp: request_inv_def speaks_defs)
qed

abbreviation sample_timeout_config :: timeout_config where
  "sample_timeout_config \<equiv> \<lparr>ceiling = Fin 120, max_abandoned = Fin (real 1), safe_methods = Some SAFE_METHODS_CAPPED,
    never_shed = NEVER_SHED, retry_after = Some RETRY_AFTER_SECONDS, error_body = error_messages unconfigured,
    timeout_message = TIMEOUT_MESSAGE, overloaded_message = OVERLOADED_MESSAGE\<rparr>"

abbreviation get_scope :: conn where
  "get_scope \<equiv> \<lparr>scope_type = ''http'', scope_method = Some ''GET'', scope_path = ''/'', scope_headers = []\<rparr>"

lemmas event_eval = initial_server_def fresh_request_def arrive_def watched_def is_capped_def sheddable_def
  over_limit_def ceiling_passes_def send_reply_def put_request_def transmit_def SAFE_METHODS_CAPPED_def
  NEVER_SHED_def flt_le_def wire_of_def

lemma one_voice_witness:
  "\<exists>s. run_events sample_timeout_config [Arrive 0 get_scope, Ceiling 0, App_Sends 0 (Response_Start 200 [])] initial_server = Some s
    \<and> wire_of 0 s \<noteq> [Response_Start 200 []]"
proof -
  let ?es = "[Arrive 0 get_scope, Ceiling 0, App_Sends 0 (Response_Start 200 [])]"
  obtain s where s: "run_events sample_timeout_config ?es initial_server = Some s"
    and muted: "muted (reqs s 0)" "app (reqs s 0) = Running" "scope (reqs s 0) = get_scope"
    by (simp add: event_eval app_sends_def asgi_order_def)
  from one_voice [OF run_reachable [OF s reachable.start], of 0] muted
  obtain ms where "wire_of 0 s @ ms = timeout_reply sample_timeout_config get_scope" by auto
  then have "wire_of 0 s \<noteq> [Response_Start 200 []]"
    by (auto simp: timeout_reply_def error_messages_def Let_def)
  with s show ?thesis by blast
qed

text \<open>
  The server never sees two status lines for one request, with either renderer: a request that
  the application and the ceiling race to answer gets one answer.
\<close>

theorem single_status_line:
  assumes "reachable cfg enforced s" and "error_body cfg = error_messages dj \<or> error_body cfg = text_messages"
  shows "length (filter is_start (wire_of i s)) \<le> 1"
proof -
  let ?r = "reqs s i"
  have one: "length (filter is_start [fst (error_body cfg st t c ra), snd (error_body cfg st t c ra)]) = 1" for st t c ra
    using assms(2) json_errors.one_start text_errors.one_start by metis
  have pair: "length (filter is_start (case error_body cfg st t c ra of (a, b) \<Rightarrow> [a, b])) = 1" for st t c ra
    using one [of st t c ra] by (cases "error_body cfg st t c ra") simp
  have "length (filter is_start (timeout_reply cfg (scope ?r))) = 1"
    and "length (filter is_start (overloaded_reply cfg (scope ?r))) = 1"
    unfolding timeout_reply_def overloaded_reply_def by (rule pair)+
  then have spoken: "length (filter is_start w) \<le> 1"
    if "w @ ms = timeout_reply cfg (scope ?r) \<or> w @ ms = overloaded_reply cfg (scope ?r)" for w ms
    using that by (metis filter_append length_append le_add1)
  from reachable_inv [OF assms(1)] have inv: "request_inv cfg ?r (wire_of i s)"
    by (simp add: server_inv_def)
  then consider "wire_of i s = app_out ?r" | ms where "wire_of i s @ ms = timeout_reply cfg (scope ?r)"
    | ms where "wire_of i s @ ms = overloaded_reply cfg (scope ?r)"
    by (cases "handler ?r") (auto simp: request_inv_def speaks_defs)
  then show ?thesis
  proof cases
    case 1
    with inv show ?thesis by (simp add: request_inv_def)
  qed (use spoken in blast)+
qed

lemma single_status_line_witness:
  "\<exists>s. run_events sample_timeout_config [Arrive 0 get_scope, Ceiling 0, Reply 0, Reply 0] initial_server = Some s
    \<and> length (filter is_start (wire_of 0 s)) \<le> 1"
proof -
  obtain s where s: "run_events sample_timeout_config [Arrive 0 get_scope, Ceiling 0, Reply 0, Reply 0] initial_server = Some s"
    by (simp add: event_eval timeout_reply_def error_messages_def Let_def)
  with single_status_line [OF run_reachable [OF s reachable.start], of unconfigured 0] show ?thesis by auto
qed


text \<open>
  Two requests are admitted before any is abandoned and both are left running, which is as much as the bound
  allows with \<open>max_abandoned\<close> of one and a limit of two; the third is shed.
\<close>

abbreviation overload_history :: "loop_event list" where
  "overload_history \<equiv> [Arrive 0 get_scope, Arrive 1 get_scope, Ceiling 0, Ceiling 1, Arrive 2 get_scope]"


text \<open>
  The ceiling answers: a watched request whose application has sent nothing can always be
  answered by the ceiling passing and two sends, after which the server has the whole 504 and the
  middleware has returned, with the application still running and muted for good; once the status
  line is on the wire the ceiling changes neither the wire nor the application.
\<close>

theorem ceiling_answers:
  assumes "reachable cfg enforced s" and "handler (reqs s i) = Watching"
  shows "if started (reqs s i)
    then (\<exists>s'. loop_step cfg (Ceiling i) s = Some s' \<and> wire s' = wire s \<and> app (reqs s' i) = Running
        \<and> handler (reqs s' i) = Draining \<and> abandoned s' = abandoned s)
    else (\<exists>s'. run_events cfg [Ceiling i, Reply i, Reply i] s = Some s' \<and> wire_of i s' = timeout_reply cfg (scope (reqs s i))
        \<and> handler (reqs s' i) = Returned \<and> app (reqs s' i) = Running \<and> muted (reqs s' i) \<and> i \<in> set (abandoned s'))"
proof -
  from reachable_inv [OF assms(1)] assms(2)
  have inv: "app (reqs s i) = Running" "wire_of i s = app_out (reqs s i)" "app_out (reqs s i) \<noteq> [] \<longrightarrow> started (reqs s i)"
    by (auto simp: server_inv_def request_inv_def speaks_app_def dest!: spec [of _ i])
  obtain a b where "error_body cfg 504 (timeout_message cfg) (scope (reqs s i)) None = (a, b)" by force
  with inv assms(2) show ?thesis
    by (auto simp: ceiling_passes_def send_reply_def timeout_reply_def Let_def put_request_def transmit_def wire_of_def)
qed

lemma ceiling_answers_witness:
  "\<exists>s. run_events sample_timeout_config [Ceiling 0, Reply 0, Reply 0]
      (arrive sample_timeout_config 0 get_scope initial_server) = Some s \<and> muted (reqs s 0)"
proof -
  have step: "loop_step sample_timeout_config (Arrive 0 get_scope) initial_server =
      Some (arrive sample_timeout_config 0 get_scope initial_server)"
    by (simp add: event_eval)
  have h: "handler (reqs (arrive sample_timeout_config 0 get_scope initial_server) 0) = Watching"
    and n: "\<not> started (reqs (arrive sample_timeout_config 0 get_scope initial_server) 0)"
    by (simp_all add: event_eval)
  from ceiling_answers [where enforced = "\<lambda>s. True", OF reachable.event [OF reachable.start step TrueI] h,
      unfolded if_not_P [OF n]]
  show ?thesis by blast
qed

text \<open>
  An error reply is well formed and opens nothing to a foreign origin: its length header is the
  length of its body, an allowed-origin header appears only for an origin the settings allow (with
  its own name, or the wildcard when all are allowed), and credentials are never allowed together
  with the wildcard.
\<close>

theorem error_reply_well_formed:
  "\<exists>hs body. error_messages dj status text' c ra = (Response_Start status hs, Response_Body body)
    \<and> find_header ''content-length'' hs = Some (nat_str (length body))
    \<and> (case find_header ''access-control-allow-origin'' hs of
        None \<Rightarrow> find_header ''access-control-allow-credentials'' hs = None
      | Some v \<Rightarrow> (\<exists>origin. request_origin c = Some origin \<and> origin \<noteq> []
          \<and> (if allow_all_origins dj then v = ''*'' else v = origin \<and> origin \<in> set (allowed_origins dj))
          \<and> (find_header ''access-control-allow-credentials'' hs =
              (if allow_credentials dj \<and> \<not> allow_all_origins dj then Some ''true'' else None))))"
  by (auto simp: error_messages_def retry_after_header_def cors_headers_def Let_def split: option.splits)

end
