(* ===== verification/Registration.thy ===== *)
theory Registration
  imports Retry
begin

text \<open>
  \<open>netix_backend/asgi/registration.py\<close>: the registration of a service with update-service. The
  payload is read from the environment; \<open>register\<close> is a retry loop over a list of delays;
  the heartbeat is a loop that need not end; the once-per-process latch is a state machine over the
  steps of the threads that share it.
\<close>

section \<open>What is sent\<close>

definition ENABLED_ENV :: string where "ENABLED_ENV = ''SERVICE_REGISTRATION_ENABLED''"
definition URL_ENV :: string where "URL_ENV = ''UPDATE_SERVICE_REGISTRATION_URL''"
definition TOKEN_ENV :: string where "TOKEN_ENV = ''SERVICE_REGISTRATION_TOKEN''"
definition TOKEN_HEADER :: string where "TOKEN_HEADER = ''X-Service-Registration-Token''"
definition HEARTBEAT_ENV :: string where "HEARTBEAT_ENV = ''SERVICE_REGISTRATION_HEARTBEAT_SECONDS''"
definition HEARTBEAT_SECONDS :: pyfloat where "HEARTBEAT_SECONDS = Fin 60"

definition RETRY_DELAYS :: "pyfloat list" where
  "RETRY_DELAYS = map Fin [0, 1, 2, 4, 8, 16, 30, 60]"

definition REGISTRATION_FIELDS :: "(string, string) dict" where
  "REGISTRATION_FIELDS =
    [(''name'', ''SERVICE_NAME''), (''display_name'', ''SERVICE_DISPLAY_NAME''),
     (''description'', ''SERVICE_DESCRIPTION''), (''version'', ''APP_VERSION''),
     (''environment'', ''SERVICE_REGISTRATION_ENVIRONMENT''), (''base_url'', ''SERVICE_PUBLIC_BASE_URL''),
     (''internal_base_url'', ''SERVICE_INTERNAL_BASE_URL'')]"

definition registration_enabled :: "environ \<Rightarrow> bool" where
  "registration_enabled env = env_bool env ENABLED_ENV (Default_Bool False)"

text \<open>\<open>env_str(name, "")\<close> always returns a string.\<close>

definition env_text :: "environ \<Rightarrow> string \<Rightarrow> string" where
  "env_text env name = (case env_str env name (Some []) False of Inr (Some s) \<Rightarrow> s | _ \<Rightarrow> [])"

type_synonym registration_config = "string \<times> string \<times> (string, string) dict"

definition missing_registration :: "environ \<Rightarrow> string list" where
  "missing_registration env =
    map snd (filter (\<lambda>(f, name). env_text env name = []) REGISTRATION_FIELDS)
    @ (if env_text env URL_ENV = [] then [URL_ENV] else [])
    @ (if env_text env TOKEN_ENV = [] then [TOKEN_ENV] else [])"

definition registration_payload :: "environ \<Rightarrow> registration_config option" where
  "registration_payload env =
    (if \<not> registration_enabled env then None
     else if missing_registration env \<noteq> [] then None
     else Some (env_text env URL_ENV, env_text env TOKEN_ENV,
       map (\<lambda>(f, name). (f, env_text env name)) REGISTRATION_FIELDS))"

record put_request =
  put_url :: string
  put_body :: string
  put_headers :: "(string, string) dict"

definition payload_json :: "(string, string) dict \<Rightarrow> string" where
  "payload_json payload = ''{'' @ join '','' (map (\<lambda>(k, v). json_str k @ '':'' @ json_str v) payload) @ ''}''"

definition put_of :: "registration_config \<Rightarrow> put_request" where
  "put_of configuration = (case configuration of (url, token, payload) \<Rightarrow>
    \<lparr>put_url = url, put_body = payload_json payload,
     put_headers = [(''Content-Type'', ''application/json''), (TOKEN_HEADER, token)]\<rparr>)"

text \<open>\<open>urlopen\<close> answers with a status or raises; anything but a 2xx is raised by the code.\<close>

definition put_outcome :: "int res \<Rightarrow> unit res" where
  "put_outcome answer = rbind answer (\<lambda>status.
    if 200 \<le> status \<and> status < 300 then Inr ()
    else Inl (OS_Error (''update-service returned HTTP '' @ int_str status)))"

section \<open>Registering\<close>

datatype reg_event = Pause pyfloat | Put nat put_request | Failed_After nat | Failed_Retrying nat | Registered string

text \<open>
  Round \<open>k\<close> of the loop, which the code numbers from 1: pause unless the delay is zero, then one
  PUT. A delay \<open>sleep\<close> rejects raises out of the loop; every failure of the PUT is retried.
\<close>

definition register_round ::
    "registration_config \<Rightarrow> pyfloat list \<Rightarrow> (nat \<Rightarrow> int res) \<Rightarrow> nat \<Rightarrow> bool res option \<times> reg_event list" where
  "register_round cfg delays answers k =
    (let delay = delays ! k; pausing = (delay \<noteq> Fin 0) in
     case (if pausing then sync_sleep delay else None) of
       Some e \<Rightarrow> (Some (Inl e), [])
     | None \<Rightarrow>
         let es = (if pausing then [Pause delay] else []) @ [Put k (put_of cfg)] in
         (case put_outcome (answers k) of
           Inr _ \<Rightarrow> (Some (Inr True), es @ [Registered (case cfg of (u, t, p) \<Rightarrow> the_default [] (dict_get p ''name''))])
         | Inl e \<Rightarrow> (None, es @ [if Suc k = length delays then Failed_After (Suc k) else Failed_Retrying (Suc k)])))"

function register_loop ::
    "registration_config \<Rightarrow> pyfloat list \<Rightarrow> (nat \<Rightarrow> int res) \<Rightarrow> nat \<Rightarrow> bool res \<times> reg_event list" where
  "register_loop cfg delays answers k =
    (if length delays \<le> k then (Inr False, [])
     else (case register_round cfg delays answers k of
        (Some r, es) \<Rightarrow> (r, es)
      | (None, es) \<Rightarrow> (let (r, es') = register_loop cfg delays answers (Suc k) in (r, es @ es'))))"
  by pat_completeness auto
termination by (relation "measure (\<lambda>(cfg, ds, a, k). length ds - k)") auto

declare register_loop.simps [simp del]

definition register :: "environ \<Rightarrow> pyfloat list \<Rightarrow> (nat \<Rightarrow> int res) \<Rightarrow> bool res \<times> reg_event list" where
  "register env delays answers =
    (case registration_payload env of
      None \<Rightarrow> (Inr False, [])
    | Some cfg \<Rightarrow> register_loop cfg delays answers 0)"

section \<open>The heartbeat\<close>

text \<open>
  The loop runs until its stop event is set or the registration is no longer configured; it may
  run for ever, so \<open>heartbeat\<close> follows it for at most \<open>fuel\<close> rounds. \<open>stopped k\<close> is what the
  \<open>k\<close>-th wait returns and \<open>env k\<close> the environment then; the result says whether it returned.
\<close>

fun heartbeat ::
    "nat \<Rightarrow> (nat \<Rightarrow> bool) \<Rightarrow> (nat \<Rightarrow> environ) \<Rightarrow> (nat \<Rightarrow> int res) \<Rightarrow> nat \<Rightarrow> bool \<times> reg_event list" where
  "heartbeat 0 stopped env answers k = (False, [])"
| "heartbeat (Suc fuel) stopped env answers k =
    (if stopped k then (True, [])
     else (case registration_payload (env k) of
        None \<Rightarrow> (True, [])
      | Some cfg \<Rightarrow>
          (let (ended, es) = heartbeat fuel stopped env answers (Suc k)
           in (ended, Put k (put_of cfg)
                # (case put_outcome (answers k) of Inr _ \<Rightarrow> [] | Inl e \<Rightarrow> [Failed_Retrying k]) @ es))))"

definition heartbeat_seconds :: "environ \<Rightarrow> pyfloat option \<Rightarrow> pyfloat res" where
  "heartbeat_seconds env interval =
    (case interval of None \<Rightarrow> env_float env HEARTBEAT_ENV HEARTBEAT_SECONDS | Some s \<Rightarrow> Inr s)"

text \<open>Whether \<open>start_heartbeat\<close> starts a thread.\<close>

definition start_heartbeat :: "environ \<Rightarrow> pyfloat option \<Rightarrow> bool res" where
  "start_heartbeat env interval =
    rbind (heartbeat_seconds env interval) (\<lambda>seconds. Inr (\<not> flt_le seconds (Fin 0)))"

section \<open>The latch\<close>

text \<open>
  The module's shared state: the latch and the current stop event. Stop events are numbered as they
  are made; a reset sets the current one and makes the next, so an event is set when its number is
  below the current one. Threads: registration threads that have not yet reached
  \<open>start_heartbeat\<close>, counted, and the live heartbeats with the event each was given.
\<close>

record latch_state =
  latch_started :: bool
  stop_event :: nat
  registering :: nat
  heartbeats :: "nat list"

definition initial_latch :: latch_state where
  "initial_latch = \<lparr>latch_started = False, stop_event = 0, registering = 0, heartbeats = []\<rparr>"

definition registration_started :: "latch_state \<Rightarrow> bool" where
  "registration_started s = latch_started s"

definition reset_registration_state :: "latch_state \<Rightarrow> latch_state" where
  "reset_registration_state s = s\<lparr>latch_started := False, stop_event := Suc (stop_event s)\<rparr>"

definition trigger_service_registration :: "bool \<Rightarrow> latch_state \<Rightarrow> bool \<times> latch_state" where
  "trigger_service_registration enabled s =
    (if \<not> enabled then (False, s)
     else if latch_started s then (False, s)
     else (True, s\<lparr>latch_started := True, registering := Suc (registering s)\<rparr>))"

text \<open>
  \<open>_register_and_heartbeat\<close>: a registration thread ends by reading the current stop event for the
  heartbeat it starts, unless it was not configured or the interval is not positive.
\<close>

definition finish_registering :: "bool \<Rightarrow> latch_state \<Rightarrow> latch_state" where
  "finish_registering beats s =
    s\<lparr>registering := registering s - 1,
      heartbeats := heartbeats s @ (if beats then [stop_event s] else [])\<rparr>"

text \<open>A heartbeat whose event is set returns from its next wait; one that is no longer configured returns too.\<close>

definition end_heartbeat :: "nat \<Rightarrow> latch_state \<Rightarrow> latch_state" where
  "end_heartbeat k s = s\<lparr>heartbeats := remove1 k (heartbeats s)\<rparr>"

datatype latch_event = Trigger bool | Reset | Registering_Done bool | Heartbeat_Ends nat

fun latch_step :: "latch_event \<Rightarrow> latch_state \<Rightarrow> latch_state option" where
  "latch_step (Trigger enabled) s = Some (snd (trigger_service_registration enabled s))"
| "latch_step Reset s = Some (reset_registration_state s)"
| "latch_step (Registering_Done beats) s = (if 0 < registering s then Some (finish_registering beats s) else None)"
| "latch_step (Heartbeat_Ends k) s = (if k \<in> set (heartbeats s) then Some (end_heartbeat k s) else None)"

fun latch_run :: "latch_event list \<Rightarrow> latch_state \<Rightarrow> latch_state option" where
  "latch_run [] s = Some s"
| "latch_run (e # es) s = (case latch_step e s of None \<Rightarrow> None | Some s' \<Rightarrow> latch_run es s')"

text \<open>The two wrappers trigger on a request before they call the application.\<close>

definition asgi_call :: "environ \<Rightarrow> string option \<Rightarrow> latch_state \<Rightarrow> latch_state" where
  "asgi_call env kind s =
    (if kind = Some ''http'' then snd (trigger_service_registration (registration_enabled env) s) else s)"

definition wsgi_call :: "environ \<Rightarrow> latch_state \<Rightarrow> latch_state" where
  "wsgi_call env s = snd (trigger_service_registration (registration_enabled env) s)"

section \<open>The registration loop as an attempt loop\<close>

definition register_stop :: "registration_config \<Rightarrow> pyfloat list \<Rightarrow> (nat \<Rightarrow> int res) \<Rightarrow> nat \<Rightarrow> bool res option" where
  "register_stop cfg delays answers k =
    (if length delays \<le> k then Some (Inr False) else fst (register_round cfg delays answers k))"

definition register_trace :: "registration_config \<Rightarrow> pyfloat list \<Rightarrow> (nat \<Rightarrow> int res) \<Rightarrow> nat \<Rightarrow> reg_event list" where
  "register_trace cfg delays answers k =
    (if length delays \<le> k then [] else snd (register_round cfg delays answers k))"

interpretation registering: attempt_loop "register_loop cfg delays answers" "register_stop cfg delays answers"
    "register_trace cfg delays answers" "length delays"
  for cfg delays answers
proof unfold_locales
  fix k r assume "register_stop cfg delays answers k = Some r"
  then show "register_loop cfg delays answers k = (r, register_trace cfg delays answers k)"
    by (subst register_loop.simps) (auto simp: register_stop_def register_trace_def split: prod.splits option.splits if_splits)
next
  fix k assume "register_stop cfg delays answers k = None"
  then show "register_loop cfg delays answers k =
      (fst (register_loop cfg delays answers (Suc k)),
       register_trace cfg delays answers k @ snd (register_loop cfg delays answers (Suc k)))"
    by (subst register_loop.simps) (auto simp: register_stop_def register_trace_def split: prod.splits option.splits if_splits)
qed (simp add: register_stop_def)

fun puts_of :: "reg_event list \<Rightarrow> nat list" where
  "puts_of [] = []"
| "puts_of (Put k r # es) = k # puts_of es"
| "puts_of (_ # es) = puts_of es"

fun pauses_of :: "reg_event list \<Rightarrow> pyfloat list" where
  "pauses_of [] = []"
| "pauses_of (Pause d # es) = d # pauses_of es"
| "pauses_of (_ # es) = pauses_of es"

lemma puts_of_append [simp]: "puts_of (es @ fs) = puts_of es @ puts_of fs"
  by (induction es rule: puts_of.induct) auto

lemma pauses_of_append [simp]: "pauses_of (es @ fs) = pauses_of es @ pauses_of fs"
  by (induction es rule: pauses_of.induct) auto

text \<open>One round of the loop, with a delay that \<open>sleep\<close> accepts.\<close>

lemma register_round_events:
  assumes "k < length delays" and "sync_sleep (delays ! k) = None"
  shows "puts_of (register_trace cfg delays answers k) = [k]"
    and "pauses_of (register_trace cfg delays answers k) = filter (\<lambda>d. d \<noteq> Fin 0) [delays ! k]"
    and "register_stop cfg delays answers k =
      (case put_outcome (answers k) of Inr _ \<Rightarrow> Some (Inr True) | Inl e \<Rightarrow> None)"
  using assms by (auto simp: register_trace_def register_stop_def register_round_def Let_def split: sum.splits)

lemma register_trace_puts:
  assumes "\<forall>d \<in> set delays. sync_sleep d = None" and "n \<le> length delays"
  shows "puts_of (concat (map (register_trace cfg delays answers) [0..<n])) = [0..<n]"
    and "pauses_of (concat (map (register_trace cfg delays answers) [0..<n])) = filter (\<lambda>d. d \<noteq> Fin 0) (take n delays)"
  using assms(2)
proof (induction n)
  case (Suc n)
  { case 1 with Suc assms(1) show ?case by (simp add: register_round_events) }
  { case 2 with Suc assms(1) show ?case by (simp add: register_round_events take_Suc_conv_app_nth) }
qed simp_all

section \<open>Properties\<close>

definition accepted :: "int res \<Rightarrow> bool" where
  "accepted answer = (case put_outcome answer of Inr _ \<Rightarrow> True | Inl e \<Rightarrow> False)"

text \<open>
  Registration tries along the list of delays and no further: with delays \<open>sleep\<close> accepts, it
  makes some number \<open>n\<close> of PUTs, numbered without gaps and at most one per delay, pausing the
  non-zero delays before them in order; every PUT before the last failed; it answers True exactly
  when the last one was accepted, and gives up, answering False, only when every delay was used. No
  failure of the network or of update-service escapes it.
\<close>

theorem register_along_delays:
  assumes "registration_payload env = Some cfg" and "\<forall>d \<in> set delays. sync_sleep d = None"
  shows "\<exists>n ok. n \<le> length delays \<and> fst (register env delays answers) = Inr ok
    \<and> puts_of (snd (register env delays answers)) = [0..<n]
    \<and> pauses_of (snd (register env delays answers)) = filter (\<lambda>d. d \<noteq> Fin 0) (take n delays)
    \<and> (if ok then 0 < n \<and> accepted (answers (n - 1)) \<and> (\<forall>i < n - 1. \<not> accepted (answers i))
       else n = length delays \<and> (\<forall>i < n. \<not> accepted (answers i)))"
proof -
  let ?run = "register_loop cfg delays answers" and ?tr = "register_trace cfg delays answers"
  obtain m r where m: "m \<le> length delays" "\<forall>i. 0 \<le> i \<and> i < m \<longrightarrow> register_stop cfg delays answers i = None"
    "register_stop cfg delays answers m = Some r" "?run 0 = (r, concat (map ?tr [0..<Suc m]))"
    using registering.run_first_stop [of 0 delays cfg answers] by blast
  have failed: "\<not> accepted (answers i)" if "i < m" for i
    using m(1,2) that assms(2) register_round_events(3) [of i delays cfg answers]
    by (auto simp: accepted_def split: sum.splits)
  have run: "register env delays answers = (r, concat (map ?tr [0..<Suc m]))"
    using assms(1) m(4) by (simp add: register_def)
  show ?thesis
  proof (cases "m = length delays")
    case True
    with m(3) have "r = Inr False" by (simp add: register_stop_def)
    moreover have "?tr m = []" using True by (simp add: register_trace_def)
    ultimately show ?thesis
      using run True failed register_trace_puts [OF assms(2), of m cfg answers]
      by (intro exI [of _ m] exI [of _ False]) auto
  next
    case False
    with m(1) have lt: "m < length delays" by simp
    then have "accepted (answers m) \<and> r = Inr True"
      using m(3) assms(2) register_round_events(3) [of m delays cfg answers]
      by (auto simp: accepted_def split: sum.splits)
    with run failed lt register_trace_puts [OF assms(2), of "Suc m" cfg answers] show ?thesis
      by (intro exI [of _ "Suc m"] exI [of _ True]) auto
  qed
qed

abbreviation full_environ :: environ where
  "full_environ \<equiv> (\<lambda>name. if name = ENABLED_ENV then Some ''true'' else Some ''x'')"

lemma full_environ_configured: "registration_payload full_environ \<noteq> None"
  by (simp add: registration_payload_def registration_enabled_def missing_registration_def env_text_def env_str_def
      env_bool_def parse_bool_def lookup_def REGISTRATION_FIELDS_def ENABLED_ENV_def URL_ENV_def TOKEN_ENV_def
      TRUTHY_def text_eval)

lemma default_delays_accepted: "\<forall>d \<in> set RETRY_DELAYS. sync_sleep d = None"
  by (simp add: RETRY_DELAYS_def sync_sleep_def)

lemma register_along_delays_witness:
  "fst (register full_environ RETRY_DELAYS (\<lambda>k. Inr 503)) = Inr False
    \<and> puts_of (snd (register full_environ RETRY_DELAYS (\<lambda>k. Inr 503))) = [0..<8]"
proof -
  obtain cfg where "registration_payload full_environ = Some cfg" using full_environ_configured by blast
  moreover have "\<not> accepted (Inr 503)" and "length RETRY_DELAYS = 8"
    by (simp_all add: accepted_def put_outcome_def RETRY_DELAYS_def)
  ultimately show ?thesis
    using register_along_delays [OF _ default_delays_accepted, of full_environ cfg "\<lambda>k. Inr 503"]
    by (auto split: if_splits)
qed

text \<open>
  What is registered is complete: there is something to send exactly when registration is
  enabled and every variable it needs is set, and then the URL, the token and all seven fields of
  the payload are non-empty, in the order of the table.
\<close>

theorem payload_complete:
  "(registration_payload env \<noteq> None \<longleftrightarrow> registration_enabled env
      \<and> (\<forall>name \<in> set (URL_ENV # TOKEN_ENV # map snd REGISTRATION_FIELDS). env_text env name \<noteq> []))
   \<and> (case registration_payload env of None \<Rightarrow> True
      | Some (url, token, payload) \<Rightarrow> url \<noteq> [] \<and> token \<noteq> [] \<and> dict_keys payload = dict_keys REGISTRATION_FIELDS
          \<and> list_all (\<lambda>(f, v). v \<noteq> []) payload)"
proof -
  have "missing_registration env = [] \<longleftrightarrow>
      (\<forall>name \<in> set (URL_ENV # TOKEN_ENV # map snd REGISTRATION_FIELDS). env_text env name \<noteq> [])"
    by (auto simp: missing_registration_def filter_empty_conv)
  moreover have "dict_keys (map (\<lambda>(f, name). (f, env_text env name)) REGISTRATION_FIELDS) = dict_keys REGISTRATION_FIELDS"
    by (simp add: dict_keys_def case_prod_beta o_def)
  ultimately show ?thesis
    by (auto simp: registration_payload_def list_all_iff)
qed

lemma payload_complete_witness: "registration_payload full_environ \<noteq> None"
proof -
  have "registration_enabled full_environ"
    and "\<forall>name \<in> set (URL_ENV # TOKEN_ENV # map snd REGISTRATION_FIELDS). env_text full_environ name \<noteq> []"
    by (simp_all add: registration_enabled_def env_text_def env_str_def env_bool_def parse_bool_def lookup_def
        REGISTRATION_FIELDS_def ENABLED_ENV_def URL_ENV_def TOKEN_ENV_def TRUTHY_def text_eval)
  then show ?thesis using payload_complete [of full_environ, THEN conjunct1] by blast
qed

text \<open>
  C29. The heartbeat neither stops early nor outlives its stop event: while it is configured and not
  stopped it sends one PUT per wait, whatever update-service answers, and it returns at the first
  wait that finds the event set or the registration unconfigured, having sent exactly one PUT for
  each wait before.
\<close>

theorem heartbeat_until_stopped:
  assumes "\<forall>i < n. \<not> stopped (k + i) \<and> registration_payload (env (k + i)) \<noteq> None"
  shows "(fuel \<le> n \<longrightarrow> fst (heartbeat fuel stopped env answers k) = False
        \<and> puts_of (snd (heartbeat fuel stopped env answers k)) = [k..<k + fuel])
    \<and> (n < fuel \<and> (stopped (k + n) \<or> registration_payload (env (k + n)) = None) \<longrightarrow>
        fst (heartbeat fuel stopped env answers k) = True
        \<and> puts_of (snd (heartbeat fuel stopped env answers k)) = [k..<k + n])"
  using assms
proof (induction fuel arbitrary: n k)
  case 0
  then show ?case by simp
next
  case (Suc fuel)
  show ?case
  proof (cases n)
    case 0
    then show ?thesis by (auto split: option.splits)
  next
    case (Suc m)
    from Suc.prems Suc obtain cfg where now: "\<not> stopped k" "registration_payload (env k) = Some cfg" by fastforce
    from Suc.prems Suc have "\<forall>i < m. \<not> stopped (Suc k + i) \<and> registration_payload (env (Suc k + i)) \<noteq> None" by auto
    from Suc.IH [OF this] now Suc show ?thesis
      by (auto simp: split_def upt_conv_Cons split: sum.splits)
  qed
qed

lemma heartbeat_until_stopped_witness:
  "puts_of (snd (heartbeat 9 (\<lambda>k. k = 3) (\<lambda>k. full_environ) (\<lambda>k. Inr 503) 0)) = [0..<3]"
proof -
  have "\<forall>i < 3::nat. \<not> (0 + i = 3) \<and> registration_payload full_environ \<noteq> None"
    using full_environ_configured by auto
  from heartbeat_until_stopped [of 3 "\<lambda>k. k = 3" 0 "\<lambda>k. full_environ", OF this, of 9 "\<lambda>k. Inr 503"]
  show ?thesis by simp
qed

text \<open>Resets that find no registration thread still under way.\<close>

fun well_timed :: "latch_event list \<Rightarrow> latch_state \<Rightarrow> bool" where
  "well_timed [] s = True"
| "well_timed (e # es) s =
    ((e = Reset \<longrightarrow> registering s = 0) \<and>
     (case latch_step e s of None \<Rightarrow> True | Some s' \<Rightarrow> well_timed es s'))"

definition one_registration :: "latch_state \<Rightarrow> bool" where
  "one_registration s \<longleftrightarrow> registering s + count_list (heartbeats s) (stop_event s) \<le> (if latch_started s then 1 else 0)
    \<and> (\<forall>k \<in> set (heartbeats s). k \<le> stop_event s)"

lemma count_list_remove1 [simp]:
  "count_list (remove1 k xs) j = (if j = k then count_list xs j - 1 else count_list xs j)"
  by (induction xs) (auto simp: count_list_0_iff)

lemma one_registration_step:
  assumes "latch_step e s = Some s'" and "e = Reset \<longrightarrow> registering s = 0" and "one_registration s"
  shows "one_registration s'"
proof (cases e)
  case Reset
  with assms show ?thesis
    by (fastforce simp: one_registration_def reset_registration_state_def count_list_0_iff dest: bspec intro: le_SucI)
next
  case (Trigger enabled)
  with assms show ?thesis
    by (auto simp: one_registration_def trigger_service_registration_def split: if_splits)
next
  case (Registering_Done beats)
  with assms show ?thesis
    by (auto simp: one_registration_def finish_registering_def split: if_splits)
next
  case (Heartbeat_Ends k)
  with assms show ?thesis
    by (auto simp: one_registration_def end_heartbeat_def split: if_splits dest: notin_set_remove1)
qed

lemma one_registration_run:
  "latch_run es s = Some s' \<Longrightarrow> well_timed es s \<Longrightarrow> one_registration s \<Longrightarrow> one_registration s'"
proof (induction es arbitrary: s)
  case (Cons e es)
  then show ?case using one_registration_step by (auto split: option.splits)
qed simp

text \<open>
  C28. One registration per process: however requests trigger it, threads finish and heartbeats end,
  as long as the latch is only reset when no registration thread is under way, at most one
  registration thread or heartbeat is live on the current stop event, none when the latch is open,
  and every other heartbeat still alive has had its event set, so its next wait ends it.
\<close>

theorem latch_registers_once:
  assumes "latch_run es initial_latch = Some s" and "well_timed es initial_latch"
  shows "registering s + count_list (heartbeats s) (stop_event s) \<le> (if latch_started s then 1 else 0)
    \<and> (\<forall>k \<in> set (heartbeats s). k \<noteq> stop_event s \<longrightarrow> k < stop_event s)"
proof -
  have "one_registration initial_latch" by (simp add: one_registration_def initial_latch_def)
  with one_registration_run [OF assms] show ?thesis by (auto simp: one_registration_def)
qed

lemma latch_registers_once_witness:
  "\<exists>s. latch_run [Trigger True, Trigger True, Registering_Done True, Reset, Trigger True] initial_latch = Some s
    \<and> registering s + count_list (heartbeats s) (stop_event s) \<le> 1"
proof -
  let ?es = "[Trigger True, Trigger True, Registering_Done True, Reset, Trigger True]"
  obtain s where s: "latch_run ?es initial_latch = Some s"
    by (simp add: initial_latch_def trigger_service_registration_def finish_registering_def reset_registration_state_def)
  moreover have "well_timed ?es initial_latch"
    by (simp add: initial_latch_def trigger_service_registration_def finish_registering_def reset_registration_state_def)
  ultimately have "registering s + count_list (heartbeats s) (stop_event s) \<le> (if latch_started s then 1 else 0)"
    using latch_registers_once by blast
  then have "registering s + count_list (heartbeats s) (stop_event s) \<le> 1"
    by (rule le_trans) simp
  with s show ?thesis by blast
qed

text \<open>
  The stop event is read when registration ends, not when it was triggered: a reset while a
  registration thread is under way does not stop the heartbeat that thread goes on to start, and a
  second trigger adds another, so two heartbeats run on the same unset event.
\<close>

theorem reset_during_registration_doubles_heartbeat:
  "\<exists>s. latch_run [Trigger True, Reset, Trigger True, Registering_Done True, Registering_Done True] initial_latch = Some s
    \<and> heartbeats s = [stop_event s, stop_event s]"
  by (simp add: initial_latch_def trigger_service_registration_def finish_registering_def reset_registration_state_def)

end
