(* ===== verification/Discovery.thy ===== *)
theory Discovery
  imports Registration
begin

text \<open>
  \<open>netix_backend/discovery.py\<close>: peer URLs and frontend origins from update-service's registry,
  cached per process. The snapshot is the module's state; a lookup, the end of a refresh and a
  reset are its operations. The registry's answer is an argument: its entries are JSON objects with
  string values.
\<close>

section \<open>The discovery route\<close>

definition ENVIRONMENT_ENV :: string where "ENVIRONMENT_ENV = ''SERVICE_REGISTRATION_ENVIRONMENT''"
definition CACHE_SECONDS :: real where "CACHE_SECONDS = 60"

text \<open>
  \<open>urljoin(base, "../discovery/")\<close> of the standard library, for a base made of scheme, authority
  and path: the last part of the path is dropped unless it is empty, the relative parts are
  appended, empty parts in the middle are dropped and the dots are resolved.
\<close>

definition uses_relative :: "string list" where
  "uses_relative = [[], ''ftp'', ''http'', ''gopher'', ''nntp'', ''imap'', ''wais'', ''file'', ''https'', ''shttp'',
    ''mms'', ''prospero'', ''rtsp'', ''rtsps'', ''rtspu'', ''sftp'', ''svn'', ''svn+ssh'', ''ws'', ''wss'']"

fun split_scheme :: "string \<Rightarrow> string \<Rightarrow> (string \<times> string) option" where
  "split_scheme acc [] = None"
| "split_scheme acc (c # cs) =
    (if c = CHR '':'' then (if take 2 cs = ''//'' then Some (rev acc, drop 2 cs) else None)
     else split_scheme (c # acc) cs)"

definition slash :: char where "slash = CHR ''/''"

definition split_url :: "string \<Rightarrow> string \<times> string \<times> string" where
  "split_url url =
    (case split_scheme [] url of
      None \<Rightarrow> ([], [], url)
    | Some (scheme, rest) \<Rightarrow> (scheme, takeWhile (\<lambda>c. c \<noteq> slash) rest, dropWhile (\<lambda>c. c \<noteq> slash) rest))"

fun resolve_dots :: "string list \<Rightarrow> string list \<Rightarrow> string list" where
  "resolve_dots acc [] = rev acc"
| "resolve_dots acc (seg # segs) =
    (if seg = ''..'' then resolve_dots (tl acc) segs
     else if seg = ''.'' then resolve_dots acc segs
     else resolve_dots (seg # acc) segs)"

definition drop_middle_empties :: "string list \<Rightarrow> string list" where
  "drop_middle_empties segs =
    (case segs of [] \<Rightarrow> [] | [x] \<Rightarrow> [x]
     | x # y # zs \<Rightarrow> x # filter (\<lambda>s. s \<noteq> []) (butlast (y # zs)) @ [last (y # zs)])"

definition sibling_path :: "string \<Rightarrow> string" where
  "sibling_path path =
    (let parts = split_on slash path;
         base_parts = (if last parts \<noteq> [] then butlast parts else parts);
         joined = join ''/'' (resolve_dots [] (drop_middle_empties (base_parts @ [''..'', ''discovery'', []])))
     in if joined = [] then ''/'' else joined)"

definition join_discovery :: "string \<Rightarrow> string" where
  "join_discovery base =
    (case split_url base of (scheme, netloc, path) \<Rightarrow>
      if scheme \<notin> set uses_relative then ''../discovery/''
      else if scheme = [] then sibling_path path
      else scheme @ ''://'' @ netloc @ sibling_path path)"

definition discovery_url :: "environ \<Rightarrow> string option" where
  "discovery_url env =
    (case lookup env URL_ENV of None \<Rightarrow> None
     | Some registration_url \<Rightarrow> if registration_url = [] then None else Some (join_discovery registration_url))"

section \<open>Reading the registry\<close>

type_synonym entry = "(string, string) dict"

definition entry_text :: "entry \<Rightarrow> string \<Rightarrow> string" where
  "entry_text e k = the_default [] (dict_get e k)"

definition rstrip_slash :: "string \<Rightarrow> string" where
  "rstrip_slash s = rev (dropWhile (\<lambda>c. c = slash) (rev s))"

text \<open>The two comprehensions; a live entry with no name is a \<open>KeyError\<close>.\<close>

fun entry_urls :: "entry list \<Rightarrow> (string, string) dict \<Rightarrow> (string, string) dict option" where
  "entry_urls [] urls = Some urls"
| "entry_urls (e # es) urls =
    (if entry_text e ''internal_base_url'' = [] then entry_urls es urls
     else case dict_get e ''name'' of
        None \<Rightarrow> None
      | Some name \<Rightarrow> entry_urls es (dict_set name (entry_text e ''internal_base_url'') urls))"

definition entry_origins :: "entry list \<Rightarrow> string set" where
  "entry_origins es = set (map (\<lambda>e. rstrip_slash (entry_text e ''base_url''))
    (filter (\<lambda>e. dict_get e ''kind'' = Some ''frontend'' \<and> entry_text e ''base_url'' \<noteq> []) es))"

type_synonym fetched = "(string, string) dict \<times> string set"

text \<open>
  \<open>answer\<close> is what the registry answers to the request: its \<open>services\<close>, or an exception. Every
  exception is logged and gives nothing.
\<close>

definition fetch :: "environ \<Rightarrow> entry list res \<Rightarrow> fetched option" where
  "fetch env answer =
    (case (discovery_url env, lookup env TOKEN_ENV, lookup env ENVIRONMENT_ENV) of
      (Some url, Some token, Some environment) \<Rightarrow>
        if url = [] \<or> token = [] \<or> environment = [] then None
        else (case answer of
            Inl e \<Rightarrow> None
          | Inr services \<Rightarrow>
              (case entry_urls services [] of
                None \<Rightarrow> None
              | Some urls \<Rightarrow> Some (urls, entry_origins services)))
    | _ \<Rightarrow> None)"

section \<open>The cached snapshot\<close>

record snapshot =
  expires :: "real option"
  urls :: "(string, string) dict"
  origins :: "string set"

definition empty_snapshot :: snapshot where
  "empty_snapshot = \<lparr>expires = None, urls = [], origins = {}\<rparr>"

definition refresh :: "fetched option \<Rightarrow> snapshot \<Rightarrow> snapshot" where
  "refresh got s = (case got of None \<Rightarrow> s | Some (u, os) \<Rightarrow> s\<lparr>urls := u, origins := os\<rparr>)"

text \<open>What a lookup does about refreshing: nothing, fetch before answering, or start a thread.\<close>

datatype refresh_kind = Fresh | Blocking | Background

text \<open>\<open>got\<close> is the result of the fetch a first lookup makes.\<close>

definition current :: "real \<Rightarrow> fetched option \<Rightarrow> snapshot \<Rightarrow> refresh_kind \<times> snapshot" where
  "current now got s =
    (case expires s of
      None \<Rightarrow> (Blocking, refresh got (s\<lparr>expires := Some (now + CACHE_SECONDS)\<rparr>))
    | Some e \<Rightarrow>
        if e \<le> now then (Background, s\<lparr>expires := Some (now + CACHE_SECONDS)\<rparr>)
        else (Fresh, s))"

definition discovered_urls :: "snapshot \<Rightarrow> (string, string) dict" where
  "discovered_urls s = urls s"

definition frontend_origins :: "snapshot \<Rightarrow> string set" where
  "frontend_origins s = origins s"

definition service_url :: "environ \<Rightarrow> snapshot \<Rightarrow> string \<Rightarrow> string option \<Rightarrow> string option" where
  "service_url env s name fallback_env =
    (case dict_get (discovered_urls s) name of
      Some url \<Rightarrow> if url \<noteq> [] then Some url else (case fallback_env of None \<Rightarrow> None | Some f \<Rightarrow> if f = [] then None else lookup env f)
    | None \<Rightarrow> (case fallback_env of None \<Rightarrow> None | Some f \<Rightarrow> if f = [] then None else lookup env f))"

definition reset_discovery_cache :: "snapshot \<Rightarrow> snapshot" where
  "reset_discovery_cache s = empty_snapshot"

text \<open>A history of the module: lookups at their times with the fetch they would make, and the
  refreshes in the background as they end.\<close>

datatype discovery_event = Lookup real "fetched option" | Refresh_Ends "fetched option"

fun discovery_run :: "discovery_event list \<Rightarrow> snapshot \<Rightarrow> real list \<times> snapshot" where
  "discovery_run [] s = ([], s)"
| "discovery_run (Lookup now got # es) s =
    (let (kind, s') = current now got s; (ts, s'') = discovery_run es s'
     in (if kind = Fresh then ts else now # ts, s''))"
| "discovery_run (Refresh_Ends got # es) s = discovery_run es (refresh got s)"

section \<open>Lemmas\<close>

lemma expires_refresh [simp]: "expires (refresh got s) = expires s"
  by (auto simp: refresh_def split: option.splits)

lemma refresh_urls: "urls (refresh got s) = (case got of None \<Rightarrow> urls s | Some (u, os) \<Rightarrow> u)"
  by (auto simp: refresh_def split: option.splits)

lemma discovery_run_Lookup:
  "discovery_run (Lookup now got # es) s =
    ((if fst (current now got s) = Fresh then fst (discovery_run es (snd (current now got s)))
      else now # fst (discovery_run es (snd (current now got s)))),
     snd (discovery_run es (snd (current now got s))))"
  by (simp add: split_def Let_def)

lemma discovery_run_after:
  assumes "expires s = Some e"
  shows "sorted_wrt (\<lambda>a b. a + CACHE_SECONDS \<le> b) (fst (discovery_run es s)) \<and>
    (\<forall>t \<in> set (fst (discovery_run es s)). e \<le> t)"
  using assms
proof (induction es arbitrary: s e)
  case Nil
  then show ?case by simp
next
  case (Cons ev es)
  show ?case
  proof (cases ev)
    case (Lookup now got)
    show ?thesis
    proof (cases "e \<le> now")
      case True
      with Cons.prems have c: "current now got s = (Background, s\<lparr>expires := Some (now + CACHE_SECONDS)\<rparr>)"
        by (simp add: current_def)
      from Cons.IH [of "s\<lparr>expires := Some (now + CACHE_SECONDS)\<rparr>" "now + CACHE_SECONDS"] True Lookup c
      show ?thesis by (auto simp: discovery_run_Lookup CACHE_SECONDS_def simp del: discovery_run.simps(2))
    next
      case False
      with Cons.prems have "current now got s = (Fresh, s)" by (simp add: current_def)
      with Cons.IH [OF Cons.prems] Lookup show ?thesis by (simp add: discovery_run_Lookup del: discovery_run.simps(2))
    qed
  next
    case (Refresh_Ends got)
    with Cons.IH [of "refresh got s" e] Cons.prems show ?thesis by simp
  qed
qed

lemma discovery_run_spaced:
  "sorted_wrt (\<lambda>a b. a + CACHE_SECONDS \<le> b) (fst (discovery_run es s))"
proof (cases "expires s")
  case (Some e)
  then show ?thesis using discovery_run_after by blast
next
  case None
  then show ?thesis
  proof (induction es arbitrary: s)
    case (Cons ev es)
    show ?case
    proof (cases ev)
      case (Lookup now got)
      let ?s = "refresh got (s\<lparr>expires := Some (now + CACHE_SECONDS)\<rparr>)"
      have "current now got s = (Blocking, ?s)" using Cons.prems by (simp add: current_def)
      with Lookup discovery_run_after [of ?s "now + CACHE_SECONDS" es] show ?thesis
        by (simp add: discovery_run_Lookup del: discovery_run.simps(2))
    qed (use Cons in simp)
  qed simp
qed

text \<open>The registry's last successful answer in a history.\<close>

fun last_answer :: "fetched option \<Rightarrow> snapshot \<Rightarrow> discovery_event list \<Rightarrow> fetched option" where
  "last_answer a s [] = a"
| "last_answer a s (Lookup now got # es) =
    last_answer (if expires s = None \<and> got \<noteq> None then got else a) (snd (current now got s)) es"
| "last_answer a s (Refresh_Ends got # es) =
    last_answer (if got \<noteq> None then got else a) (refresh got s) es"

lemma discovery_run_answer:
  "(urls (snd (discovery_run es s)), origins (snd (discovery_run es s))) =
    the_default (urls s, origins s) (last_answer None s es)"
proof -
  have "(urls (snd (discovery_run es s)), origins (snd (discovery_run es s))) = the_default d (last_answer a s es)"
    if "(urls s, origins s) = the_default d a" for a d
    using that
  proof (induction es arbitrary: s a)
    case Nil
    then show ?case by simp
  next
    case (Cons ev es)
    show ?case
    proof (cases ev)
      case (Lookup now got)
      have "(urls (snd (current now got s)), origins (snd (current now got s))) =
          the_default d (if expires s = None \<and> got \<noteq> None then got else a)"
        using Cons.prems by (auto simp: current_def refresh_def split: option.splits)
      from Cons.IH [OF this] Lookup show ?thesis
        by (simp add: discovery_run_Lookup del: discovery_run.simps(2))
    next
      case (Refresh_Ends got)
      have "(urls (refresh got s), origins (refresh got s)) = the_default d (if got \<noteq> None then got else a)"
        using Cons.prems by (auto simp: refresh_def split: option.splits)
      from Cons.IH [OF this] Refresh_Ends show ?thesis by simp
    qed
  qed
  from this [of "(urls s, origins s)" None] show ?thesis by simp
qed

section \<open>Properties\<close>

text \<open>
  C30. The registry is asked at most once a minute, and only the very first lookup waits for it:
  in any history of lookups and finished refreshes, at whatever times, the requests to the registry
  are at least \<open>CACHE_SECONDS\<close> apart, whether they succeed or not.
\<close>

theorem registry_asked_once_a_minute:
  "sorted_wrt (\<lambda>a b. a + CACHE_SECONDS \<le> b) (fst (discovery_run es s))"
  by (rule discovery_run_spaced)

text \<open>
  C31. Outages do not lose peers: whatever lookups and failed refreshes come after, a service's URL
  is the one of the registry's last successful answer, and the environment is only consulted when
  that answer has no URL for it.
\<close>

theorem urls_kept_through_outages:
  "service_url env (snd (discovery_run es s)) name fallback_env =
    (case dict_get (fst (the_default (urls s, origins s) (last_answer None s es))) name of
      Some url \<Rightarrow> if url \<noteq> [] then Some url else service_url env empty_snapshot name fallback_env
    | None \<Rightarrow> service_url env empty_snapshot name fallback_env)"
proof -
  have "urls (snd (discovery_run es s)) = fst (the_default (urls s, origins s) (last_answer None s es))"
    using discovery_run_answer [of es s] by (metis fst_conv)
  then show ?thesis
    by (simp add: service_url_def discovered_urls_def empty_snapshot_def split: option.splits)
qed

end
