(* ===== verification/Static_Files.thy ===== *)
theory Static_Files
  imports Discovery Py_Value
begin

text \<open>
  \<open>netix_backend/http/static.py\<close>: uploads to and downloads from static-service. Both helpers own
  the same attempt loop around one request; what differs is which answers end it. The answers of the
  service, the draws of the jitter and the texts of exceptions are the world the loop runs against.
\<close>

section \<open>Configuration\<close>

definition UPLOAD_PATH :: string where "UPLOAD_PATH = ''/api/static/''"
definition DEFAULT_TIMEOUT_SECONDS :: pyfloat where "DEFAULT_TIMEOUT_SECONDS = Fin 30"
definition ACCEPTED_UPLOAD_STATUS :: "int list" where "ACCEPTED_UPLOAD_STATUS = [200, 201]"

record static_client =
  client_base_url :: string
  client_authorization :: string
  client_timeout :: pyfloat
  client_retries :: "int option"
    \<comment> \<open>the retries of the transport it builds, none when one is given\<close>
  client_verify :: bool

text \<open>Every part is read from the environment, in the order the code evaluates them.\<close>

definition build_static_client :: "environ \<Rightarrow> snapshot \<Rightarrow> pyfloat option \<Rightarrow> bool \<Rightarrow> static_client res" where
  "build_static_client env snap timeout given_transport =
    rbind (case timeout of None \<Rightarrow> env_float env ''STATIC_SVC_TIMEOUT'' DEFAULT_TIMEOUT_SECONDS | Some t \<Rightarrow> Inr t)
      (\<lambda>seconds.
    rbind (case service_url env snap ''static-service'' None of
        Some url \<Rightarrow> Inr url
      | None \<Rightarrow> rbind (env_str env ''STATIC_SVC_URL'' None True) (\<lambda>u. Inr (the_default [] u)))
      (\<lambda>url.
    rbind (service_authorization env [''STATIC_SVC_AUTH''] default_credential)
      (\<lambda>authorization.
      Inr \<lparr>client_base_url = url, client_authorization = authorization, client_timeout = seconds,
        client_retries = (if given_transport then None else Some 0),
        client_verify = env_bool env ''STATIC_SVC_VERIFY_SSL'' (Default_Bool False)\<rparr>)))"

text \<open>The environment variables of the two retry settings.\<close>

definition static_attempts :: "environ \<Rightarrow> bound_settings \<Rightarrow> int option \<Rightarrow> int res" where
  "static_attempts env bound retries' =
    rbind (case retries' of None \<Rightarrow> default_retries env bound | Some n \<Rightarrow> Inr n) (\<lambda>n. Inr (n + 1))"

section \<open>Answers\<close>

text \<open>
  What a response offers: its status, its text, its bytes, and its body as JSON, which may raise.
\<close>

record static_response =
  static_status :: int
  static_text :: string
  static_content :: string
  static_json :: "row res"

text \<open>\<open>{...!r}\<close> of a string and of a row.\<close>

definition row_repr :: "row \<Rightarrow> string" where
  "row_repr r = py_repr (VDict (map (\<lambda>(k, v). (VStr k, v)) r))"

definition upload_payload :: "static_response \<Rightarrow> row res" where
  "upload_payload r =
    rbind (static_json r) (\<lambda>payload.
      if \<not> truthy (get_val payload ''link'')
      then Inl (Static_Service_Error (''static-service upload response carries no 'link': '' @ row_repr payload))
      else Inr (if dict_get payload ''file'' = None
                then dict_set ''file'' (get_val payload ''link'') payload else payload))"

definition failed_text :: "string \<Rightarrow> static_response \<Rightarrow> string" where
  "failed_text what r =
    ''static-service '' @ what @ '' failed: status='' @ int_str (static_status r) @
    '' body='' @ repr_str (take 200 (static_text r))"

text \<open>Which answers end the loop, and how; none for a transient one.\<close>

definition upload_verdict :: "static_response \<Rightarrow> row res option" where
  "upload_verdict r =
    (if static_status r \<in> set ACCEPTED_UPLOAD_STATUS then Some (upload_payload r)
     else if \<not> is_retryable_status (static_status r) then Some (Inl (Static_Service_Error (failed_text ''upload'' r)))
     else None)"

definition fetch_verdict :: "string \<Rightarrow> static_response \<Rightarrow> static_response res option" where
  "fetch_verdict link r =
    (if static_status r = 200 then Some (Inr r)
     else if static_status r = 404
     then Some (Inl (Static_File_Expired
       (''static-service file not found at '' @ repr_str link @ '' (likely past retention)'')))
     else if \<not> is_retryable_status (static_status r) then Some (Inl (Static_Service_Error (failed_text ''download'' r)))
     else None)"

section \<open>The attempt loop\<close>

record static_world =
  answer :: "nat \<Rightarrow> exc + static_response"
  jitter :: "nat \<Rightarrow> real"
  exc_repr :: "exc \<Rightarrow> string"

datatype static_event = Call nat | Rest pyfloat

text \<open>The error an attempt leaves behind when it does not end the loop.\<close>

definition attempt_error :: "string \<Rightarrow> static_world \<Rightarrow> int \<Rightarrow> nat \<Rightarrow> exc" where
  "attempt_error what w attempts k =
    Static_Service_Error
      (case answer w k of
        Inl e \<Rightarrow> ''static-service '' @ what @ '' could not reach the service: '' @ exc_repr w e
      | Inr r \<Rightarrow> ''static-service '' @ what @ '' returned '' @ int_str (static_status r) @
          '' (attempt '' @ nat_str (Suc k) @ ''/'' @ int_str attempts @ '')'')"

text \<open>One attempt: a final result, or another round after the error it leaves.\<close>

definition static_attempt :: "(static_response \<Rightarrow> 'a res option) \<Rightarrow> static_world \<Rightarrow> nat \<Rightarrow> 'a res option" where
  "static_attempt verdict w k =
    (case answer w k of
      Inl e \<Rightarrow> if retryable_exc e then None else Some (Inl e)
    | Inr r \<Rightarrow> verdict r)"

definition no_attempts :: "string \<Rightarrow> exc" where
  "no_attempts what = Static_Service_Error (''static-service '' @ what @ '' made no attempts; retries must be >= 0'')"

function static_loop ::
    "string \<Rightarrow> (static_response \<Rightarrow> 'a res option) \<Rightarrow> static_world \<Rightarrow> int \<Rightarrow> pyfloat \<Rightarrow> exc \<Rightarrow> nat
      \<Rightarrow> 'a res \<times> static_event list" where
  "static_loop what verdict w attempts backoff pending k =
    (if attempts \<le> int k then (Inl pending, [])
     else (case static_attempt verdict w k of
        Some r \<Rightarrow> (r, [Call k])
      | None \<Rightarrow>
          let last' = attempt_error what w attempts k; d = jittered_backoff backoff k (jitter w k) in
          if int k + 1 < attempts then
            (case sync_sleep d of
              Some e \<Rightarrow> (Inl e, [Call k])
            | None \<Rightarrow>
                (let (r, es) = static_loop what verdict w attempts backoff last' (Suc k)
                 in (r, Call k # Rest d # es)))
          else
            (let (r, es) = static_loop what verdict w attempts backoff last' (Suc k) in (r, Call k # es))))"
  by pat_completeness auto
termination by (relation "measure (\<lambda>(what, v, w, attempts, b, l, k). nat (attempts - int k))") auto

declare static_loop.simps [simp del]

definition static_upload :: "static_world \<Rightarrow> int \<Rightarrow> pyfloat \<Rightarrow> row res \<times> static_event list" where
  "static_upload w attempts backoff =
    static_loop ''upload'' upload_verdict w attempts backoff (no_attempts ''upload'') 0"

definition static_download :: "string \<Rightarrow> static_world \<Rightarrow> int \<Rightarrow> pyfloat \<Rightarrow> static_response res \<times> static_event list" where
  "static_download link w attempts backoff =
    static_loop ''download'' (fetch_verdict link) w attempts backoff (no_attempts ''download'') 0"

fun is_service_error :: "exc \<Rightarrow> bool" where
  "is_service_error (Static_Service_Error m) = True"
| "is_service_error (Static_File_Expired m) = True"
| "is_service_error e = False"

text \<open>The link, or the empty string after a service error; any other exception passes.\<close>

definition link_or_empty :: "static_world \<Rightarrow> int \<Rightarrow> pyfloat \<Rightarrow> string res" where
  "link_or_empty w attempts backoff =
    (case fst (static_upload w attempts backoff) of
      Inr payload \<Rightarrow> Inr (py_str (get_val payload ''link''))
    | Inl e \<Rightarrow> if is_service_error e then Inr [] else Inl e)"

definition static_fetch :: "string \<Rightarrow> static_world \<Rightarrow> int \<Rightarrow> pyfloat \<Rightarrow> string res" where
  "static_fetch link w attempts backoff =
    rbind (fst (static_download link w attempts backoff)) (\<lambda>r. Inr (static_content r))"

definition static_fetch_text :: "string \<Rightarrow> static_world \<Rightarrow> int \<Rightarrow> pyfloat \<Rightarrow> string res" where
  "static_fetch_text link w attempts backoff =
    rbind (fst (static_download link w attempts backoff)) (\<lambda>r. Inr (static_text r))"

section \<open>The loop as an attempt loop\<close>

text \<open>The error pending when round \<open>k\<close> begins: that of the round before.\<close>

definition pending_error :: "string \<Rightarrow> static_world \<Rightarrow> int \<Rightarrow> nat \<Rightarrow> exc" where
  "pending_error what w attempts k = (if k = 0 then no_attempts what else attempt_error what w attempts (k - 1))"

definition static_pause :: "static_world \<Rightarrow> pyfloat \<Rightarrow> nat \<Rightarrow> pyfloat" where
  "static_pause w backoff k = jittered_backoff backoff k (jitter w k)"

definition static_stop ::
    "string \<Rightarrow> (static_response \<Rightarrow> 'a res option) \<Rightarrow> static_world \<Rightarrow> int \<Rightarrow> pyfloat \<Rightarrow> nat \<Rightarrow> 'a res option" where
  "static_stop what verdict w attempts backoff k =
    (if attempts \<le> int k then Some (Inl (pending_error what w attempts k))
     else case static_attempt verdict w k of
       Some r \<Rightarrow> Some r
     | None \<Rightarrow> if int k + 1 < attempts then map_option Inl (sync_sleep (static_pause w backoff k)) else None)"

definition static_trace ::
    "(static_response \<Rightarrow> 'a res option) \<Rightarrow> static_world \<Rightarrow> int \<Rightarrow> pyfloat \<Rightarrow> nat \<Rightarrow> static_event list" where
  "static_trace verdict w attempts backoff k =
    (if attempts \<le> int k then []
     else if static_attempt verdict w k = None \<and> int k + 1 < attempts \<and> sync_sleep (static_pause w backoff k) = None
     then [Call k, Rest (static_pause w backoff k)]
     else [Call k])"

fun is_call :: "static_event \<Rightarrow> bool" where
  "is_call (Call k) = True"
| "is_call (Rest d) = False"

interpretation service: counted_loop
    "\<lambda>k. static_loop what verdict w attempts backoff (pending_error what w attempts k) k"
    "static_stop what verdict w attempts backoff" "static_trace verdict w attempts backoff" "nat attempts" is_call
  for what verdict w attempts backoff
proof unfold_locales
  fix k r assume "static_stop what verdict w attempts backoff k = Some r"
  then show "static_loop what verdict w attempts backoff (pending_error what w attempts k) k =
      (r, static_trace verdict w attempts backoff k)"
    by (subst static_loop.simps)
      (auto simp: static_stop_def static_trace_def static_pause_def Let_def split: option.splits if_splits)
next
  fix k assume "static_stop what verdict w attempts backoff k = None"
  moreover have "pending_error what w attempts (Suc k) = attempt_error what w attempts k"
    by (simp add: pending_error_def)
  ultimately show "static_loop what verdict w attempts backoff (pending_error what w attempts k) k =
      (fst (static_loop what verdict w attempts backoff (pending_error what w attempts (Suc k)) (Suc k)),
       static_trace verdict w attempts backoff k @
         snd (static_loop what verdict w attempts backoff (pending_error what w attempts (Suc k)) (Suc k)))"
    by (subst static_loop.simps)
      (auto simp: static_stop_def static_trace_def static_pause_def Let_def split_def split: option.splits if_splits)
next
  fix k assume "nat attempts \<le> k"
  then have "attempts \<le> int k" by linarith
  then show "static_stop what verdict w attempts backoff k \<noteq> None" by (simp add: static_stop_def)
next
  fix k show "length (filter is_call (static_trace verdict w attempts backoff k)) \<le> 1"
    by (simp add: static_trace_def)
qed

fun calls_of :: "static_event list \<Rightarrow> nat list" where
  "calls_of [] = []"
| "calls_of (Call k # es) = k # calls_of es"
| "calls_of (Rest d # es) = calls_of es"

lemma calls_of_append [simp]: "calls_of (es @ fs) = calls_of es @ calls_of fs"
  by (induction es rule: calls_of.induct) auto

lemma calls_of_traces:
  "int n \<le> attempts \<Longrightarrow> calls_of (concat (map (static_trace verdict w attempts backoff) [0..<n])) = [0..<n]"
  by (induction n) (simp_all add: static_trace_def)

text \<open>The pauses of a backoff \<open>sleep\<close> accepts.\<close>

definition accepted_pauses :: "static_world \<Rightarrow> pyfloat \<Rightarrow> bool" where
  "accepted_pauses w backoff \<longleftrightarrow> (\<forall>k. sync_sleep (static_pause w backoff k) = None)"

lemma accepted_pausesI:
  assumes "0 \<le> f" and "\<And>k. 0 \<le> jitter w k"
  shows "accepted_pauses w (Fin f)"
  using assms by (simp add: accepted_pauses_def static_pause_def jittered_backoff_def sync_sleep_def not_less)

lemma static_loop_outcome:
  assumes "accepted_pauses w backoff" and "0 \<le> attempts"
  shows "\<exists>n. int n \<le> attempts \<and> (\<forall>i < n. static_attempt verdict w i = None) \<and>
    (if int n = attempts
     then static_loop what verdict w attempts backoff (no_attempts what) 0 =
       (Inl (pending_error what w attempts n), concat (map (static_trace verdict w attempts backoff) [0..<n]))
     else \<exists>r. static_attempt verdict w n = Some r \<and>
       static_loop what verdict w attempts backoff (no_attempts what) 0 =
         (r, concat (map (static_trace verdict w attempts backoff) [0..<Suc n])))"
proof -
  have p0: "pending_error what w attempts 0 = no_attempts what" by (simp add: pending_error_def)
  obtain n r where n: "n \<le> nat attempts" "\<forall>i. 0 \<le> i \<and> i < n \<longrightarrow> static_stop what verdict w attempts backoff i = None"
    "static_stop what verdict w attempts backoff n = Some r"
    and run: "static_loop what verdict w attempts backoff (pending_error what w attempts 0) 0 =
      (r, concat (map (static_trace verdict w attempts backoff) [0..<Suc n]))"
    using service.run_first_stop [of 0 attempts what verdict w backoff] by blast
  have transient: "static_attempt verdict w i = None" if "i < n" for i
    using n(2) that by (auto simp: static_stop_def split: option.splits if_splits)
  have le: "int n \<le> attempts" using n(1) assms(2) by simp
  show ?thesis
  proof (cases "int n = attempts")
    case True
    with n(3) have "r = Inl (pending_error what w attempts n)" by (simp add: static_stop_def)
    moreover have "static_trace verdict w attempts backoff n = []" using True by (simp add: static_trace_def)
    ultimately show ?thesis using run p0 True le transient by (intro exI [of _ n]) simp
  next
    case False
    with n(3) le assms(1) have "static_attempt verdict w n = Some r"
      by (auto simp: static_stop_def accepted_pauses_def split: option.splits if_splits)
    with run p0 False le transient show ?thesis by (intro exI [of _ n]) simp
  qed
qed

text \<open>
  How a run of the loop ends: \<open>n\<close> calls in order, all before the last transient; the last one's
  result, or when it was transient too, and then every attempt was made, its error.
\<close>

definition ends_with_first_final ::
    "string \<Rightarrow> (static_response \<Rightarrow> 'a res option) \<Rightarrow> static_world \<Rightarrow> int \<Rightarrow> 'a res \<times> static_event list \<Rightarrow> bool" where
  "ends_with_first_final what verdict w attempts outcome \<longleftrightarrow>
    (\<exists>n. int n \<le> attempts \<and> calls_of (snd outcome) = [0..<n]
      \<and> (\<forall>i. Suc i < n \<longrightarrow> static_attempt verdict w i = None)
      \<and> (if n = 0 then attempts = 0 \<and> fst outcome = Inl (no_attempts what)
         else case static_attempt verdict w (n - 1) of
           Some r \<Rightarrow> fst outcome = r
         | None \<Rightarrow> int n = attempts \<and> fst outcome = Inl (attempt_error what w attempts (n - 1))))"

lemma static_loop_ends:
  assumes "accepted_pauses w backoff" and "0 \<le> attempts"
  shows "ends_with_first_final what verdict w attempts (static_loop what verdict w attempts backoff (no_attempts what) 0)"
proof -
  let ?run = "static_loop what verdict w attempts backoff (no_attempts what) 0"
  obtain n where n: "int n \<le> attempts" "\<forall>i < n. static_attempt verdict w i = None"
    and run: "if int n = attempts
      then ?run = (Inl (pending_error what w attempts n), concat (map (static_trace verdict w attempts backoff) [0..<n]))
      else \<exists>r. static_attempt verdict w n = Some r \<and>
        ?run = (r, concat (map (static_trace verdict w attempts backoff) [0..<Suc n]))"
    using static_loop_outcome [OF assms, of verdict what] by blast
  show ?thesis
  proof (cases "int n = attempts")
    case True
    then have r: "fst ?run = Inl (pending_error what w attempts n)" and "calls_of (snd ?run) = [0..<n]"
      using run calls_of_traces [OF n(1)] by simp_all
    with True n show ?thesis
      unfolding ends_with_first_final_def pending_error_def by (intro exI [of _ n]) (cases n; simp)
  next
    case False
    with run obtain r where r: "static_attempt verdict w n = Some r"
      and "?run = (r, concat (map (static_trace verdict w attempts backoff) [0..<Suc n]))" by auto
    moreover have "int (Suc n) \<le> attempts" using False n(1) by simp
    ultimately have "fst ?run = r" and "calls_of (snd ?run) = [0..<Suc n]"
      using calls_of_traces [of "Suc n" attempts verdict w backoff] by (simp_all only: fst_conv snd_conv)
    with r n \<open>int (Suc n) \<le> attempts\<close> show ?thesis
      unfolding ends_with_first_final_def by (intro exI [of _ "Suc n"]) simp
  qed
qed

section \<open>Properties\<close>

text \<open>
  Upload and download make at most the attempts they were given, in order, and end with the
  first answer that is not transient: every attempt before it met a retryable transport failure or
  a retryable status, and nothing is sent after it. When all attempts were transient the error
  raised is the last attempt's, and with no attempts at all it says so.
\<close>

theorem static_helpers_outcome:
  assumes "accepted_pauses w backoff" and "0 \<le> attempts"
  shows "ends_with_first_final ''upload'' upload_verdict w attempts (static_upload w attempts backoff)
    \<and> ends_with_first_final ''download'' (fetch_verdict link) w attempts (static_download link w attempts backoff)"
  unfolding static_upload_def static_download_def
  by (intro conjI static_loop_ends assms)

abbreviation sample_static_world :: static_world where
  "sample_static_world \<equiv> \<lparr>answer = \<lambda>k. if k = 0 then Inl (Network_Error ''refused'')
      else Inr \<lparr>static_status = 201, static_text = [], static_content = [],
        static_json = Inr [(''link'', VStr ''/f/1'')]\<rparr>,
    jitter = \<lambda>k. 1 / 2, exc_repr = \<lambda>e. ''error''\<rparr>"

lemma sample_pauses: "accepted_pauses sample_static_world DEFAULT_BACKOFF_FACTOR"
  unfolding DEFAULT_BACKOFF_FACTOR_def by (rule accepted_pausesI) simp_all

lemma static_helpers_outcome_witness:
  "ends_with_first_final ''upload'' upload_verdict sample_static_world 3
    (static_upload sample_static_world 3 DEFAULT_BACKOFF_FACTOR)"
  using static_helpers_outcome [OF sample_pauses, of 3] by simp

text \<open>
  What an upload returns is usable: only a 200 or a 201 whose JSON carries a link produces a
  payload, the payload has that link and a \<open>file\<close>, the link itself unless the service sent one,
  and everything else the service sent; the forgiving variant never raises a service error, and
  answers the empty text exactly when the upload failed with one.
\<close>

theorem upload_payload_usable:
  "(\<forall>payload. upload_verdict r = Some (Inr payload) \<longrightarrow>
      static_status r \<in> {200, 201} \<and> (\<exists>sent. static_json r = Inr sent \<and> truthy (get_val payload ''link'') \<and>
        dict_get payload ''file'' = (case dict_get sent ''file'' of None \<Rightarrow> Some (get_val sent ''link'') | f \<Rightarrow> f) \<and>
        (\<forall>k. k \<noteq> ''file'' \<longrightarrow> dict_get payload k = dict_get sent k)))
   \<and> (case link_or_empty w attempts backoff of
        Inl e \<Rightarrow> \<not> is_service_error e \<and> fst (static_upload w attempts backoff) = Inl e
      | Inr text' \<Rightarrow> (case fst (static_upload w attempts backoff) of
            Inr payload \<Rightarrow> text' = py_str (get_val payload ''link'')
          | Inl e \<Rightarrow> is_service_error e \<and> text' = []))"
proof (intro conjI allI impI)
  fix payload assume "upload_verdict r = Some (Inr payload)"
  then have accepted: "static_status r \<in> {200, 201}" and sent: "upload_payload r = Inr payload"
    by (auto simp: upload_verdict_def ACCEPTED_UPLOAD_STATUS_def split: if_splits)
  from sent obtain sent' where "static_json r = Inr sent'" and "truthy (get_val sent' ''link'')"
    and "payload = (if dict_get sent' ''file'' = None then dict_set ''file'' (get_val sent' ''link'') sent' else sent')"
    by (auto simp: upload_payload_def res_simps split: if_splits)
  with accepted show "static_status r \<in> {200, 201}"
    and "\<exists>sent. static_json r = Inr sent \<and> truthy (get_val payload ''link'') \<and>
        dict_get payload ''file'' = (case dict_get sent ''file'' of None \<Rightarrow> Some (get_val sent ''link'') | f \<Rightarrow> f) \<and>
        (\<forall>k. k \<noteq> ''file'' \<longrightarrow> dict_get payload k = dict_get sent k)"
    by (auto simp: dict_simps get_val_set split: option.splits)
next
  show "case link_or_empty w attempts backoff of
        Inl e \<Rightarrow> \<not> is_service_error e \<and> fst (static_upload w attempts backoff) = Inl e
      | Inr text' \<Rightarrow> (case fst (static_upload w attempts backoff) of
            Inr payload \<Rightarrow> text' = py_str (get_val payload ''link'')
          | Inl e \<Rightarrow> is_service_error e \<and> text' = [])"
    by (cases "fst (static_upload w attempts backoff)") (auto simp: link_or_empty_def)
qed

lemma upload_payload_usable_witness:
  "dict_get [(''link'', VStr ''/f/1''), (''file'', VStr ''/f/1'')] ''file'' = Some (VStr ''/f/1'')"
proof -
  let ?r = "\<lparr>static_status = 201, static_text = [], static_content = [],
      static_json = Inr [(''link'', VStr ''/f/1'')]\<rparr>"
  have "upload_verdict ?r = Some (Inr [(''link'', VStr ''/f/1''), (''file'', VStr ''/f/1'')])"
    by (simp add: upload_verdict_def upload_payload_def ACCEPTED_UPLOAD_STATUS_def get_val_def dict_set_def)
  with upload_payload_usable [THEN conjunct1, of ?r] show ?thesis by (auto simp: get_val_def)
qed

text \<open>
  A missing file is never retried and never mistaken for an outage: on a 404 the download stops
  at that very attempt with the expiry error, and it raises the expiry error for no other reason
  than a 404.
\<close>

theorem missing_file_not_retried:
  assumes "accepted_pauses w backoff" and "0 \<le> attempts"
    and "\<forall>k e. answer w k = Inl e \<longrightarrow> \<not> (\<exists>m. e = Static_File_Expired m)"
  shows "(\<exists>m. fst (static_download link w attempts backoff) = Inl (Static_File_Expired m)) \<longleftrightarrow>
    (\<exists>n r. int n < attempts \<and> answer w n = Inr r \<and> static_status r = 404
      \<and> calls_of (snd (static_download link w attempts backoff)) = [0..<Suc n])"
proof -
  let ?run = "static_download link w attempts backoff"
  obtain n where n: "int n \<le> attempts" "calls_of (snd ?run) = [0..<n]"
    and fst: "if n = 0 then attempts = 0 \<and> fst ?run = Inl (no_attempts ''download'')
         else case static_attempt (fetch_verdict link) w (n - 1) of
           Some r \<Rightarrow> fst ?run = r
         | None \<Rightarrow> int n = attempts \<and> fst ?run = Inl (attempt_error ''download'' w attempts (n - 1))"
    using static_loop_ends [OF assms(1,2), of "''download''" "fetch_verdict link"]
    unfolding ends_with_first_final_def static_download_def by blast
  show ?thesis
  proof (cases n)
    case 0
    with n fst show ?thesis by (auto simp: no_attempts_def)
  next
    case (Suc m)
    have "static_attempt (fetch_verdict link) w m = Some (Inl (Static_File_Expired t)) \<longleftrightarrow>
        (\<exists>r. answer w m = Inr r \<and> static_status r = 404 \<and>
          t = ''static-service file not found at '' @ repr_str link @ '' (likely past retention)'')" for t
      using assms(3) by (auto simp: static_attempt_def fetch_verdict_def split: sum.splits if_splits)
    moreover have "(\<exists>k r. int k < attempts \<and> answer w k = Inr r \<and> static_status r = 404 \<and> calls_of (snd ?run) = [0..<Suc k])
        \<longleftrightarrow> (\<exists>r. answer w m = Inr r \<and> static_status r = 404)"
    proof -
      have "(calls_of (snd ?run) = [0..<Suc k]) = (k = m)" for k
        using n(2) Suc by (metis length_upt diff_zero nat.inject)
      moreover have "int m < attempts" using n(1) Suc by simp
      ultimately show ?thesis by (simp only:) blast
    qed
    moreover have "fst ?run = Inl (Static_File_Expired t) \<longleftrightarrow>
        static_attempt (fetch_verdict link) w m = Some (Inl (Static_File_Expired t))" for t
      using fst Suc by (auto simp: attempt_error_def split: option.splits)
    ultimately show ?thesis by simp
  qed
qed

lemma missing_file_not_retried_witness:
  "\<exists>m. fst (static_download ''/f/1'' (sample_static_world\<lparr>answer := \<lambda>k. Inr \<lparr>static_status = 404, static_text = [],
      static_content = [], static_json = Inr []\<rparr>\<rparr>) 3 DEFAULT_BACKOFF_FACTOR) = Inl (Static_File_Expired m)"
proof -
  let ?w = "sample_static_world\<lparr>answer := \<lambda>k. Inr \<lparr>static_status = 404, static_text = [],
      static_content = [], static_json = Inr []\<rparr>\<rparr>"
  have "accepted_pauses ?w DEFAULT_BACKOFF_FACTOR"
    unfolding DEFAULT_BACKOFF_FACTOR_def by (rule accepted_pausesI) simp_all
  moreover have "calls_of (snd (static_download ''/f/1'' ?w 3 DEFAULT_BACKOFF_FACTOR)) = [0..<Suc 0]"
    by (simp add: static_download_def static_loop.simps [where k = 0] static_attempt_def fetch_verdict_def)
  moreover have "\<forall>k e. answer ?w k = Inl e \<longrightarrow> \<not> (\<exists>m. e = Static_File_Expired m)" by simp
  ultimately show ?thesis
    using missing_file_not_retried [of ?w DEFAULT_BACKOFF_FACTOR 3 "''/f/1''"] by fastforce
qed

end
