(* ===== verification/Change_History.thy ===== *)
theory Change_History
  imports Py_Value
begin

text \<open>
  \<open>netix_backend/django/change_history.py\<close> and the serializer mixin of \<open>serializers.py\<close>: who
  changed what, when, kept on the row itself. The actor is a context variable, threaded as state;
  the row as loaded, its whitelisted fields, the diff, the capped trail and the snapshot are those
  of the model mixin; writing the row is Django's, a parameter of \<open>history_save\<close>.
\<close>

section \<open>Equality and storable values\<close>

text \<open>Python's \<open>==\<close> on the values a JSON column holds: numbers by value, whatever their type.\<close>

definition number_of :: "pyval \<Rightarrow> pyfloat option" where
  "number_of v = (case v of
      VBool b \<Rightarrow> Some (Fin (if b then 1 else 0))
    | VInt i \<Rightarrow> Some (Fin (real_of_int i))
    | VFloat x r \<Rightarrow> Some x
    | VDecimal x s r f \<Rightarrow> Some x
    | _ \<Rightarrow> None)"

definition text_of :: "pyval \<Rightarrow> string option" where
  "text_of v = (case v of VStr s \<Rightarrow> Some s | VStrSub s r \<Rightarrow> Some s | _ \<Rightarrow> None)"

lemma size_zip_fst [termination_simp]:
  "(a, b) \<in> set (zip xs ys) \<Longrightarrow> size a < Suc (size_list size xs)" for a :: pyval
  using size_list_estimation' [of a xs "size a" size] by (auto dest: set_zip_leftD)

fun py_eq :: "pyval \<Rightarrow> pyval \<Rightarrow> bool" where
  "py_eq (VList xs) (VList ys) = (length xs = length ys \<and> list_all (\<lambda>p. py_eq (fst p) (snd p)) (zip xs ys))"
| "py_eq (VTuple xs) (VTuple ys) = (length xs = length ys \<and> list_all (\<lambda>p. py_eq (fst p) (snd p)) (zip xs ys))"
| "py_eq (VDict d) (VDict e) =
    (length d = length e \<and> list_all (\<lambda>p. list_ex (\<lambda>q. py_eq (fst p) (fst q) \<and> py_eq (snd p) (snd q)) e) d)"
| "py_eq a b =
    (case (number_of a, number_of b) of
      (Some x, Some y) \<Rightarrow> flt_eq x y
    | _ \<Rightarrow> (case (text_of a, text_of b) of
        (Some s, Some t) \<Rightarrow> s = t
      | _ \<Rightarrow> a = b))"

fun json_safe :: "pyval \<Rightarrow> pyval" where
  "json_safe (VDate s i r) = VStr i"
| "json_safe (VDecimal x s r f) = VFloat x f"
| "json_safe (VList xs) = VList (map json_safe xs)"
| "json_safe (VTuple xs) = VList (map json_safe xs)"
| "json_safe (VSet xs) = VList (map json_safe xs)"
| "json_safe (VDict d) = VDict (dict_update [] (map (\<lambda>p. (VStr (py_str (fst p)), json_safe (snd p))) d))"
| "json_safe (VObj s r) = VStr s"
| "json_safe v = v"

text \<open>What a JSON column stores: no dates, decimals, tuples, sets or objects, and text keys.\<close>

fun storable :: "pyval \<Rightarrow> bool" where
  "storable (VList xs) = list_all storable xs"
| "storable (VDict d) = (list_all (\<lambda>p. (\<exists>s. fst p = VStr s) \<and> storable (snd p)) d \<and> dict_ok d)"
| "storable (VDate s i r) = False"
| "storable (VDecimal x s r f) = False"
| "storable (VTuple xs) = False"
| "storable (VSet xs) = False"
| "storable (VObj s r) = False"
| "storable v = True"

section \<open>The actor\<close>

definition SOURCE_API :: string where "SOURCE_API = ''api''"
definition SOURCE_SYSTEM :: string where "SOURCE_SYSTEM = ''system''"
definition TRUTHY_PARAM_VALUES :: "string list" where "TRUTHY_PARAM_VALUES = [''1'', ''true'', ''yes'', ''on'']"
definition HISTORY_QUERY_PARAM :: string where "HISTORY_QUERY_PARAM = ''include_history''"
definition REASON_FIELD :: string where "REASON_FIELD = ''change_reason''"
definition MAX_REASON_LENGTH :: nat where "MAX_REASON_LENGTH = 256"

definition normalize_reason :: "pyval \<Rightarrow> string" where
  "normalize_reason r = (if \<not> truthy r then [] else take MAX_REASON_LENGTH (strip (py_str r)))"

record change_actor =
  user_id :: "int option"
  actor_name :: string
  actor_source :: string
  actor_reason :: string

definition system_actor :: change_actor where
  "system_actor = \<lparr>user_id = None, actor_name = [], actor_source = SOURCE_SYSTEM, actor_reason = []\<rparr>"

text \<open>A user-shaped object: \<open>pk\<close>, what \<open>get_full_name()\<close> returns when callable, \<open>username\<close>.\<close>

record user_like =
  user_pk :: pyval
  full_name :: "pyval option"
  username :: pyval

definition text_or_empty :: "pyval \<Rightarrow> string" where
  "text_or_empty v = (if truthy v then py_str v else [])"

definition from_user :: "user_like \<Rightarrow> string \<Rightarrow> pyval \<Rightarrow> change_actor" where
  "from_user u src r =
    (let uid = (case user_pk u of VInt i \<Rightarrow> Some i | VBool b \<Rightarrow> Some (if b then 1 else 0) | _ \<Rightarrow> None);
         name = (case full_name u of Some f \<Rightarrow> strip (text_or_empty f) | None \<Rightarrow> [])
     in \<lparr>user_id = uid, actor_name = (if name = [] then text_or_empty (username u) else name),
         actor_source = src, actor_reason = normalize_reason r\<rparr>)"

text \<open>
  The context variable and its tokens. A token restores what the variable held, in the context it
  was made in; elsewhere the code clears the variable.
\<close>

record actor_token =
  token_old :: "change_actor option"
  token_context :: nat

definition get_actor :: "change_actor option \<Rightarrow> change_actor" where
  "get_actor var = (case var of None \<Rightarrow> system_actor | Some a \<Rightarrow> a)"

definition set_actor :: "nat \<Rightarrow> change_actor option \<Rightarrow> change_actor option \<Rightarrow> actor_token \<times> change_actor option" where
  "set_actor context actor var = (\<lparr>token_old = var, token_context = context\<rparr>, actor)"

definition reset_actor :: "nat \<Rightarrow> actor_token option \<Rightarrow> change_actor option \<Rightarrow> change_actor option" where
  "reset_actor context token var =
    (case token of
      None \<Rightarrow> None
    | Some t \<Rightarrow> if token_context t = context then token_old t else None)"

text \<open>A block run with the variable bound; the \<open>finally\<close> resets it whatever the block does.\<close>

definition bound_to :: "nat \<Rightarrow> change_actor option \<Rightarrow> (change_actor option \<Rightarrow> 'r \<times> change_actor option)
    \<Rightarrow> change_actor option \<Rightarrow> 'r \<times> change_actor option" where
  "bound_to context actor block var =
    (let (token, var1) = set_actor context actor var; (r, var2) = block var1
     in (r, reset_actor context (Some token) var2))"

definition context_actor :: "user_like option \<Rightarrow> string \<Rightarrow> pyval \<Rightarrow> change_actor" where
  "context_actor u src r =
    (case u of
      Some u' \<Rightarrow> from_user u' src r
    | None \<Rightarrow> system_actor\<lparr>actor_source := src, actor_reason := normalize_reason r\<rparr>)"

definition actor_context where
  "actor_context context u src r block = bound_to context (Some (context_actor u src r)) block"

definition reason_context where
  "reason_context context r block var =
    bound_to context (Some ((get_actor var)\<lparr>actor_reason := normalize_reason r\<rparr>)) block var"

text \<open>The middleware binds what its hook resolves, nobody by default, around the response.\<close>

definition actor_middleware where
  "actor_middleware context resolved get_response = bound_to context resolved get_response"

text \<open>The query parameters of a request, absent without a request or parameters.\<close>

definition reason_from_query :: "(string, string) dict option \<Rightarrow> string" where
  "reason_from_query params =
    (case params of
      None \<Rightarrow> []
    | Some p \<Rightarrow> normalize_reason (case dict_get p REASON_FIELD of None \<Rightarrow> VNone | Some s \<Rightarrow> VStr s))"

definition history_requested :: "(string, string) dict option \<Rightarrow> bool" where
  "history_requested params =
    (case params of
      None \<Rightarrow> False
    | Some p \<Rightarrow> lower (strip (the_default [] (dict_get p HISTORY_QUERY_PARAM))) \<in> set TRUTHY_PARAM_VALUES)"

section \<open>The trail\<close>

record change =
  change_field :: string
  change_old :: pyval
  change_new :: pyval
  old_display :: "string option"
  new_display :: "string option"

record history_entry =
  entry_at :: string
  entry_action :: string
  entry_source :: string
  entry_by :: "int option"
  entry_by_name :: string
  entry_reason :: string
  entry_changes :: "change list"

text \<open>
  The class: the whitelist, the cap, the attribute of a field (\<open>shift_id\<close> for \<open>shift\<close>) and its
  flat choices. The instance: whether it is being added, its attributes, its trail and the snapshot
  taken when it was loaded.
\<close>

record history_class =
  history_fields :: "string list"
  history_max_entries :: int
  history_attname :: "string \<Rightarrow> string"
  flatchoices :: "string \<Rightarrow> (pyval \<times> string) list"

record tracked =
  adding :: bool
  attrs :: row
  change_history :: "history_entry list"
  snapshot_values :: "row option"

definition history_values :: "history_class \<Rightarrow> string list option \<Rightarrow> tracked \<Rightarrow> row" where
  "history_values c loaded i =
    map (\<lambda>name. (name, json_safe (get_val (attrs i) (history_attname c name))))
      (filter (\<lambda>name. case loaded of None \<Rightarrow> True
          | Some fs \<Rightarrow> name \<in> set fs \<or> history_attname c name \<in> set fs) (dedupe (history_fields c)))"

fun choice_label :: "(pyval \<times> string) list \<Rightarrow> pyval \<Rightarrow> string option" where
  "choice_label [] v = None"
| "choice_label ((choice, label) # cs) v = (if py_eq choice v then Some label else choice_label cs v)"

definition history_display :: "history_class \<Rightarrow> string \<Rightarrow> pyval \<Rightarrow> string option" where
  "history_display c name v = choice_label (flatchoices c name) v"

definition mk_change :: "history_class \<Rightarrow> string \<Rightarrow> pyval \<Rightarrow> pyval \<Rightarrow> change" where
  "mk_change c name old new =
    \<lparr>change_field = name, change_old = old, change_new = new,
     old_display = history_display c name old, new_display = history_display c name new\<rparr>"

fun action_for :: "change list \<Rightarrow> string" where
  "action_for [] = ''updated''"
| "action_for (ch # chs) =
    (if change_field ch = ''is_deleted''
     then (if truthy (change_new ch) then ''deleted'' else ''restored'')
     else action_for chs)"

definition mk_entry :: "change_actor \<Rightarrow> string \<Rightarrow> string \<Rightarrow> change list \<Rightarrow> history_entry" where
  "mk_entry a now act chs =
    \<lparr>entry_at = now, entry_action = act, entry_source = actor_source a, entry_by = user_id a,
     entry_by_name = actor_name a, entry_reason = actor_reason a, entry_changes = chs\<rparr>"

text \<open>\<open>value not in (None, "", [], {})\<close>.\<close>

definition blank :: "pyval \<Rightarrow> bool" where
  "blank v \<longleftrightarrow> list_ex (py_eq v) [VNone, VStr [], VList [], VDict []]"

definition written_field :: "history_class \<Rightarrow> string list option \<Rightarrow> string \<Rightarrow> bool" where
  "written_field c update_fields name =
    (case update_fields of None \<Rightarrow> True | Some fs \<Rightarrow> history_attname c name \<in> set fs \<or> name \<in> set fs)"

definition created_changes :: "history_class \<Rightarrow> tracked \<Rightarrow> change list" where
  "created_changes c i =
    map (\<lambda>(name, v). mk_change c name VNone v) (filter (\<lambda>(name, v). \<not> blank v) (history_values c None i))"

definition diff_changes :: "history_class \<Rightarrow> string list option \<Rightarrow> row \<Rightarrow> tracked \<Rightarrow> change list" where
  "diff_changes c update_fields snap i =
    map (\<lambda>(name, v). mk_change c name (get_val snap name) v)
      (filter (\<lambda>(name, v). dict_get snap name \<noteq> None \<and> \<not> py_eq (get_val snap name) v
          \<and> written_field c update_fields name) (history_values c None i))"

definition build_history_entry ::
    "history_class \<Rightarrow> change_actor \<Rightarrow> string \<Rightarrow> string list option \<Rightarrow> tracked \<Rightarrow> history_entry option" where
  "build_history_entry c a now update_fields i =
    (if history_fields c = [] then None
     else if adding i then Some (mk_entry a now ''created'' (created_changes c i))
     else case snapshot_values i of
       None \<Rightarrow> None
     | Some snap \<Rightarrow>
         let chs = diff_changes c update_fields snap i in
         if chs = [] then None else Some (mk_entry a now (action_for chs) chs))"

text \<open>\<open>history[-cap:]\<close>, at every cap.\<close>

definition keep_last :: "int \<Rightarrow> 'a list \<Rightarrow> 'a list" where
  "keep_last cap h = (if 0 < cap then drop (length h - nat cap) h else drop (nat (- cap)) h)"

definition sync_history_snapshot :: "history_class \<Rightarrow> string list option \<Rightarrow> tracked \<Rightarrow> tracked" where
  "sync_history_snapshot c update_fields i =
    (let values = history_values c None i in
     case update_fields of
       None \<Rightarrow> i\<lparr>snapshot_values := Some values\<rparr>
     | Some fs \<Rightarrow>
         i\<lparr>snapshot_values := Some (dict_update (the_default [] (snapshot_values i))
            (filter (\<lambda>(name, v). name \<in> set fs \<or> history_attname c name \<in> set fs) values))\<rparr>)"

section \<open>Loading and saving\<close>

definition from_db :: "history_class \<Rightarrow> string list \<Rightarrow> tracked \<Rightarrow> tracked" where
  "from_db c field_names i = i\<lparr>snapshot_values := Some (history_values c (Some field_names) i)\<rparr>"

definition refresh_from_db :: "history_class \<Rightarrow> (tracked \<Rightarrow> tracked) \<Rightarrow> tracked \<Rightarrow> tracked" where
  "refresh_from_db c super_refresh i =
    (let i' = super_refresh i in i'\<lparr>snapshot_values := Some (history_values c None i')\<rparr>)"

text \<open>The columns of the stored row; \<open>super().save\<close> writes it, or raises.\<close>

record stored =
  stored_attrs :: row
  stored_history :: "history_entry list"

type_synonym super_save = "string list option \<Rightarrow> tracked \<Rightarrow> stored \<Rightarrow> stored \<times> exc option"

definition history_save ::
    "history_class \<Rightarrow> change_actor \<Rightarrow> string \<Rightarrow> super_save \<Rightarrow> string list option \<Rightarrow> tracked \<Rightarrow> stored
      \<Rightarrow> tracked \<times> stored \<times> exc option" where
  "history_save c a now super_save update_fields i db =
    (let (i1, written) = (case build_history_entry c a now update_fields i of
          None \<Rightarrow> (i, update_fields)
        | Some e \<Rightarrow>
            (i\<lparr>change_history := keep_last (history_max_entries c) (change_history i @ [e])\<rparr>,
             map_option (\<lambda>fs. fs @ [''change_history'']) update_fields));
         was_adding = adding i;
         (db', error) = super_save written i1 db
     in case error of
          Some e \<Rightarrow> (i1, db', Some e)
        | None \<Rightarrow>
            (sync_history_snapshot c (if was_adding then None else update_fields) (i1\<lparr>adding := False\<rparr>), db', None))"

section \<open>The serializer mixin\<close>

definition history_field_kept :: "bool \<Rightarrow> (string, string) dict option \<Rightarrow> bool" where
  "history_field_kept swagger_fake_view params \<longleftrightarrow> swagger_fake_view \<or> history_requested params"

definition history_represented :: "(string, string) dict option \<Rightarrow> (string, 'v) dict \<Rightarrow> (string, 'v) dict" where
  "history_represented params data =
    (if history_requested params then data else dict_pop ''change_history'' data)"

text \<open>The reason leaves the validated data and stays on the serializer.\<close>

definition history_validate :: "row \<Rightarrow> pyval \<times> row" where
  "history_validate data =
    ((case dict_get data REASON_FIELD of None \<Rightarrow> VStr [] | Some r \<Rightarrow> r), dict_pop REASON_FIELD data)"

definition history_serializer_save where
  "history_serializer_save context r block var =
    (if \<not> truthy r then block var else reason_context context r block var)"

section \<open>Lemmas\<close>

subsection \<open>Equality and storable values\<close>

fun nan_free :: "pyval \<Rightarrow> bool" where
  "nan_free (VFloat x r) = (x \<noteq> NaN)"
| "nan_free (VDecimal x s r f) = (x \<noteq> NaN)"
| "nan_free (VList xs) = list_all nan_free xs"
| "nan_free (VTuple xs) = list_all nan_free xs"
| "nan_free (VDict d) = list_all (\<lambda>p. nan_free (fst p) \<and> nan_free (snd p)) d"
| "nan_free v = True"

lemma flt_eq_refl [simp]: "flt_eq x x \<longleftrightarrow> x \<noteq> NaN"
  by (cases x) auto

lemma py_eq_refl: "nan_free v \<Longrightarrow> py_eq v v"
proof (induction v rule: nan_free.induct)
  case (3 xs)
  then show ?case by (auto simp: list_all_iff zip_same_conv_map)
next
  case (4 xs)
  then show ?case by (auto simp: list_all_iff zip_same_conv_map)
next
  case (5 d)
  have "\<exists>q \<in> set d. py_eq (fst p) (fst q) \<and> py_eq (snd p) (snd q)" if "p \<in> set d" for p
    using 5 that by (intro bexI [of _ p]) (auto simp: list_all_iff)
  then show ?case by (simp add: list_all_iff list_ex_iff)
qed (auto simp: number_of_def text_of_def)

lemma storable_json_safe: "storable (json_safe v)"
proof (induction v rule: json_safe.induct)
  case (6 d)
  have "\<forall>p \<in> set (dict_update [] (map (\<lambda>p. (VStr (py_str (fst p)), json_safe (snd p))) d)).
      (\<exists>s. fst p = VStr s) \<and> storable (snd p)"
    by (rule dict_update_all) (use 6 in auto)
  then show ?case by (simp add: list_all_iff)
qed (auto simp: list_all_iff)

lemma json_safe_storable: "storable v \<Longrightarrow> json_safe v = v"
proof (induction v rule: json_safe.induct)
  case (6 d)
  then have "map (\<lambda>p. (VStr (py_str (fst p)), json_safe (snd p))) d = d"
    by (auto simp: list_all_iff intro!: map_idI)
  with 6 show ?case by (simp add: dict_update_Nil)
qed (auto simp: list_all_iff intro!: map_idI)

subsection \<open>The diff\<close>

lemma dict_get_history_values:
  "dict_get (history_values c loaded i) name =
    (if name \<in> set (history_fields c) \<and> (case loaded of None \<Rightarrow> True
        | Some fs \<Rightarrow> name \<in> set fs \<or> history_attname c name \<in> set fs)
     then Some (json_safe (get_val (attrs i) (history_attname c name))) else None)"
  by (auto simp: history_values_def dict_get_map_self split: option.splits)

lemma dict_ok_history_values [simp]: "dict_ok (history_values c loaded i)"
  by (simp add: history_values_def dict_ok_def dict_keys_def o_def)

lemma history_values_cong [simp]:
  "history_values c l (i\<lparr>change_history := h\<rparr>) = history_values c l i"
  "history_values c l (i\<lparr>snapshot_values := sn\<rparr>) = history_values c l i"
  "history_values c l (i\<lparr>adding := b\<rparr>) = history_values c l i"
  by (simp_all add: history_values_def)

lemma change_fields_diff:
  "map change_field (diff_changes c uf snap i) =
    map fst (filter (\<lambda>(name, v). dict_get snap name \<noteq> None \<and> \<not> py_eq (get_val snap name) v
          \<and> written_field c uf name) (history_values c None i))"
  by (simp add: diff_changes_def mk_change_def o_def split_def)

lemma set_diff_changes:
  "set (diff_changes c uf snap i) =
    {mk_change c name (get_val snap name) v | name v. dict_get (history_values c None i) name = Some v
      \<and> dict_get snap name \<noteq> None \<and> \<not> py_eq (get_val snap name) v \<and> written_field c uf name}"
proof -
  have "(name, v) \<in> set (history_values c None i) \<longleftrightarrow> dict_get (history_values c None i) name = Some v" for name v
    using dict_ok_history_values [of c None i] by (simp add: dict_get_def dict_ok_def dict_keys_def)
  then show ?thesis by (auto simp: diff_changes_def)
qed

lemma sync_snapshot:
  "dict_get (the_default [] (snapshot_values (sync_history_snapshot c uf i))) name =
    (if name \<in> set (history_fields c) \<and> written_field c uf name
     then Some (json_safe (get_val (attrs i) (history_attname c name)))
     else if uf = None then None else dict_get (the_default [] (snapshot_values i)) name)"
proof (cases uf)
  case None
  then show ?thesis
    by (simp add: sync_history_snapshot_def Let_def written_field_def dict_get_history_values)
next
  case (Some fs)
  let ?new = "filter (\<lambda>(name, v). name \<in> set fs \<or> history_attname c name \<in> set fs) (history_values c None i)"
  have "dict_ok ?new"
    using dict_ok_history_values [of c None i] by (simp add: dict_ok_def dict_keys_def distinct_map_filter)
  moreover have "dict_get ?new name = (if name \<in> set (history_fields c) \<and> written_field c uf name
      then Some (json_safe (get_val (attrs i) (history_attname c name))) else None)"
    by (auto simp: dict_get_filter_keys [where P = "\<lambda>name. name \<in> set fs \<or> history_attname c name \<in> set fs"]
        dict_get_history_values Some written_field_def)
  ultimately show ?thesis
    using Some by (simp add: sync_history_snapshot_def Let_def dict_get_update_ok)
qed

lemma sync_snapshot_simps [simp]:
  "attrs (sync_history_snapshot c uf i) = attrs i" "adding (sync_history_snapshot c uf i) = adding i"
  "change_history (sync_history_snapshot c uf i) = change_history i"
  "\<exists>sn. snapshot_values (sync_history_snapshot c uf i) = Some sn"
  by (auto simp: sync_history_snapshot_def Let_def split: option.splits)

lemma history_values_attrs: "attrs i = attrs j \<Longrightarrow> history_values c l i = history_values c l j"
  by (simp add: history_values_def)

subsection \<open>A save of a loaded row\<close>

lemma history_save_loaded:
  assumes "history_save c a now super_save uf i db = (i', db', None)" and "\<not> adding i"
    and "snapshot_values i = Some snap" and "history_fields c \<noteq> []"
  defines "chs \<equiv> diff_changes c uf snap i"
  shows "attrs i' = attrs i" and "\<not> adding i'"
    and "change_history i' = (if chs = [] then change_history i
        else keep_last (history_max_entries c) (change_history i @ [mk_entry a now (action_for chs) chs]))"
    and "dict_get (the_default [] (snapshot_values i')) name =
      (if name \<in> set (history_fields c) \<and> written_field c uf name
       then Some (json_safe (get_val (attrs i) (history_attname c name)))
       else if uf = None then None else dict_get snap name)"
    and "snapshot_values i' \<noteq> None"
  using assms
  by (auto simp: history_save_def build_history_entry_def Let_def sync_snapshot split: option.splits prod.splits if_splits)

section \<open>Properties\<close>

lemma keep_last_short: "0 < cap \<Longrightarrow> int (length h) \<le> cap \<Longrightarrow> keep_last cap h = h"
  by (simp add: keep_last_def)

lemma keep_last_snoc: "0 < cap \<Longrightarrow> \<exists>older. keep_last cap (h @ [e]) = older @ [e] \<and> int (length older) < cap
    \<and> (\<exists>dropped. h = dropped @ older)"
  by (intro exI [of _ "drop (Suc (length h) - nat cap) h"])
    (auto simp: keep_last_def intro!: exI [of _ "take (Suc (length h) - nat cap) h"])

text \<open>What the diff holds, and what the trail becomes with an entry for it.\<close>

definition has_moved :: "history_class \<Rightarrow> string list option \<Rightarrow> row \<Rightarrow> row \<Rightarrow> string \<Rightarrow> bool" where
  "has_moved c uf snap values name \<longleftrightarrow> name \<in> set (history_fields c) \<and> written_field c uf name \<and> dict_get snap name \<noteq> None
    \<and> \<not> py_eq (get_val snap name) (json_safe (get_val values (history_attname c name)))"

definition records_moved ::
    "history_class \<Rightarrow> string list option \<Rightarrow> row \<Rightarrow> row \<Rightarrow> change_actor \<Rightarrow> history_entry \<Rightarrow> bool" where
  "records_moved c uf snap values a entry \<longleftrightarrow>
    entry_source entry = actor_source a \<and> entry_by entry = user_id a \<and> entry_reason entry = actor_reason a
    \<and> distinct (map change_field (entry_changes entry))
    \<and> (\<forall>name old new. (\<exists>ch \<in> set (entry_changes entry). change_field ch = name \<and> change_old ch = old \<and> change_new ch = new)
        \<longleftrightarrow> has_moved c uf snap values name \<and> old = get_val snap name
          \<and> new = json_safe (get_val values (history_attname c name)))"

lemma entry_changes_mk: "entry_changes (mk_entry a now act chs) = chs"
  by (simp add: mk_entry_def)

lemma diff_records_moved: "records_moved c uf snap (attrs i) a (mk_entry a now act (diff_changes c uf snap i))"
proof -
  let ?chs = "diff_changes c uf snap i"
  have "(\<exists>ch \<in> set ?chs. change_field ch = name \<and> change_old ch = old \<and> change_new ch = new)
      \<longleftrightarrow> has_moved c uf snap (attrs i) name \<and> old = get_val snap name \<and> new = json_safe (get_val (attrs i) (history_attname c name))"
    for name old new
  proof
    assume "has_moved c uf snap (attrs i) name \<and> old = get_val snap name \<and> new = json_safe (get_val (attrs i) (history_attname c name))"
    then have "mk_change c name old new \<in> set ?chs"
      by (auto simp: set_diff_changes dict_get_history_values has_moved_def)
    then show "\<exists>ch \<in> set ?chs. change_field ch = name \<and> change_old ch = old \<and> change_new ch = new"
      by (rule bexI [rotated]) (simp add: mk_change_def)
  qed (auto simp: set_diff_changes dict_get_history_values mk_change_def has_moved_def split: if_splits)
  moreover have "distinct (map change_field ?chs)"
    unfolding change_fields_diff using dict_ok_history_values [of c None i]
    by (simp add: dict_ok_def dict_keys_def distinct_map_filter)
  ultimately show ?thesis by (simp add: records_moved_def mk_entry_def)
qed

lemma diff_empty: "diff_changes c uf snap i = [] \<longleftrightarrow> \<not> (\<exists>name. has_moved c uf snap (attrs i) name)"
  using diff_records_moved [of c uf snap i undefined undefined undefined]
  by (metis entry_changes_mk equals0D last_in_set list.set(1) records_moved_def)

lemma diff_recorded:
  assumes "0 < history_max_entries c"
  shows "if \<exists>name. has_moved c uf snap (attrs i) name
    then diff_changes c uf snap i \<noteq> []
      \<and> (\<exists>dropped older entry. keep_last (history_max_entries c) (h @ [mk_entry a now act (diff_changes c uf snap i)]) = older @ [entry]
          \<and> h = dropped @ older \<and> int (length (older @ [entry])) \<le> history_max_entries c
          \<and> records_moved c uf snap (attrs i) a entry)
    else diff_changes c uf snap i = []"
  using diff_empty [of c uf snap i] diff_records_moved [of c uf snap i a now act]
    keep_last_snoc [OF assms, of h "mk_entry a now act (diff_changes c uf snap i)"]
  by (auto split: if_splits)

text \<open>
  C13. A successful save of a loaded row records exactly what it changed: when a whitelisted field
  that the snapshot holds and the save writes differs from the snapshot, one entry is appended, by
  the bound actor, with one change per such field, from the snapshot's value to the row's; otherwise
  the trail is untouched. With a positive cap the newest entry is always kept, the trail is a
  suffix of the old one followed by it, and never longer than the cap.
\<close>

theorem save_records_the_diff:
  assumes "history_save c a now super_save uf i db = (i', db', None)" and "\<not> adding i"
    and "snapshot_values i = Some snap" and "history_fields c \<noteq> []" and "0 < history_max_entries c"
  defines "moved \<equiv> \<lambda>name. name \<in> set (history_fields c) \<and> written_field c uf name \<and> dict_get snap name \<noteq> None
    \<and> \<not> py_eq (get_val snap name) (json_safe (get_val (attrs i) (history_attname c name)))"
  shows "if \<exists>name. moved name
    then (\<exists>dropped older entry. change_history i' = older @ [entry] \<and> change_history i = dropped @ older
      \<and> int (length (change_history i')) \<le> history_max_entries c
      \<and> entry_source entry = actor_source a \<and> entry_by entry = user_id a \<and> entry_reason entry = actor_reason a
      \<and> distinct (map change_field (entry_changes entry))
      \<and> (\<forall>name old new. (\<exists>ch \<in> set (entry_changes entry). change_field ch = name \<and> change_old ch = old \<and> change_new ch = new)
          \<longleftrightarrow> moved name \<and> old = get_val snap name \<and> new = json_safe (get_val (attrs i) (history_attname c name))))
    else change_history i' = change_history i"
  using history_save_loaded(3) [OF assms(1-4)]
    diff_recorded [OF assms(5), of uf snap i "change_history i" a now "action_for (diff_changes c uf snap i)"]
  unfolding moved_def [folded has_moved_def] records_moved_def by (auto split: if_splits)

abbreviation sample_class :: history_class where
  "sample_class \<equiv> \<lparr>history_fields = [''status''], history_max_entries = 50, history_attname = \<lambda>n. n, flatchoices = \<lambda>n. []\<rparr>"

abbreviation sample_tracked :: tracked where
  "sample_tracked \<equiv> \<lparr>adding = False, attrs = [(''status'', VInt 2)], change_history = [],
    snapshot_values = Some [(''status'', VInt 1)]\<rparr>"

abbreviation sample_stored :: stored where
  "sample_stored \<equiv> \<lparr>stored_attrs = [(''status'', VInt 1)], stored_history = []\<rparr>"

definition sample_super_save :: super_save where
  "sample_super_save update_fields i db = (\<lparr>stored_attrs = attrs i, stored_history = change_history i\<rparr>, None)"

definition refusing_super_save :: super_save where
  "refusing_super_save update_fields i db = (db, Some (Integrity_Error ''refused''))"

lemmas sample_save_eval = history_save_def build_history_entry_def diff_changes_def history_values_def mk_change_def
  mk_entry_def sync_history_snapshot_def written_field_def keep_last_def get_val_def number_of_def text_of_def
  sample_super_save_def refusing_super_save_def history_display_def Let_def


lemma save_records_the_diff_witness:
  "\<exists>older entry. change_history (fst (history_save sample_class system_actor ''now'' sample_super_save None sample_tracked
      sample_stored)) = older @ [entry] \<and> entry_source entry = ''system''"
proof -
  obtain i' db' where s: "history_save sample_class system_actor ''now'' sample_super_save None sample_tracked sample_stored
      = (i', db', None)"
    by (simp add: sample_save_eval)
  have "written_field sample_class None ''status''" by (simp add: written_field_def)
  then have "\<exists>name. name \<in> set (history_fields sample_class) \<and> written_field sample_class None name
      \<and> dict_get [(''status'', VInt 1)] name \<noteq> None
      \<and> \<not> py_eq (get_val [(''status'', VInt 1)] name) (json_safe (get_val (attrs sample_tracked) (history_attname sample_class name)))"
    by (intro exI [of _ "''status''"]) (simp add: get_val_def number_of_def)
  from save_records_the_diff [OF s, of "[(''status'', VInt 1)]", unfolded if_P [OF this]] s
  show ?thesis by (auto simp: system_actor_def SOURCE_SYSTEM_def)
qed

text \<open>
  C14. After a successful save the trail starts afresh where the row was written, and only there: a
  field the save wrote has the row's value in the new snapshot, so saving again at once records
  nothing for it; a field a partial save left out keeps its old snapshot value, so it is still
  pending and a later full save records it from that value.
\<close>

theorem snapshot_follows_writes:
  assumes "history_save c a now super_save uf i db = (i', db', None)" and "\<not> adding i"
    and "snapshot_values i = Some snap" and "history_fields c \<noteq> []"
    and "\<forall>name \<in> set (history_fields c). nan_free (json_safe (get_val (attrs i) (history_attname c name)))"
  shows "build_history_entry c a' now' uf i' = None \<and>
    (\<forall>fs ch. uf = Some fs \<longrightarrow>
      ch \<in> set (diff_changes c None (the (snapshot_values i')) i') \<longleftrightarrow>
      ch \<in> set (diff_changes c None snap i) \<and> \<not> written_field c uf (change_field ch))"
proof -
  have a: "attrs i' = attrs i" "\<not> adding i'"
    using history_save_loaded(1,2) [OF assms(1-4)] by simp_all
  obtain snap' where snap': "snapshot_values i' = Some snap'"
    using history_save_loaded(5) [OF assms(1-4)] by blast
  have vals: "history_values c None i' = history_values c None i" using a(1) by (rule history_values_attrs)
  have get: "dict_get snap' name = (if name \<in> set (history_fields c) \<and> written_field c uf name
       then Some (json_safe (get_val (attrs i) (history_attname c name)))
       else if uf = None then None else dict_get snap name)" for name
    using history_save_loaded(4) [OF assms(1-4)] snap' by simp
  have eq: "py_eq (get_val snap' name) (json_safe (get_val (attrs i) (history_attname c name)))"
    if "name \<in> set (history_fields c)" "written_field c uf name" for name
    using that get [of name] assms(5) by (simp add: get_val_def py_eq_refl)
  have "diff_changes c uf snap' i' = []"
  proof -
    have "ch \<notin> set (diff_changes c uf snap' i')" for ch
      using eq by (auto simp: set_diff_changes vals dict_get_history_values split: if_splits)
    then show ?thesis by (metis last_in_set)
  qed
  then have "build_history_entry c a' now' uf i' = None"
    using a(2) snap' by (simp add: build_history_entry_def)
  moreover have "ch \<in> set (diff_changes c None snap' i') \<longleftrightarrow>
      ch \<in> set (diff_changes c None snap i) \<and> \<not> written_field c uf (change_field ch)" if "uf = Some fs" for fs ch
    using get that eq
    by (auto simp: set_diff_changes vals dict_get_history_values mk_change_def get_val_def written_field_def
        split: if_splits)
  ultimately show ?thesis using snap' by (cases uf) auto
qed

lemma snapshot_follows_writes_witness:
  "build_history_entry sample_class system_actor ''later'' None (fst (history_save sample_class system_actor ''now''
      sample_super_save None sample_tracked sample_stored)) = None"
proof -
  obtain i' db' where s: "history_save sample_class system_actor ''now'' sample_super_save None sample_tracked sample_stored
      = (i', db', None)"
    by (simp add: sample_save_eval)
  from snapshot_follows_writes [OF s, of "[(''status'', VInt 1)]" system_actor "''later''"] s
  show ?thesis by (simp add: get_val_def)
qed

text \<open>
  C16. A save that fails has already appended its entry to the row in memory: when the write raises,
  the instance keeps the entry while the snapshot stays, so retrying the same save leaves two
  entries for one write.
\<close>

theorem failed_save_leaves_entry:
  assumes "\<not> adding i" and "snapshot_values i = Some snap" and "history_fields c \<noteq> []"
    and "diff_changes c uf snap i \<noteq> []" and "int (length (change_history i)) + 2 \<le> history_max_entries c"
    and "history_save c a now failing uf i db = (i1, db1, Some e)"
    and "history_save c a now' working uf i1 db1 = (i2, db2, None)"
  shows "\<exists>e1 e2. change_history i2 = change_history i @ [e1, e2] \<and> entry_changes e1 = entry_changes e2"
proof -
  let ?chs = "diff_changes c uf snap i"
  let ?e = "\<lambda>t. mk_entry a t (action_for ?chs) ?chs"
  have entry: "build_history_entry c a now uf i = Some (?e now)"
    using assms(1-4) by (simp add: build_history_entry_def Let_def)
  have i1: "i1 = i\<lparr>change_history := change_history i @ [?e now]\<rparr>"
    using assms(5,6) entry by (auto simp: history_save_def keep_last_short Let_def split: prod.splits option.splits)
  have "diff_changes c uf snap i1 = ?chs" using i1 by (simp add: diff_changes_def)
  with history_save_loaded(3) [OF assms(7), of snap] i1 assms(1-5)
  have "change_history i2 = change_history i @ [?e now, ?e now']"
    by (simp add: keep_last_short)
  then show ?thesis by (auto simp: mk_entry_def)
qed

lemma failed_save_leaves_entry_witness:
  "\<exists>i1 db1 e i2 db2. history_save sample_class system_actor ''now'' refusing_super_save None sample_tracked sample_stored = (i1, db1, Some e)
    \<and> history_save sample_class system_actor ''later'' sample_super_save None i1 db1 = (i2, db2, None)
    \<and> length (change_history i2) = 2"
proof -
  obtain i1 db1 e where f: "history_save sample_class system_actor ''now'' refusing_super_save None sample_tracked sample_stored
      = (i1, db1, Some e)"
    by (simp add: sample_save_eval)
  obtain i2 db2 where s: "history_save sample_class system_actor ''later'' sample_super_save None i1 db1 = (i2, db2, None)"
    by (cases "history_save sample_class system_actor ''later'' sample_super_save None i1 db1")
      (auto simp: history_save_def Let_def sample_super_save_def split: prod.splits)
  have "diff_changes sample_class None [(''status'', VInt 1)] sample_tracked \<noteq> []"
    by (simp add: sample_save_eval)
  from failed_save_leaves_entry [OF _ _ _ this _ f s] f s show ?thesis by fastforce
qed

text \<open>
  Whatever a field holds, what goes into the trail can be stored as JSON and is stored
  verbatim: the coercion gives a value with text keys and no dates, decimals, tuples, sets or
  objects, and changes nothing that is already such a value, so coercing twice is coercing once.
\<close>

theorem json_safe_is_storable:
  "storable (json_safe v) \<and> json_safe (json_safe v) = json_safe v \<and> (storable v \<longrightarrow> json_safe v = v)"
  using storable_json_safe json_safe_storable by blast

lemma json_safe_is_storable_witness:
  "json_safe (VDict [(VStr ''a'', VInt 1)]) = VDict [(VStr ''a'', VInt 1)]"
proof -
  have "storable (VDict [(VStr ''a'', VInt 1)])" by (simp add: dict_ok_def)
  then show ?thesis using json_safe_is_storable by blast
qed

text \<open>
  An actor never outlives its block: after any block run under a bound actor, under a reason or
  under the middleware, whatever the block returned or left bound, the context holds the actor it
  held before; inside, a reason changes nothing about who is acting.
\<close>

theorem actor_never_leaks:
  "snd (actor_context ctx u src r block var) = var \<and> snd (reason_context ctx r block var) = var \<and>
   snd (actor_middleware ctx resolved get_response var) = var \<and>
   fst (reason_context ctx r block var) = fst (block (Some ((get_actor var)\<lparr>actor_reason := normalize_reason r\<rparr>)))"
  by (simp add: actor_context_def reason_context_def actor_middleware_def bound_to_def set_actor_def
      reset_actor_def split_def Let_def)

text \<open>
  A stated reason is bounded but not always trimmed: it never exceeds the column width, but the
  cut comes after the trimming, so it can leave a trailing space.
\<close>

theorem reason_bounded_not_trimmed:
  "length (normalize_reason r) \<le> MAX_REASON_LENGTH \<and>
   last (normalize_reason (VStr (replicate 255 (CHR ''x'') @ '' y''))) = CHR '' ''"
proof -
  let ?s = "replicate 255 (CHR ''x'') @ '' y''"
  have "dropWhile is_space ?s = ?s" by (simp add: is_space_def code_def)
  moreover have "dropWhile is_space (rev ?s) = rev ?s" by (simp add: is_space_def code_def)
  ultimately have "strip ?s = ?s" unfolding strip_def by (metis rev_rev_ident)
  then have "normalize_reason (VStr ?s) = take 256 ?s" by (simp add: normalize_reason_def MAX_REASON_LENGTH_def)
  also have "take 256 ?s = replicate 255 (CHR ''x'') @ '' ''" by simp
  finally show ?thesis by (simp add: normalize_reason_def)
qed

end
