(* ===== verification/Exceptions.thy ===== *)
theory Exceptions
  imports Py_Value
begin

text \<open>
  \<open>netix_backend/django/exceptions.py\<close>: the flatteners that turn an error's detail into messages,
  the consistent walk, and the exception handler that writes the envelope. Messages are kept as
  Python strings (\<open>VStr\<close>, or a subclass such as DRF's error detail), because the envelope may
  print the whole list.
\<close>

section \<open>Flatteners\<close>

text \<open>The items of a list, tuple or set; of a list or tuple.\<close>

fun sequence_items :: "pyval \<Rightarrow> pyval list option" where
  "sequence_items (VList xs) = Some xs"
| "sequence_items (VTuple xs) = Some xs"
| "sequence_items (VSet xs) = Some xs"
| "sequence_items v = None"

fun ordered_items :: "pyval \<Rightarrow> pyval list option" where
  "ordered_items (VList xs) = Some xs"
| "ordered_items (VTuple xs) = Some xs"
| "ordered_items v = None"

fun dict_items :: "pyval \<Rightarrow> (pyval \<times> pyval) list option" where
  "dict_items (VDict d) = Some d"
| "dict_items v = None"

text \<open>\<open>payload.get("message")\<close> of a dictionary with Python keys.\<close>

fun text_key :: "(pyval \<times> pyval) list \<Rightarrow> string \<Rightarrow> pyval" where
  "text_key [] k = VNone"
| "text_key ((j, v) # d) k = (if eq_text j k then v else text_key d k)"

definition str_all :: "pyval list \<Rightarrow> pyval list" where
  "str_all xs = map (\<lambda>x. VStr (py_str x)) xs"

definition message_entries :: "(pyval \<times> pyval) list \<Rightarrow> pyval list option" where
  "message_entries payload =
    (let message = text_key payload ''message'' in
     if \<not> truthy message then None
     else case sequence_items message of
       Some items \<Rightarrow> Some (str_all items)
     | None \<Rightarrow> Some [VStr (py_str message)])"

definition flatten_template :: "pyval \<Rightarrow> pyval list" where
  "flatten_template obj =
    (if is_str obj then [obj]
     else case (case dict_items obj of Some d \<Rightarrow> message_entries d | None \<Rightarrow> None) of
       Some (e # es) \<Rightarrow> [e]
     | _ \<Rightarrow> [VStr (py_str obj)])"

definition flatten_keyed :: "pyval \<Rightarrow> pyval list" where
  "flatten_keyed obj =
    (if is_str obj then [obj]
     else case dict_items obj of
       Some d \<Rightarrow>
         (case message_entries d of
           Some (e # es) \<Rightarrow> e # es
         | _ \<Rightarrow> map (\<lambda>p. VStr (py_str (fst p) @ '' - '' @ py_str (snd p))) d)
     | None \<Rightarrow> [VStr (py_str obj)])"

fun first_error :: "pyval \<Rightarrow> string" where
  "first_error (VList xs) = (case xs of [] \<Rightarrow> [] | x # _ \<Rightarrow> first_error x)"
| "first_error (VTuple xs) = (case xs of [] \<Rightarrow> [] | x # _ \<Rightarrow> first_error x)"
| "first_error (VDict d) = join '', '' (map (\<lambda>p. py_str (fst p) @ '': '' @ first_error (snd p)) d)"
| "first_error v = py_str v"

definition flatten_first_error :: "pyval \<Rightarrow> pyval list" where
  "flatten_first_error obj =
    (if is_str obj then [obj]
     else case dict_items obj of
       Some d \<Rightarrow>
         (case message_entries d of
           Some (e # es) \<Rightarrow> [e]
         | _ \<Rightarrow> map (\<lambda>p. VStr (py_str (fst p) @ '' - '' @ first_error (snd p))) d)
     | None \<Rightarrow> [VStr (py_str obj)])"

fun messages_from_mapping :: "pyval \<Rightarrow> string list" where
  "messages_from_mapping (VDict d) =
    concat (map (\<lambda>p.
      case sequence_items (snd p) of
        Some items \<Rightarrow> map (\<lambda>i. py_str (fst p) @ '': '' @ py_str i) items
      | None \<Rightarrow>
          if is_dict (snd p) then messages_from_mapping (snd p)
          else [py_str (fst p) @ '': '' @ py_str (snd p)]) d)"
| "messages_from_mapping v = []"

definition flatten_nested :: "pyval \<Rightarrow> pyval list" where
  "flatten_nested obj =
    (if is_str obj then [obj]
     else if is_dict obj then map VStr (messages_from_mapping obj)
     else [VStr (py_str obj)])"

fun flatten_sequence :: "pyval \<Rightarrow> pyval list" where
  "flatten_sequence (VList xs) = concat (map flatten_sequence xs)"
| "flatten_sequence (VTuple xs) = concat (map flatten_sequence xs)"
| "flatten_sequence (VSet xs) = concat (map flatten_sequence xs)"
| "flatten_sequence (VDict d) =
    (case message_entries d of Some (e # es) \<Rightarrow> [e] | _ \<Rightarrow> [VStr (py_str (VDict d))])"
| "flatten_sequence v = (if is_str v then [v] else [VStr (py_str v)])"

type_synonym flattener = "pyval \<Rightarrow> pyval list"

definition FLATTENERS :: "(string, flattener) dict" where
  "FLATTENERS =
    [(''template'', flatten_template), (''keyed'', flatten_keyed), (''first_error'', flatten_first_error),
     (''nested'', flatten_nested), (''sequence'', flatten_sequence)]"

text \<open>The sorted names of the table, as the error prints them.\<close>

definition flattener_names :: "string list" where
  "flattener_names = [''first_error'', ''keyed'', ''nested'', ''sequence'', ''template'']"

definition resolve_flattener :: "string \<Rightarrow> string option \<Rightarrow> flattener res" where
  "resolve_flattener setting name =
    (let n = (case name of None \<Rightarrow> setting | Some n \<Rightarrow> n) in
     case dict_get FLATTENERS n of
       Some f \<Rightarrow> Inr f
     | None \<Rightarrow> Inl (Improperly_Configured (''Unknown NETIX_ERRORS_FLATTENER '' @ repr_str n @
         ''; expected one of '' @ py_repr (VList (map VStr flattener_names)))))"

section \<open>Messages of an exception\<close>

datatype error_kind = Drf_Validation | Not_Found | Database | Other_Kind

text \<open>An exception: its \<open>args\<close>, and its \<open>detail\<close> and \<open>message\<close>, \<open>VNone\<close> when it has none.\<close>

record api_error =
  error_kind :: error_kind
  error_args :: "pyval list"
  error_detail :: pyval
  error_message :: pyval
  error_str :: string

definition HTTP404_MESSAGE :: string where "HTTP404_MESSAGE = ''404: Resource not found''"
definition DB_UNAVAILABLE_MESSAGE :: string where "DB_UNAVAILABLE_MESSAGE = ''Service temporarily unavailable''"
definition DEFAULT_FLATTENER :: string where "DEFAULT_FLATTENER = ''template''"

definition detail_of :: "api_error \<Rightarrow> pyval" where
  "detail_of e =
    (if error_detail e \<noteq> VNone then error_detail e
     else if error_message e \<noteq> VNone then error_message e
     else VStr (error_str e))"

definition build_messages :: "string \<Rightarrow> api_error \<Rightarrow> pyval list res" where
  "build_messages setting e =
    (case error_kind e of
      Drf_Validation \<Rightarrow> rbind (resolve_flattener setting None) (\<lambda>flatten. Inr (concat (map flatten (error_args e))))
    | Not_Found \<Rightarrow> Inr [VStr HTTP404_MESSAGE]
    | _ \<Rightarrow>
        let detail = detail_of e in
        Inr (case sequence_items detail of
          Some items \<Rightarrow> str_all items
        | None \<Rightarrow>
            (case dict_items detail of
              Some d \<Rightarrow> map (\<lambda>p. VStr (py_str (fst p) @ '': '' @ py_str (snd p))) d
            | None \<Rightarrow> [VStr (py_str detail)])))"

section \<open>The consistent walk\<close>

lemma size_zip_snd [termination_simp]:
  "(a, b) \<in> set (zip xs ys) \<Longrightarrow> size b < Suc (size_list size ys)" for b :: pyval
  using size_list_estimation' [of b ys "size b" size] by (auto dest: set_zip_rightD)

definition generic_key :: "pyval \<Rightarrow> bool" where
  "generic_key k \<longleftrightarrow> eq_text k ''detail'' \<or> eq_text k ''message''"

definition key_path :: "string \<Rightarrow> pyval \<Rightarrow> string" where
  "key_path path k =
    (if generic_key k then path else if path \<noteq> [] then path @ ''.'' @ py_str k else py_str k)"

definition is_container :: "pyval \<Rightarrow> bool" where
  "is_container v \<longleftrightarrow> dict_items v \<noteq> None \<or> ordered_items v \<noteq> None"

definition index_path :: "string \<Rightarrow> nat \<Rightarrow> pyval \<Rightarrow> string" where
  "index_path path n item =
    (if path \<noteq> [] \<and> is_container item then path @ ''['' @ nat_str n @ '']'' else path)"

definition leaf_messages :: "string \<Rightarrow> pyval \<Rightarrow> string list" where
  "leaf_messages path v =
    (if v = VNone then []
     else let message = py_str v in
       if message = [] then [] else [if path \<noteq> [] then path @ '': '' @ message else message])"

fun iter_consistent :: "string \<Rightarrow> pyval \<Rightarrow> string list" where
  "iter_consistent path (VDict d) = concat (map (\<lambda>p. iter_consistent (key_path path (fst p)) (snd p)) d)"
| "iter_consistent path (VList xs) =
    concat (map (\<lambda>p. iter_consistent (index_path path (fst p) (snd p)) (snd p)) (zip [0..<length xs] xs))"
| "iter_consistent path (VTuple xs) =
    concat (map (\<lambda>p. iter_consistent (index_path path (fst p) (snd p)) (snd p)) (zip [0..<length xs] xs))"
| "iter_consistent path v = leaf_messages path v"

definition consistent_messages :: "api_error \<Rightarrow> string list" where
  "consistent_messages e =
    (if error_kind e = Not_Found then [HTTP404_MESSAGE] else iter_consistent [] (detail_of e))"

section \<open>The envelope\<close>

text \<open>The settings of the handler; each is read when it is needed.\<close>

record error_settings =
  set_flattener :: string
  set_stringified :: bool
  set_http404_as_list :: bool
  set_non_validation_as_list :: bool
  set_consistent_envelope :: bool
  set_db_unavailable_503 :: bool

definition default_error_settings :: error_settings where
  "default_error_settings = \<lparr>set_flattener = DEFAULT_FLATTENER, set_stringified = True,
    set_http404_as_list = True, set_non_validation_as_list = False, set_consistent_envelope = False,
    set_db_unavailable_503 = False\<rparr>"

definition render_messages :: "bool \<Rightarrow> bool option \<Rightarrow> bool \<Rightarrow> pyval list \<Rightarrow> pyval" where
  "render_messages setting stringified as_list messages =
    (if \<not> as_list then (case messages of [] \<Rightarrow> VStr [] | m # ms \<Rightarrow> m)
     else if (case stringified of None \<Rightarrow> setting | Some b \<Rightarrow> b) then VStr (py_str (VList messages))
     else VList messages)"

definition as_list_for :: "error_settings \<Rightarrow> api_error \<Rightarrow> bool" where
  "as_list_for st e =
    (case error_kind e of
      Drf_Validation \<Rightarrow> True
    | Not_Found \<Rightarrow> set_http404_as_list st
    | _ \<Rightarrow> set_non_validation_as_list st)"

record error_response =
  response_status :: int
  response_messages :: pyval

text \<open>
  \<open>drf_status\<close> is what DRF's own handler makes of the exception: a response with a status, or
  nothing for an exception it does not know. The body is replaced; its \<open>status_code\<close> is the
  response's.
\<close>

definition custom_exception_handler ::
    "error_settings \<Rightarrow> (api_error \<Rightarrow> int option) \<Rightarrow> api_error \<Rightarrow> error_response option res" where
  "custom_exception_handler st drf_status e =
    (case drf_status e of
      None \<Rightarrow>
        if set_db_unavailable_503 st \<and> error_kind e = Database
        then Inr (Some \<lparr>response_status = 503, response_messages =
          (if set_consistent_envelope st then VList [VStr DB_UNAVAILABLE_MESSAGE] else VStr DB_UNAVAILABLE_MESSAGE)\<rparr>)
        else Inr None
    | Some status \<Rightarrow>
        if set_consistent_envelope st
        then Inr (Some \<lparr>response_status = status, response_messages = VList (map VStr (consistent_messages e))\<rparr>)
        else rbind (build_messages (set_flattener st) e) (\<lambda>messages.
          Inr (Some \<lparr>response_status = status,
            response_messages = render_messages (set_stringified st) None (as_list_for st e) messages\<rparr>)))"

section \<open>Lemmas\<close>

text \<open>
  A detail as the texts at its leaves, each with its address: the keys and indices that lead to it, outermost
  first. Empty texts are left out.
\<close>

datatype step = Key pyval | Index nat

fun leaves :: "pyval \<Rightarrow> (step list \<times> string) list" where
  "leaves (VDict d) = concat (map (\<lambda>p. map (apfst ((#) (Key (fst p)))) (leaves (snd p))) d)"
| "leaves (VList xs) = concat (map (\<lambda>p. map (apfst ((#) (Index (fst p)))) (leaves (snd p))) (zip [0..<length xs] xs))"
| "leaves (VTuple xs) = concat (map (\<lambda>p. map (apfst ((#) (Index (fst p)))) (leaves (snd p))) (zip [0..<length xs] xs))"
| "leaves VNone = []"
| "leaves v = (if py_str v = [] then [] else [([], py_str v)])"

text \<open>What is found at an address.\<close>

fun found_at :: "pyval \<Rightarrow> step list \<Rightarrow> pyval \<Rightarrow> bool" where
  "found_at v [] x \<longleftrightarrow> x = v"
| "found_at v (Key k # steps) x \<longleftrightarrow> (case dict_items v of Some d \<Rightarrow> \<exists>y. (k, y) \<in> set d \<and> found_at y steps x | None \<Rightarrow> False)"
| "found_at v (Index i # steps) x \<longleftrightarrow>
    (case ordered_items v of Some xs \<Rightarrow> i < length xs \<and> found_at (xs ! i) steps x | None \<Rightarrow> False)"

text \<open>
  How an address is printed, as a reader of the envelope sees it: keys joined by dots, but for the generic ones,
  which name no field; an index in brackets where it leads on from a field to something nested, so neither the
  index of a text in its list nor an index before the first key shows.
\<close>

fun continued :: "step list \<Rightarrow> string" where
  "continued [] = []"
| "continued (Key k # steps) = (if generic_key k then [] else ''.'' @ py_str k) @ continued steps"
| "continued (Index i # steps) = (if steps = [] then [] else ''['' @ nat_str i @ '']'') @ continued steps"

fun printed :: "step list \<Rightarrow> string" where
  "printed [] = []"
| "printed (Key k # steps) = (if generic_key k \<or> py_str k = [] then printed steps else py_str k @ continued steps)"
| "printed (Index i # steps) = printed steps"

definition leaf_message :: "step list \<times> string \<Rightarrow> string" where
  "leaf_message l = (if printed (fst l) = [] then snd l else printed (fst l) @ '': '' @ snd l)"

text \<open>The walk is at a path that has been printed so far.\<close>

definition printed_from :: "string \<Rightarrow> step list \<Rightarrow> string" where
  "printed_from path steps = (if path = [] then printed steps else path @ continued steps)"

definition walked :: "string \<Rightarrow> step list \<times> string \<Rightarrow> string" where
  "walked path l = (if printed_from path (fst l) = [] then snd l else printed_from path (fst l) @ '': '' @ snd l)"

lemma walked_Key: "walked path (apfst ((#) (Key k)) l) = walked (key_path path k) l"
  by (simp add: walked_def printed_from_def key_path_def)

lemma leaves_inner: "is_container v \<Longrightarrow> l \<in> set (leaves v) \<Longrightarrow> fst l \<noteq> []"
  by (cases v) (auto simp: is_container_def)

lemma leaves_outer: "\<not> is_container v \<Longrightarrow> l \<in> set (leaves v) \<Longrightarrow> fst l = []"
  by (cases v) (auto simp: is_container_def split: if_splits)

lemma walked_Index: "l \<in> set (leaves v) \<Longrightarrow> walked path (apfst ((#) (Index i)) l) = walked (index_path path i v) l"
  using leaves_inner [of v l] leaves_outer [of v l]
  by (cases "is_container v") (auto simp: walked_def printed_from_def index_path_def)

lemma walked_items:
  assumes "\<And>p. p \<in> set (zip [0..<length xs] xs) \<Longrightarrow>
      iter_consistent (index_path path (fst p) (snd p)) (snd p) = map (walked (index_path path (fst p) (snd p))) (leaves (snd p))"
  shows "concat (map (\<lambda>p. iter_consistent (index_path path (fst p) (snd p)) (snd p)) (zip [0..<length xs] xs)) =
    map (walked path) (concat (map (\<lambda>p. map (apfst ((#) (Index (fst p)))) (leaves (snd p))) (zip [0..<length xs] xs)))"
proof -
  have "concat (map (\<lambda>p. iter_consistent (index_path path (fst p) (snd p)) (snd p)) (zip [0..<length xs] xs)) =
      concat (map (\<lambda>p. map (walked path) (map (apfst ((#) (Index (fst p)))) (leaves (snd p)))) (zip [0..<length xs] xs))"
    using assms by (intro arg_cong [where f = concat] map_cong refl) (simp add: walked_Index cong: map_cong)
  then show ?thesis by (simp add: map_concat comp_def)
qed

lemma iter_consistent_walks: "iter_consistent path v = map (walked path) (leaves v)"
proof (induction path v rule: iter_consistent.induct)
  case (1 path d)
  then have "concat (map (\<lambda>p. iter_consistent (key_path path (fst p)) (snd p)) d) =
      concat (map (\<lambda>p. map (walked path) (map (apfst ((#) (Key (fst p)))) (leaves (snd p)))) d)"
    by (intro arg_cong [where f = concat] map_cong refl) (simp add: walked_Key comp_def)
  then show ?case by (simp add: map_concat comp_def)
next
  case (2 path xs)
  then show ?case using walked_items [of xs path] by simp
next
  case (3 path xs)
  then show ?case using walked_items [of xs path] by simp
qed (simp_all add: leaf_messages_def walked_def printed_from_def Let_def)

lemma walked_root: "walked [] = leaf_message"
  by (simp add: fun_eq_iff walked_def leaf_message_def printed_from_def)

text \<open>The leaves are what stands at the addresses that end in no container, with a text.\<close>

definition speaks :: "pyval \<Rightarrow> string \<Rightarrow> bool" where
  "speaks x text' \<longleftrightarrow> \<not> is_container x \<and> x \<noteq> VNone \<and> text' = py_str x \<and> text' \<noteq> []"

lemma in_apfst_Cons: "(steps, t) \<in> apfst ((#) a) ` A \<longleftrightarrow> (\<exists>ss. steps = a # ss \<and> (ss, t) \<in> A)"
proof
  assume "(steps, t) \<in> apfst ((#) a) ` A"
  then obtain l where "l \<in> A" "(steps, t) = apfst ((#) a) l" by (rule imageE)
  then show "\<exists>ss. steps = a # ss \<and> (ss, t) \<in> A" by (cases l) simp
next
  assume "\<exists>ss. steps = a # ss \<and> (ss, t) \<in> A"
  then obtain ss where "steps = a # ss" "(ss, t) \<in> A" by blast
  then show "(steps, t) \<in> apfst ((#) a) ` A" by (intro image_eqI [of _ _ "(ss, t)"]) simp_all
qed

lemma zip_member: "i < length xs \<Longrightarrow> (i, xs ! i) \<in> set (zip [0..<length xs] xs)"
  unfolding set_zip by (rule CollectI, rule exI [of _ i]) simp

lemma zip_memberD: "p \<in> set (zip [0..<length xs] xs) \<Longrightarrow> fst p < length xs \<and> snd p = xs ! fst p"
  by (auto simp: set_zip)

lemma in_leaves_items:
  "(steps, t) \<in> set (concat (map (\<lambda>p. map (apfst ((#) (Index (fst p)))) (leaves (snd p))) (zip [0..<length xs] xs))) \<longleftrightarrow>
    (\<exists>i ss. i < length xs \<and> steps = Index i # ss \<and> (ss, t) \<in> set (leaves (xs ! i)))" (is "?lhs \<longleftrightarrow> ?rhs")
proof
  assume ?lhs
  then obtain p where p: "p \<in> set (zip [0..<length xs] xs)" "(steps, t) \<in> apfst ((#) (Index (fst p))) ` set (leaves (snd p))"
    by (auto simp del: apfst_conv)
  from p(2) zip_memberD [OF p(1)] show ?rhs unfolding in_apfst_Cons by auto
next
  assume ?rhs
  then obtain i ss where i: "i < length xs" "steps = Index i # ss" "(ss, t) \<in> set (leaves (xs ! i))" by blast
  have "(steps, t) \<in> set (map (apfst ((#) (Index i))) (leaves (xs ! i)))"
    unfolding set_map in_apfst_Cons using i by blast
  with zip_member [OF i(1)] show ?lhs by force
qed

lemma leaf_found: "\<not> is_container v \<Longrightarrow> (steps, t) \<in> set (leaves v) \<longleftrightarrow> (\<exists>x. found_at v steps x \<and> speaks x t)"
proof -
  assume v: "\<not> is_container v"
  then have "(steps, t) \<in> set (leaves v) \<longleftrightarrow> steps = [] \<and> speaks v t"
    by (cases v) (auto simp: speaks_def is_container_def)
  moreover have "found_at v steps x \<longleftrightarrow> steps = [] \<and> x = v" for x
    using v by (cases steps; cases "hd steps") (auto simp: is_container_def)
  ultimately show ?thesis by auto
qed

lemma items_found:
  assumes "ordered_items v = Some xs" and "dict_items v = None"
    and "leaves v = concat (map (\<lambda>p. map (apfst ((#) (Index (fst p)))) (leaves (snd p))) (zip [0..<length xs] xs))"
    and "\<And>i steps. i < length xs \<Longrightarrow> (steps, t) \<in> set (leaves (xs ! i)) \<longleftrightarrow> (\<exists>x. found_at (xs ! i) steps x \<and> speaks x t)"
  shows "(steps, t) \<in> set (leaves v) \<longleftrightarrow> (\<exists>x. found_at v steps x \<and> speaks x t)"
proof (cases "\<exists>i ss. steps = Index i # ss")
  case True
  then obtain i ss where "steps = Index i # ss" by blast
  then show ?thesis using assms(4) [of i ss] unfolding assms(3) in_leaves_items by (auto simp: assms(1))
next
  case False
  then have "\<not> (\<exists>x. found_at v steps x \<and> speaks x t)"
    using assms(1,2) by (cases steps; cases "hd steps") (auto simp: speaks_def is_container_def)
  with False show ?thesis unfolding assms(3) in_leaves_items by blast
qed

lemma leaves_found: "(steps, t) \<in> set (leaves v) \<longleftrightarrow> (\<exists>x. found_at v steps x \<and> speaks x t)"
proof (induction v arbitrary: steps rule: leaves.induct)
  case (1 d)
  have in_leaves: "(steps, t) \<in> set (leaves (VDict d)) \<longleftrightarrow> (\<exists>k y ss. (k, y) \<in> set d \<and> steps = Key k # ss \<and> (ss, t) \<in> set (leaves y))"
    by (simp add: in_apfst_Cons) force
  show ?case
  proof (cases "\<exists>k ss. steps = Key k # ss")
    case True
    then obtain k ss where k: "steps = Key k # ss" by blast
    have "(ss, t) \<in> set (leaves y) \<longleftrightarrow> (\<exists>x. found_at y ss x \<and> speaks x t)" if "(k, y) \<in> set d" for y
      using 1 [OF that, of ss] by simp
    then show ?thesis unfolding in_leaves unfolding k by simp blast
  next
    case False
    then have "\<not> (\<exists>x. found_at (VDict d) steps x \<and> speaks x t)"
      by (cases steps; cases "hd steps") (auto simp: speaks_def is_container_def)
    with False show ?thesis unfolding in_leaves by blast
  qed
next
  case (2 xs)
  show ?case
  proof (rule items_found)
    fix i ss assume "i < length xs"
    from 2 [OF zip_member [OF this], of ss]
    show "(ss, t) \<in> set (leaves (xs ! i)) \<longleftrightarrow> (\<exists>x. found_at (xs ! i) ss x \<and> speaks x t)" by simp
  qed simp_all
next
  case (3 xs)
  show ?case
  proof (rule items_found)
    fix i ss assume "i < length xs"
    from 3 [OF zip_member [OF this], of ss]
    show "(ss, t) \<in> set (leaves (xs ! i)) \<longleftrightarrow> (\<exists>x. found_at (xs ! i) ss x \<and> speaks x t)" by simp
  qed simp_all
qed (rule leaf_found; simp add: is_container_def)+

section \<open>Properties\<close>

text \<open>
  C35. The consistent envelope says what the error's detail says and where: whatever status DRF answered, its
  messages are those of the detail's leaves, in order, one for each, with the leaf's own text after the printed
  address of the leaf, or alone where the address prints as nothing; and the leaves are exactly what the detail
  holds at addresses that end in no container, are not \<open>None\<close> and print as some text. A missing object is the
  exception: its envelope has the one fixed message.
\<close>

theorem consistent_messages_are_the_leaves:
  "iter_consistent [] v = map leaf_message (leaves v)
   \<and> (\<forall>steps text'. (steps, text') \<in> set (leaves v) \<longleftrightarrow>
        (\<exists>x. found_at v steps x \<and> \<not> is_container x \<and> x \<noteq> VNone \<and> text' = py_str x \<and> text' \<noteq> []))
   \<and> (case drf_status e of
        None \<Rightarrow> True
      | Some status \<Rightarrow>
          custom_exception_handler (st\<lparr>set_consistent_envelope := True\<rparr>) drf_status e =
            Inr (Some \<lparr>response_status = status, response_messages = VList (map VStr
              (if error_kind e = Not_Found then [HTTP404_MESSAGE] else map leaf_message (leaves (detail_of e))))\<rparr>))"
  using leaves_found [of _ _ v, unfolded speaks_def]
  by (simp add: custom_exception_handler_def consistent_messages_def iter_consistent_walks walked_root split: option.split)

text \<open>A required name in the first of the items sent, and a message with no field.\<close>

lemma nested_messages_example:
  "iter_consistent [] (VDict [(VStr ''items'', VList [VDict [(VStr ''name'', VList [VStr ''required''])]]), (VStr ''detail'', VStr ''no'')])
    = [''items[0].name: required'', ''no'']"
  by code_simp

text \<open>
  The handler answers every exception DRF answers, with DRF's status, unless the flattener is
  misnamed; what DRF does not answer stays unanswered, except a database error when the service
  opted in, which is a 503.
\<close>

theorem handler_keeps_drf_status:
  "case custom_exception_handler st drf_status e of
     Inr (Some r) \<Rightarrow> (case drf_status e of
         Some status \<Rightarrow> response_status r = status
       | None \<Rightarrow> response_status r = 503 \<and> set_db_unavailable_503 st \<and> error_kind e = Database)
   | Inr None \<Rightarrow> drf_status e = None \<and> \<not> (set_db_unavailable_503 st \<and> error_kind e = Database)
   | Inl x \<Rightarrow> error_kind e = Drf_Validation \<and> \<not> set_consistent_envelope st
       \<and> dict_get FLATTENERS (set_flattener st) = None"
  by (auto simp: custom_exception_handler_def build_messages_def resolve_flattener_def res_simps Let_def
      split: sum.splits option.splits error_kind.splits)

text \<open>
  The default flattener always gives exactly one message for a validation argument, and every
  flattener returns a plain string argument as it is.
\<close>

theorem template_gives_one_message:
  "length (flatten_template obj) = 1 \<and> list_all (\<lambda>f. f (VStr s) = [VStr s]) (map snd FLATTENERS)"
  by (auto simp: flatten_template_def FLATTENERS_def flatten_keyed_def flatten_first_error_def flatten_nested_def
      split: option.splits list.splits)

end
