(* ===== verification/Sentry_Filters.thy ===== *)
theory Sentry_Filters
  imports Exceptions
begin

text \<open>
  \<open>netix_backend/observability/sentry_filters.py\<close>: the \<open>before_send\<close> filters. An event is a
  dictionary; exception objects live in a heap, because they are linked by \<open>__cause__\<close> and
  \<open>__context__\<close>, possibly in a cycle; a filter may write to the event it is given and may raise.
\<close>

section \<open>Exceptions and hints\<close>

record exc_obj =
  exc_type :: string
  exc_text :: string
  exc_mro :: "string list"
    \<comment> \<open>the names of its classes, its own first\<close>
  exc_cause :: "nat option"
  exc_context :: "nat option"
  exc_status :: "int option"
    \<comment> \<open>its \<open>status_code\<close>, when that is an integer\<close>

type_synonym exc_heap = "exc_obj list"

datatype hint_value = Hint_Exc nat | Hint_Other

record log_record =
  record_name :: string
  record_msg :: "string option"
    \<comment> \<open>\<open>None\<close> when it is not a string\<close>
  record_exc_type :: "string option"

record hint =
  hint_exc_info :: "hint_value list option"
  hint_original :: "hint_value option"
  hint_record :: "log_record option"

fun as_exception :: "hint_value \<Rightarrow> nat option" where
  "as_exception (Hint_Exc i) = Some i"
| "as_exception Hint_Other = None"

definition hint_exception :: "hint option \<Rightarrow> nat option" where
  "hint_exception h =
    (case h of
      None \<Rightarrow> None
    | Some h' \<Rightarrow>
        (case hint_exc_info h' of
          Some (t # e # rest) \<Rightarrow> as_exception e
        | _ \<Rightarrow> (case hint_original h' of None \<Rightarrow> None | Some v \<Rightarrow> as_exception v)))"

text \<open>
  The walk along causes and contexts, over the identities already seen. Every round sees one more
  object of the heap, which is why it ends even on a cycle.
\<close>

definition next_exc :: "exc_obj \<Rightarrow> nat option" where
  "next_exc e = (case exc_cause e of Some i \<Rightarrow> Some i | None \<Rightarrow> exc_context e)"

function chain_ids :: "exc_heap \<Rightarrow> nat option \<Rightarrow> nat list \<Rightarrow> nat list" where
  "chain_ids heap current seen =
    (case current of
      None \<Rightarrow> []
    | Some i \<Rightarrow>
        if i < length heap \<and> i \<notin> set seen
        then i # chain_ids heap (next_exc (heap ! i)) (i # seen) else [])"
  by pat_completeness auto
termination
proof (relation "measure (\<lambda>(heap, current, seen). card ({..<length heap} - set seen))")
  fix heap :: exc_heap and current :: "nat option" and seen :: "nat list" and i
  assume "i < length heap \<and> i \<notin> set seen"
  then have "{..<length heap} - set (i # seen) \<subset> {..<length heap} - set seen" by auto
  then have "card ({..<length heap} - set (i # seen)) < card ({..<length heap} - set seen)"
    by (intro psubset_card_mono) auto
  then show "((heap, next_exc (heap ! i), i # seen), (heap, current, seen))
      \<in> measure (\<lambda>(heap, current, seen). card ({..<length heap} - set seen))"
    by simp
qed simp

declare chain_ids.simps [simp del]

definition exception_chain_text :: "exc_heap \<Rightarrow> nat option \<Rightarrow> string list" where
  "exception_chain_text heap exc =
    map (\<lambda>i. exc_type (heap ! i) @ '': '' @ exc_text (heap ! i)) (chain_ids heap exc [])"

section \<open>The text of an event\<close>

type_synonym sentry_event = row

definition as_mapping :: "pyval \<Rightarrow> (pyval \<times> pyval) list option" where
  "as_mapping v = dict_items v"

definition exception_values :: "sentry_event \<Rightarrow> pyval list" where
  "exception_values ev =
    (case as_mapping (get_val ev ''exception'') of
      None \<Rightarrow> []
    | Some d \<Rightarrow> (case text_key d ''values'' of VList vs \<Rightarrow> vs | _ \<Rightarrow> []))"

definition value_text :: "pyval \<Rightarrow> string list" where
  "value_text exc_data =
    (case as_mapping exc_data of
      None \<Rightarrow> []
    | Some d \<Rightarrow>
        let t = text_key d ''type''; v = text_key d ''value'' in
        if truthy v then [if truthy t then py_str t @ '': '' @ py_str v else py_str v] else [])"

definition logentry_text :: "sentry_event \<Rightarrow> string list" where
  "logentry_text ev =
    (case as_mapping (get_val ev ''logentry'') of
      None \<Rightarrow> []
    | Some d \<Rightarrow> map (\<lambda>k. py_str (text_key d k)) (filter (\<lambda>k. truthy (text_key d k)) [''message'', ''formatted'']))"

definition or_blank :: "pyval \<Rightarrow> string" where
  "or_blank v = (if truthy v then py_str v else [])"

definition message_text :: "sentry_event \<Rightarrow> string list" where
  "message_text ev =
    (let m = get_val ev ''message'' in
     case as_mapping m of
       Some d \<Rightarrow> [or_blank (text_key d ''message''), or_blank (text_key d ''formatted'')]
     | None \<Rightarrow> if truthy m then [py_str m] else [])"

definition event_text_candidates :: "exc_heap \<Rightarrow> sentry_event \<Rightarrow> hint option \<Rightarrow> string list" where
  "event_text_candidates heap ev h =
    exception_chain_text heap (hint_exception h) @ concat (map value_text (exception_values ev))
    @ logentry_text ev @ message_text ev"

definition newline :: string where "newline = [char_of (10::nat)]"

definition event_text :: "exc_heap \<Rightarrow> sentry_event \<Rightarrow> hint option \<Rightarrow> string" where
  "event_text heap ev h = join newline (event_text_candidates heap ev h)"

definition matches_signature :: "string list \<Rightarrow> exc_heap \<Rightarrow> sentry_event \<Rightarrow> hint option \<Rightarrow> bool" where
  "matches_signature signatures heap ev h \<longleftrightarrow> list_ex (\<lambda>s. contains s (event_text heap ev h)) signatures"

section \<open>Filters\<close>

text \<open>
  What a call of a filter comes to: the event kept, as it is after the filter wrote to it; the event
  dropped; or an exception, which leaves the event as far as the filter had written it.
\<close>

datatype verdict = Kept sentry_event | Dropped | Raised sentry_event

type_synonym event_filter = "exc_heap \<Rightarrow> sentry_event \<Rightarrow> hint option \<Rightarrow> verdict"

definition drop_cancelled_errors :: event_filter where
  "drop_cancelled_errors heap ev h =
    (if (case hint_exception h of None \<Rightarrow> False
         | Some i \<Rightarrow> i < length heap \<and> ''CancelledError'' \<in> set (exc_mro (heap ! i))) then Dropped
     else if list_ex (\<lambda>v. case as_mapping v of None \<Rightarrow> False
         | Some d \<Rightarrow> eq_text (text_key d ''type'') ''CancelledError'') (exception_values ev) then Dropped
     else Kept ev)"

definition drop_client_errors :: "string list \<Rightarrow> int \<times> int \<Rightarrow> event_filter" where
  "drop_client_errors exception_classes status_range heap ev h =
    (let classes = (if exception_classes = [] then [''BaseException''] else exception_classes) in
     case hint_exception h of
       None \<Rightarrow> Kept ev
     | Some i \<Rightarrow>
         if \<not> (i < length heap \<and> list_ex (\<lambda>c. c \<in> set (exc_mro (heap ! i))) classes) then Kept ev
         else (case exc_status (heap ! i) of
             Some status_code \<Rightarrow>
               if fst status_range \<le> status_code \<and> status_code < snd status_range then Dropped else Kept ev
           | None \<Rightarrow> Kept ev))"

definition drop_matching_signatures :: "string list \<Rightarrow> event_filter" where
  "drop_matching_signatures signatures heap ev h =
    (if matches_signature signatures heap ev h then Dropped else Kept ev)"

definition has_fingerprint :: "sentry_event \<Rightarrow> bool" where
  "has_fingerprint ev \<longleftrightarrow> truthy (get_val ev ''fingerprint'')"

definition set_fingerprint :: "string list \<Rightarrow> sentry_event \<Rightarrow> sentry_event" where
  "set_fingerprint fingerprint ev = dict_set ''fingerprint'' (VList (map VStr fingerprint)) ev"

definition fingerprint_matching_signatures :: "string list \<Rightarrow> string list \<Rightarrow> event_filter" where
  "fingerprint_matching_signatures signatures fingerprint heap ev h =
    (if has_fingerprint ev then Kept ev
     else if matches_signature signatures heap ev h then Kept (set_fingerprint fingerprint ev)
     else Kept ev)"

definition group_log_events_by_template :: event_filter where
  "group_log_events_by_template heap ev h =
    (case (case h of None \<Rightarrow> None | Some h' \<Rightarrow> hint_record h') of
      None \<Rightarrow> Kept ev
    | Some r \<Rightarrow>
        (case record_msg r of
          None \<Rightarrow> Kept ev
        | Some template \<Rightarrow>
            if has_fingerprint ev then Kept ev
            else Kept (set_fingerprint ([record_name r, template]
              @ (case record_exc_type r of None \<Rightarrow> [] | Some t \<Rightarrow> [t])) ev)))"

fun chain :: "event_filter list \<Rightarrow> event_filter" where
  "chain [] heap ev h = Kept ev"
| "chain (f # fs) heap ev h =
    (case f heap ev h of
      Raised ev' \<Rightarrow> chain fs heap ev' h
    | Dropped \<Rightarrow> Dropped
    | Kept ev' \<Rightarrow> chain fs heap ev' h)"

section \<open>The ready-made filters\<close>

definition IGNORED_TELEMETRY_LOGGERS :: "string list" where
  "IGNORED_TELEMETRY_LOGGERS =
    [''opentelemetry.context'', ''opentelemetry.exporter.otlp.proto.grpc.exporter'', ''opentelemetry.sdk.trace.export'']"

definition DB_CONNECT_SIGNATURES :: "string list" where
  "DB_CONNECT_SIGNATURES =
    [''connection timeout expired'', ''connection failed: connection to server at'',
     ''consuming input failed: server closed the connection unexpectedly'',
     ''server closed the connection unexpectedly'', ''the connection is closed'',
     ''server login has been failing'', ''server conn crashed?'', ''server shutting down'', ''database removed'',
     ''the database system is shutting down'', ''the database system is starting up'',
     ''no more connections allowed'', ''query_wait_timeout'',
     ''terminating connection due to administrator command'']"

definition DB_READONLY_SIGNATURES :: "string list" where
  "DB_READONLY_SIGNATURES = [''in a read-only transaction'']"

definition DB_STATEMENT_TIMEOUT_SIGNATURES :: "string list" where
  "DB_STATEMENT_TIMEOUT_SIGNATURES = [''canceling statement due to statement timeout'']"

definition ASGI_EXECUTOR_TEARDOWN_SIGNATURES :: "string list" where
  "ASGI_EXECUTOR_TEARDOWN_SIGNATURES = [''CurrentThreadExecutor already quit or is broken'']"

definition READONLY_FINGERPRINT :: "string list" where
  "READONLY_FINGERPRINT = [''db-infra'', ''postgres-read-only-transaction'']"

definition CONNECT_FINGERPRINT :: "string list" where
  "CONNECT_FINGERPRINT = [''db-infra'', ''postgres-connection-failure'']"

definition fingerprint_db_infra_errors :: event_filter where
  "fingerprint_db_infra_errors = chain
    [fingerprint_matching_signatures DB_READONLY_SIGNATURES READONLY_FINGERPRINT,
     fingerprint_matching_signatures DB_CONNECT_SIGNATURES CONNECT_FINGERPRINT]"

definition fingerprint_db_statement_timeouts :: event_filter where
  "fingerprint_db_statement_timeouts =
    fingerprint_matching_signatures DB_STATEMENT_TIMEOUT_SIGNATURES [''db-infra'', ''postgres-statement-timeout'']"

definition fingerprint_asgi_executor_teardown :: event_filter where
  "fingerprint_asgi_executor_teardown =
    fingerprint_matching_signatures ASGI_EXECUTOR_TEARDOWN_SIGNATURES [''asgi-shutdown'', ''current-thread-executor-quit'']"

section \<open>The contract of a filter in a chain\<close>

text \<open>
  What the chain relies on: a filter never takes away a fingerprint that is set. Every filter that
  keeps the contract can be composed with others that do.
\<close>

locale fingerprint_respecting =
  fixes f :: event_filter
  assumes respects: "has_fingerprint ev \<Longrightarrow> f heap ev h = Dropped \<or> f heap ev h = Kept ev \<or> f heap ev h = Raised ev"
begin

lemma in_chain:
  "has_fingerprint ev \<Longrightarrow> chain (f # fs) heap ev h = Dropped \<or> chain (f # fs) heap ev h = chain fs heap ev h"
  using respects [of ev heap h] by auto

end

interpretation cancelled: fingerprint_respecting drop_cancelled_errors
  by unfold_locales (simp add: drop_cancelled_errors_def)

interpretation client: fingerprint_respecting "drop_client_errors cs r" for cs r
  by unfold_locales (simp add: drop_client_errors_def Let_def split: option.splits)

interpretation dropping: fingerprint_respecting "drop_matching_signatures s" for s
  by unfold_locales (simp add: drop_matching_signatures_def)

interpretation fingerprinting: fingerprint_respecting "fingerprint_matching_signatures s p" for s p
  by unfold_locales (simp add: fingerprint_matching_signatures_def)

interpretation grouping: fingerprint_respecting group_log_events_by_template
  by unfold_locales (simp add: group_log_events_by_template_def split: option.splits)

lemma chain_append:
  "chain (fs @ gs) heap ev h = (case chain fs heap ev h of Kept ev' \<Rightarrow> chain gs heap ev' h | v \<Rightarrow> v)"
  by (induction fs arbitrary: ev) (auto split: verdict.splits)

lemma chain_never_raises: "chain fs heap ev h \<noteq> Raised ev'"
  by (induction fs arbitrary: ev) (auto split: verdict.splits)

interpretation composed: fingerprint_respecting "chain [fingerprint_matching_signatures s p, fingerprint_matching_signatures t q]"
  for s p t q
  by unfold_locales (simp add: fingerprint_matching_signatures_def)

text \<open>The text of an event does not depend on its fingerprint.\<close>

lemma event_text_set_fingerprint [simp]: "event_text heap (set_fingerprint p ev) h = event_text heap ev h"
  by (simp add: event_text_def event_text_candidates_def exception_values_def logentry_text_def message_text_def
      set_fingerprint_def get_val_set)

lemma has_set_fingerprint [simp]: "has_fingerprint (set_fingerprint p ev) \<longleftrightarrow> p \<noteq> []"
  by (simp add: has_fingerprint_def set_fingerprint_def get_val_set)

section \<open>Lemmas on the chain of exceptions\<close>

lemma chain_ids_distinct: "distinct (chain_ids heap cur seen) \<and> set (chain_ids heap cur seen) \<inter> set seen = {}"
proof (induction heap cur seen rule: chain_ids.induct)
  case (1 heap cur seen)
  then show ?case
    by (subst (1 2) chain_ids.simps) (fastforce split: option.splits)
qed

lemma chain_ids_bounded: "set (chain_ids heap cur seen) \<subseteq> {..<length heap}"
proof (induction heap cur seen rule: chain_ids.induct)
  case (1 heap cur seen)
  then show ?case by (subst chain_ids.simps) (auto split: option.splits)
qed

text \<open>Each object is followed by its cause, or else its context.\<close>

fun linked :: "exc_heap \<Rightarrow> nat option \<Rightarrow> nat list \<Rightarrow> bool" where
  "linked heap cur [] = True"
| "linked heap cur (i # is) = (cur = Some i \<and> linked heap (next_exc (heap ! i)) is)"

fun walk_end :: "exc_heap \<Rightarrow> nat option \<Rightarrow> nat list \<Rightarrow> nat option" where
  "walk_end heap cur [] = cur"
| "walk_end heap cur (i # is) = walk_end heap (next_exc (heap ! i)) is"

lemma chain_ids_linked:
  "linked heap cur (chain_ids heap cur seen) \<and>
    (case walk_end heap cur (chain_ids heap cur seen) of None \<Rightarrow> True
     | Some i \<Rightarrow> length heap \<le> i \<or> i \<in> set seen \<union> set (chain_ids heap cur seen))"
proof (induction heap cur seen rule: chain_ids.induct)
  case (1 heap cur seen)
  show ?case
  proof (cases "\<exists>i. cur = Some i \<and> i < length heap \<and> i \<notin> set seen")
    case True
    then obtain i where i: "cur = Some i" "i < length heap" "i \<notin> set seen" by blast
    then have "chain_ids heap cur seen = i # chain_ids heap (next_exc (heap ! i)) (i # seen)"
      by (subst chain_ids.simps) simp
    with 1 [OF i(1)] i show ?thesis by (auto split: option.splits)
  next
    case False
    then have "chain_ids heap cur seen = []"
      by (subst chain_ids.simps) (auto split: option.splits)
    with False show ?thesis by (auto split: option.splits)
  qed
qed

section \<open>Properties\<close>

text \<open>
  C36. Walking an exception's chain always ends and reads each exception once, cycles included: the
  walk starts at the exception, goes from each to its cause or else its context, repeats none, and
  stops only where there is no next exception or the next one has been read.
\<close>

theorem chain_walk_ends:
  "distinct (chain_ids heap cur []) \<and> length (exception_chain_text heap cur) \<le> length heap \<and>
   linked heap cur (chain_ids heap cur []) \<and>
   (case walk_end heap cur (chain_ids heap cur []) of None \<Rightarrow> True
    | Some i \<Rightarrow> length heap \<le> i \<or> i \<in> set (chain_ids heap cur []))"
proof -
  have "card (set (chain_ids heap cur [])) \<le> card {..<length heap}"
    using chain_ids_bounded by (intro card_mono) auto
  then have "length (exception_chain_text heap cur) \<le> length heap"
    using chain_ids_distinct [of heap cur "[]"] by (simp add: exception_chain_text_def distinct_card)
  with chain_ids_distinct [of heap cur "[]"] chain_ids_linked [of heap cur "[]"] show ?thesis
    by (auto split: option.splits)
qed

text \<open>
  A composed filter never raises, whatever its filters do: a filter that raises is skipped, the
  first one that drops ends the chain, and running two chains one after the other is running their
  concatenation.
\<close>

theorem chain_total_and_compositional:
  "(\<forall>ev'. chain fs heap ev h \<noteq> Raised ev') \<and>
   chain (fs @ gs) heap ev h = (case chain fs heap ev h of Kept ev' \<Rightarrow> chain gs heap ev' h | v \<Rightarrow> v) \<and>
   (chain fs heap ev h = Dropped \<longleftrightarrow>
     (\<exists>as f bs ev'. fs = as @ f # bs \<and> chain as heap ev h = Kept ev' \<and> f heap ev' h = Dropped))"
proof (intro conjI)
  show "\<forall>ev'. chain fs heap ev h \<noteq> Raised ev'" by (simp add: chain_never_raises)
  show "chain (fs @ gs) heap ev h = (case chain fs heap ev h of Kept ev' \<Rightarrow> chain gs heap ev' h | v \<Rightarrow> v)"
    by (rule chain_append)
  have "\<exists>as f bs ev'. fs = as @ f # bs \<and> chain as heap ev h = Kept ev' \<and> f heap ev' h = Dropped"
    if "chain fs heap ev h = Dropped"
    using that
  proof (induction fs arbitrary: ev)
    case (Cons f fs)
    show ?case
    proof (cases "f heap ev h")
      case Dropped
      then show ?thesis by (intro exI [of _ "[]"]) auto
    next
      case (Kept ev1)
      with Cons obtain as g bs ev' where "fs = as @ g # bs" "chain as heap ev1 h = Kept ev'" "g heap ev' h = Dropped"
        by fastforce
      with Kept show ?thesis by (intro exI [of _ "f # as"] exI [of _ g] exI [of _ bs] exI [of _ ev']) simp
    next
      case (Raised ev1)
      with Cons obtain as g bs ev' where "fs = as @ g # bs" "chain as heap ev1 h = Kept ev'" "g heap ev' h = Dropped"
        by fastforce
      with Raised show ?thesis by (intro exI [of _ "f # as"] exI [of _ g] exI [of _ bs] exI [of _ ev']) simp
    qed
  qed simp
  then show "chain fs heap ev h = Dropped \<longleftrightarrow>
     (\<exists>as f bs ev'. fs = as @ f # bs \<and> chain as heap ev h = Kept ev' \<and> f heap ev' h = Dropped)"
    by (auto simp: chain_append)
qed

text \<open>
  The first fingerprint wins: a deliberate fingerprint is never overridden by the database rules,
  a read-only error is filed as one even when its text also looks like a connection failure, a
  connection failure is filed only otherwise, and an event that matches neither is unchanged; none
  of them is ever dropped, and grouping by log template afterwards does not refile them.
\<close>

theorem db_infra_fingerprint:
  "fingerprint_db_infra_errors heap ev h =
    Kept (if has_fingerprint ev then ev
      else if matches_signature DB_READONLY_SIGNATURES heap ev h then set_fingerprint READONLY_FINGERPRINT ev
      else if matches_signature DB_CONNECT_SIGNATURES heap ev h then set_fingerprint CONNECT_FINGERPRINT ev
      else ev)
   \<and> (has_fingerprint ev \<or> matches_signature (DB_READONLY_SIGNATURES @ DB_CONNECT_SIGNATURES) heap ev h \<longrightarrow>
      chain [fingerprint_db_infra_errors, group_log_events_by_template] heap ev h = fingerprint_db_infra_errors heap ev h)"
proof -
  have "READONLY_FINGERPRINT \<noteq> []" and "CONNECT_FINGERPRINT \<noteq> []"
    by (simp_all add: READONLY_FINGERPRINT_def CONNECT_FINGERPRINT_def)
  then show ?thesis
    by (auto simp: fingerprint_db_infra_errors_def fingerprint_matching_signatures_def matches_signature_def
        group_log_events_by_template_def split: option.splits)
qed

lemma db_infra_fingerprint_witness:
  "chain [fingerprint_db_infra_errors, group_log_events_by_template] []
     [(''message'', VStr ''cannot execute INSERT in a read-only transaction'')] None =
   fingerprint_db_infra_errors [] [(''message'', VStr ''cannot execute INSERT in a read-only transaction'')] None"
proof -
  have "matches_signature (DB_READONLY_SIGNATURES @ DB_CONNECT_SIGNATURES) []
      [(''message'', VStr ''cannot execute INSERT in a read-only transaction'')] None"
    by code_simp
  then show ?thesis using db_infra_fingerprint by blast
qed

end
