(* ===== verification/Databases.thy ===== *)
theory Databases
  imports Env Py_Value
begin

text \<open>
  \<open>netix_backend/database.py\<close>: Postgres aliases for Django's \<open>DATABASES\<close>. Every knob is a
  literal, a read of the environment, or \<open>OMIT\<close>; an alias is a dictionary in insertion order.
\<close>

section \<open>Knobs\<close>

definition POSTGRES_ENGINE :: string where "POSTGRES_ENGINE = ''django.db.backends.postgresql''"
definition POSTGIS_ENGINE :: string where "POSTGIS_ENGINE = ''django.contrib.gis.db.backends.postgis''"

text \<open>The default of a read: required, or what an unset variable reads as.\<close>

datatype env_default = Required | Default pyval

record from_env =
  env_var :: string
  env_dflt :: env_default
  env_cast :: "(pyval \<Rightarrow> pyval res) option"

datatype knob = Literal pyval | From_Env from_env | Omit

text \<open>The raw environment: an empty value is a value here.\<close>

definition env_resolve :: "environ \<Rightarrow> from_env \<Rightarrow> pyval res" where
  "env_resolve env r =
    rbind (case (env_dflt r, env (env_var r)) of
        (_, Some raw) \<Rightarrow> Inr (VStr raw)
      | (Required, None) \<Rightarrow> Inl (Key_Error (env_var r))
      | (Default d, None) \<Rightarrow> Inr d)
      (\<lambda>raw. case env_cast r of Some f \<Rightarrow> f raw | None \<Rightarrow> Inr raw)"

definition required_env :: "string \<Rightarrow> knob" where
  "required_env var = From_Env \<lparr>env_var = var, env_dflt = Required, env_cast = None\<rparr>"

fun put_knob :: "environ \<Rightarrow> row \<Rightarrow> string \<Rightarrow> knob \<Rightarrow> row res" where
  "put_knob env entry key Omit = Inr entry"
| "put_knob env entry key (Literal v) = Inr (dict_set key v entry)"
| "put_knob env entry key (From_Env r) = rbind (env_resolve env r) (\<lambda>v. Inr (dict_set key v entry))"

fun override_knob :: "environ \<Rightarrow> row \<Rightarrow> string \<Rightarrow> knob \<Rightarrow> row res" where
  "override_knob env entry key Omit = Inr (dict_pop key entry)"
| "override_knob env entry key (Literal v) = Inr (dict_set key v entry)"
| "override_knob env entry key (From_Env r) = rbind (env_resolve env r) (\<lambda>v. Inr (dict_set key v entry))"

text \<open>A sequence of calls of one of the two, the first that raises ending it.\<close>

fun apply_knobs :: "(row \<Rightarrow> string \<Rightarrow> knob \<Rightarrow> row res) \<Rightarrow> (string \<times> knob) list \<Rightarrow> row \<Rightarrow> row res" where
  "apply_knobs put [] entry = Inr entry"
| "apply_knobs put ((key, value) # kvs) entry = rbind (put entry key value) (apply_knobs put kvs)"

section \<open>Aliases\<close>

text \<open>
  The arguments. A plain argument that may be \<open>OMIT\<close> is an option, \<open>None\<close> when omitted;
  \<open>prepare_threshold\<close> is \<open>VNone\<close> by default, which sets the key.
\<close>

record alias_args =
  engine :: knob
  db_name :: knob
  db_user :: knob
  password :: knob
  db_host :: knob
  db_port :: knob
  atomic_requests :: knob
  disable_server_side_cursors :: knob
  conn_max_age :: knob
  conn_health_checks :: knob
  prepare_threshold :: "pyval option"
  connect_timeout :: knob
  db_options :: "row option"
  db_test :: knob
  db_extra :: row
  key_order :: "string list option"

definition default_alias :: alias_args where
  "default_alias = \<lparr>engine = Literal (VStr POSTGRES_ENGINE), db_name = required_env ''POSTGRES_NAME'',
    db_user = required_env ''POSTGRES_USER'', password = required_env ''POSTGRES_PASSWORD'',
    db_host = required_env ''POSTGRES_HOST'', db_port = required_env ''POSTGRES_PORT'',
    atomic_requests = Literal (VBool False), disable_server_side_cursors = Literal (VBool True),
    conn_max_age = Literal (VInt 0), conn_health_checks = Omit, prepare_threshold = Some VNone,
    connect_timeout = Omit, db_options = None, db_test = Omit, db_extra = [], key_order = None\<rparr>"

definition alias_options :: "environ \<Rightarrow> alias_args \<Rightarrow> row option res" where
  "alias_options env a =
    (if prepare_threshold a = None \<and> connect_timeout a = Omit \<and> db_options a = None then Inr None
     else rbind (put_knob env
          (case prepare_threshold a of None \<Rightarrow> [] | Some v \<Rightarrow> dict_set ''prepare_threshold'' v [])
          ''connect_timeout'' (connect_timeout a)) (\<lambda>resolved.
        Inr (Some (case db_options a of None \<Rightarrow> resolved | Some opts \<Rightarrow> dict_update resolved opts))))"

definition ordered_alias :: "row \<Rightarrow> string list option \<Rightarrow> row" where
  "ordered_alias entry order =
    (case order of
      None \<Rightarrow> entry
    | Some keys \<Rightarrow>
        dict_update (map (\<lambda>k. (k, get_val entry k)) (dedupe (filter (\<lambda>k. dict_get entry k \<noteq> None) keys))) entry)"

definition alias_knobs :: "alias_args \<Rightarrow> (string \<times> knob) list" where
  "alias_knobs a =
    [(''ENGINE'', engine a), (''NAME'', db_name a), (''USER'', db_user a), (''PASSWORD'', password a),
     (''HOST'', db_host a), (''PORT'', db_port a), (''CONN_MAX_AGE'', conn_max_age a),
     (''CONN_HEALTH_CHECKS'', conn_health_checks a), (''ATOMIC_REQUESTS'', atomic_requests a),
     (''DISABLE_SERVER_SIDE_CURSORS'', disable_server_side_cursors a)]"

text \<open>A row as the value of a key.\<close>

definition row_value :: "row \<Rightarrow> pyval" where
  "row_value r = VDict (map (\<lambda>(k, v). (VStr k, v)) r)"

definition postgres_database :: "environ \<Rightarrow> alias_args \<Rightarrow> row res" where
  "postgres_database env a =
    rbind (apply_knobs (put_knob env) (alias_knobs a) []) (\<lambda>entry.
    rbind (alias_options env a) (\<lambda>opts.
    rbind (put_knob env (case opts of None \<Rightarrow> entry | Some o' \<Rightarrow> dict_set ''OPTIONS'' (row_value o') entry)
        ''TEST'' (db_test a)) (\<lambda>entry'.
      Inr (ordered_alias (dict_update entry' (db_extra a)) (key_order a)))))"

definition replica_of :: "environ \<Rightarrow> row \<Rightarrow> knob \<Rightarrow> knob \<Rightarrow> knob \<Rightarrow> (string \<times> knob) list \<Rightarrow> row res" where
  "replica_of env primary host port test overrides =
    apply_knobs (override_knob env)
      ([(''HOST'', host), (''PORT'', port), (''TEST'', test)] @ map (\<lambda>(k, v). (upper k, v)) overrides)
      (dict_update [] primary)"

section \<open>Lemmas\<close>

text \<open>What a knob makes of a key: dropped or left, or set to its value.\<close>

definition knob_value :: "environ \<Rightarrow> knob \<Rightarrow> pyval res" where
  "knob_value env k = (case k of Literal v \<Rightarrow> Inr v | From_Env r \<Rightarrow> env_resolve env r | Omit \<Rightarrow> Inr VNone)"

lemma put_knob_get:
  "put_knob env entry key k = Inr entry' \<Longrightarrow>
    dict_get entry' j = (if j = key \<and> k \<noteq> Omit then Some (case knob_value env k of Inr v \<Rightarrow> v | Inl e \<Rightarrow> VNone)
      else dict_get entry j)"
  by (cases k) (auto simp: res_simps dict_simps knob_value_def split: sum.splits)

lemma override_knob_get:
  "override_knob env entry key k = Inr entry' \<Longrightarrow>
    dict_get entry' j = (if j = key then (if k = Omit then None
        else Some (case knob_value env k of Inr v \<Rightarrow> v | Inl e \<Rightarrow> VNone)) else dict_get entry j)"
  by (cases k) (auto simp: res_simps dict_simps knob_value_def split: sum.splits)

lemma put_knob_ok: "put_knob env entry key k = Inr entry' \<Longrightarrow> dict_ok entry \<Longrightarrow> dict_ok entry'"
  by (cases k) (auto simp: res_simps)

lemma put_knob_value:
  "put_knob env entry key k = Inr entry' \<Longrightarrow> \<exists>v. knob_value env k = Inr v"
  by (cases k) (auto simp: res_simps knob_value_def)

lemma apply_puts_get:
  assumes "apply_knobs (put_knob env) kvs entry = Inr entry'" and "distinct (map fst kvs)"
  shows "dict_get entry' j = (case map_of kvs j of
      None \<Rightarrow> dict_get entry j
    | Some k \<Rightarrow> if k = Omit then dict_get entry j else Some (case knob_value env k of Inr v \<Rightarrow> v | Inl e \<Rightarrow> VNone))"
  using assms
proof (induction kvs arbitrary: entry)
  case (Cons p kvs)
  obtain key k where p: "p = (key, k)" by force
  with Cons.prems(1) obtain e1 where e1: "put_knob env entry key k = Inr e1"
    and rest: "apply_knobs (put_knob env) kvs e1 = Inr entry'" by (auto simp: res_simps)
  have "map_of kvs key = None" using Cons.prems(2) p by (simp add: map_of_eq_None_iff)
  with Cons.IH [OF rest] Cons.prems(2) p put_knob_get [OF e1, of j] show ?case
    by (auto split: option.splits)
qed simp

lemma apply_puts_ok: "apply_knobs (put_knob env) kvs entry = Inr entry' \<Longrightarrow> dict_ok entry \<Longrightarrow> dict_ok entry'"
proof (induction kvs arbitrary: entry)
  case (Cons p kvs)
  then show ?case using put_knob_ok by (cases p) (fastforce simp: res_simps)
qed simp

lemma apply_puts_Inl:
  "(\<exists>e. apply_knobs (put_knob env) kvs entry = Inl e) \<longleftrightarrow> (\<exists>p \<in> set kvs. \<exists>e. knob_value env (snd p) = Inl e)"
proof (induction kvs arbitrary: entry)
  case (Cons p kvs)
  obtain key k where "p = (key, k)" by force
  moreover have "(\<exists>e. put_knob env entry key k = Inl e) \<longleftrightarrow> (\<exists>e. knob_value env k = Inl e)"
    by (cases k) (auto simp: res_simps knob_value_def)
  ultimately show ?case
    using Cons.IH by (cases "put_knob env entry key k") auto
qed simp

lemma ordered_alias_get: "dict_ok entry \<Longrightarrow> dict_get (ordered_alias entry order) j = dict_get entry j"
  by (auto simp: ordered_alias_def dict_get_update_ok dict_get_map_self get_val_def split: option.splits)

text \<open>A later override of a key wins.\<close>

lemma apply_overrides_get:
  "apply_knobs (override_knob env) kvs entry = Inr entry' \<Longrightarrow>
    dict_get entry' j = (case map_of (rev kvs) j of
      None \<Rightarrow> dict_get entry j
    | Some k \<Rightarrow> if k = Omit then None else Some (case knob_value env k of Inr v \<Rightarrow> v | Inl e \<Rightarrow> VNone))"
proof (induction kvs arbitrary: entry)
  case (Cons p kvs)
  obtain key k where p: "p = (key, k)" by force
  with Cons.prems obtain e1 where e1: "override_knob env entry key k = Inr e1"
    and rest: "apply_knobs (override_knob env) kvs e1 = Inr entry'" by (auto simp: res_simps)
  from Cons.IH [OF rest] p override_knob_get [OF e1, of j] show ?case
    by (auto simp: map_add_def split: option.splits)
qed simp

section \<open>Properties\<close>

text \<open>
  An alias holds exactly what its knobs say: for the ten plain keys, an omitted knob leaves the
  key out and any other sets it to the literal or to the variable as it is now, empty values
  included, unless \<open>extra\<close> sets the key; reordering the keys changes no value. A required variable
  that is unset, or a cast that fails, raises and no alias is built.
\<close>

theorem alias_holds_knobs:
  assumes "postgres_database env a = Inr entry" and "dict_ok (db_extra a)" and "(key, k) \<in> set (alias_knobs a)"
  shows "dict_get entry key =
    (case dict_get (db_extra a) key of
      Some v \<Rightarrow> Some v
    | None \<Rightarrow> (case k of
        Omit \<Rightarrow> None
      | Literal v \<Rightarrow> Some v
      | From_Env r \<Rightarrow> (case env_resolve env r of Inr v \<Rightarrow> Some v | Inl e \<Rightarrow> None)))"
proof -
  obtain e0 opts e1 where e0: "apply_knobs (put_knob env) (alias_knobs a) [] = Inr e0"
    and e1: "put_knob env (case opts of None \<Rightarrow> e0 | Some o' \<Rightarrow> dict_set ''OPTIONS'' (row_value o') e0) ''TEST'' (db_test a) = Inr e1"
    and entry: "entry = ordered_alias (dict_update e1 (db_extra a)) (key_order a)"
    using assms(1) by (auto simp: postgres_database_def res_simps)
  have dist: "distinct (map fst (alias_knobs a))" by (simp add: alias_knobs_def)
  have key: "key \<noteq> ''OPTIONS''" "key \<noteq> ''TEST''" using assms(3) by (auto simp: alias_knobs_def)
  have ok0: "dict_ok e0" using apply_puts_ok [OF e0] by simp
  then have "dict_ok e1" using put_knob_ok [OF e1] by (cases opts) auto
  then have ok: "dict_ok (dict_update e1 (db_extra a))" by simp
  have "map_of (alias_knobs a) key = Some k" using dist assms(3) by simp
  with apply_puts_get [OF e0 dist, of key]
  have "dict_get e0 key = (if k = Omit then None else Some (case knob_value env k of Inr v \<Rightarrow> v | Inl e \<Rightarrow> VNone))"
    by simp
  moreover have "dict_get e1 key = dict_get e0 key"
    using put_knob_get [OF e1, of key] key by (auto simp: dict_simps split: option.splits)
  moreover have "dict_get entry key = (case dict_get (db_extra a) key of Some v \<Rightarrow> Some v | None \<Rightarrow> dict_get e1 key)"
    unfolding entry ordered_alias_get [OF ok] by (simp add: dict_get_update_ok assms(2))
  moreover have "\<exists>v. knob_value env k = Inr v"
  proof (rule ccontr)
    assume "\<nexists>v. knob_value env k = Inr v"
    then obtain e where "knob_value env k = Inl e" by (cases "knob_value env k") auto
    with assms(3) apply_puts_Inl [of env "alias_knobs a" "[]"] e0 show False by fastforce
  qed
  ultimately show ?thesis
    by (auto simp: knob_value_def split: option.splits knob.splits)
qed

abbreviation postgres_environ :: environ where
  "postgres_environ \<equiv> (\<lambda>name. if name = ''POSTGRES_HOST'' then Some [] else Some ''x'')"

lemma alias_holds_knobs_witness:
  "\<exists>entry. postgres_database postgres_environ default_alias = Inr entry \<and> dict_get entry ''HOST'' = Some (VStr [])"
proof -
  have "\<exists>entry. postgres_database postgres_environ default_alias = Inr entry"
    by (simp add: postgres_database_def alias_knobs_def default_alias_def required_env_def env_resolve_def
        alias_options_def)
  then obtain entry where entry: "postgres_database postgres_environ default_alias = Inr entry" ..
  have "(''HOST'', required_env ''POSTGRES_HOST'') \<in> set (alias_knobs default_alias)"
    by (simp add: alias_knobs_def default_alias_def)
  from alias_holds_knobs [OF entry _ this] entry show ?thesis
    by (simp add: default_alias_def required_env_def env_resolve_def)
qed

text \<open>
  A replica is its primary with the overrides and nothing else: every key reads as the last
  override of it says, dropped for \<open>OMIT\<close>, and as in the primary when nothing overrides it.
\<close>

theorem replica_is_primary_overridden:
  assumes "replica_of env primary host port test overrides = Inr replica" and "dict_ok primary"
  shows "dict_get replica key =
    (case map_of (rev ([(''HOST'', host), (''PORT'', port), (''TEST'', test)] @ map (\<lambda>(k, v). (upper k, v)) overrides)) key of
      None \<Rightarrow> dict_get primary key
    | Some Omit \<Rightarrow> None
    | Some (Literal v) \<Rightarrow> Some v
    | Some (From_Env r) \<Rightarrow> Some (case env_resolve env r of Inr v \<Rightarrow> v | Inl e \<Rightarrow> VNone))"
  using apply_overrides_get [OF assms(1) [unfolded replica_of_def], of key] dict_update_Nil [OF assms(2)]
  by (auto simp: knob_value_def split: option.splits knob.splits)

lemma replica_is_primary_overridden_witness:
  "dict_get [(''HOST'', VStr ''r''), (''PORT'', VInt 1)] ''HOST'' = Some (VStr ''r'')"
proof -
  have "replica_of (\<lambda>n. None) [(''HOST'', VStr ''p''), (''PORT'', VInt 1)] (Literal (VStr ''r'')) (Literal (VInt 1)) Omit [] =
      Inr [(''HOST'', VStr ''r''), (''PORT'', VInt 1)]"
    by (simp add: replica_of_def dict_update_def dict_set_def dict_pop_def)
  from replica_is_primary_overridden [OF this, of "''HOST''"] show ?thesis by (simp add: dict_ok_def)
qed

end
