(* ===== verification/Clients.thy ===== *)
theory Clients
  imports Retry Discovery "HOL-Library.List_Lexorder" "HOL-Library.Char_ord"
begin

text \<open>
  \<open>netix_backend/http/clients.py\<close>: the factory of generated API clients and its process-wide
  cache. A client class is third-party code: it is known by its qualified name, by the setters it
  has and by what its constructor raises for given arguments. A built client is the record of what
  it was given, with the number of the construction that made it as its identity. The cache lock
  makes the calls of several threads a sequence.
\<close>

section \<open>What a client is built from\<close>

definition DEFAULT_ACCEPT :: string where "DEFAULT_ACCEPT = ''application/json''"
definition POOL_ACQUIRE_TIMEOUT :: pyfloat where "POOL_ACQUIRE_TIMEOUT = Fin 5"

record pool_limits =
  max_connections :: int
  max_keepalive_connections :: int

definition DEFAULT_LIMITS :: pool_limits where
  "DEFAULT_LIMITS = \<lparr>max_connections = 20, max_keepalive_connections = 10\<rparr>"

definition ENV_SUFFIXES :: "(string, string) dict" where
  "ENV_SUFFIXES = [(''url'', ''URL''), (''accept'', ''HEADERS''), (''auth'', ''AUTH''),
    (''verify_ssl'', ''VERIFY_SSL''), (''raise_status'', ''RAISE_ON_UNEXPECTED_STATUS''),
    (''timeout'', ''TIMEOUT'')]"

definition build_headers :: "string \<Rightarrow> string option \<Rightarrow> (string, string) dict option \<Rightarrow> (string, string) dict" where
  "build_headers accept authorization extra =
    (let headers = [(''Accept'', accept)];
         headers = (case authorization of
             None \<Rightarrow> headers
           | Some a \<Rightarrow> if a = [] then headers else dict_set ''Authorization'' a headers)
     in case extra of None \<Rightarrow> headers | Some e \<Rightarrow> dict_update headers e)"

definition env_keys :: "string list option \<Rightarrow> string \<Rightarrow> string \<Rightarrow> string list" where
  "env_keys explicit service part =
    (case explicit of
      Some (k # ks) \<Rightarrow> k # ks
    | _ \<Rightarrow> [upper service @ ''_SVC_'' @ the_default [] (dict_get ENV_SUFFIXES part)])"

definition required_float :: "environ \<Rightarrow> string list \<Rightarrow> pyfloat res" where
  "required_float env keys =
    rbind (env_first env keys None True) (\<lambda>raw.
      case py_float (the_default [] raw) of
        Some x \<Rightarrow> Inr x
      | None \<Rightarrow> Inl (Configuration_Error (hd keys @ ''='' @ repr_str (the_default [] raw) @ '' is not a number'')))"

section \<open>Clients\<close>

text \<open>\<open>httpx.Timeout(t, pool=p)\<close>: connecting, reading and writing share \<open>t\<close>.\<close>

record client_timeout =
  io_timeout :: pyfloat
  pool_timeout :: pyfloat

text \<open>A retry transport: its policy, the pool limits and certificate verification.\<close>

record transport =
  tr_policy :: retry_policy
  tr_limits :: pool_limits
  tr_verify :: bool

record client_settings =
  base_url :: string
  client_headers :: "(string, string) dict"
  client_verify :: bool
  timeouts :: client_timeout
  follow_redirects :: bool
  client_transport :: transport

record client =
  build_number :: nat
  settings :: client_settings
  raise_on_unexpected_status :: bool
  sync_client :: "client_settings option"
  async_client :: "client_settings option"

record client_class =
  qualified_name :: string
  has_set_httpx_client :: bool
  has_set_async_httpx_client :: bool
  constructor_error :: "client_settings \<Rightarrow> bool \<Rightarrow> exc option"

record build_args =
  service :: string
  registry_name :: "string option"
  url_keys :: "string list option"
  accept_keys :: "string list option"
  auth_keys :: "string list option"
  verify_ssl_keys :: "string list option"
  raise_status_keys :: "string list option"
  timeout_keys :: "string list option"
  authorization :: bool
  extra_headers :: "(string, string) dict option"
  use_cache :: bool
  limits :: pool_limits
  pool_wait :: pyfloat
  retry_count :: "int option"

type_synonym key_table = "(string, string list) dict"

definition resolved_keys :: "build_args \<Rightarrow> key_table" where
  "resolved_keys a =
    map (\<lambda>(part, explicit). (part, env_keys explicit (service a) part))
      [(''url'', url_keys a), (''accept'', accept_keys a), (''auth'', auth_keys a),
       (''verify_ssl'', verify_ssl_keys a), (''raise_status'', raise_status_keys a),
       (''timeout'', timeout_keys a)]"

definition keys_of :: "key_table \<Rightarrow> string \<Rightarrow> string list" where
  "keys_of keys part = the_default [] (dict_get keys part)"

text \<open>
  \<open>bound\<close> are the Django settings bound to the retry knobs, \<open>number\<close> the number of this
  construction. The eager synchronous client shares the transport handed to the constructor; the
  asynchronous one gets its own.
\<close>

definition construct_client ::
  "environ \<Rightarrow> bound_settings \<Rightarrow> client_class \<Rightarrow> nat \<Rightarrow> string \<Rightarrow> key_table \<Rightarrow> build_args \<Rightarrow> client res" where
  "construct_client env bound cls number url keys a =
    rbind (env_first env (keys_of keys ''accept'') (Some DEFAULT_ACCEPT) False) (\<lambda>accept.
    rbind (env_first env (keys_of keys ''verify_ssl'') None False) (\<lambda>verify_raw.
    rbind (env_first env (keys_of keys ''raise_status'') None False) (\<lambda>raise_raw.
    rbind (required_float env (keys_of keys ''timeout'')) (\<lambda>timeout_seconds.
    rbind (if authorization a
           then rbind (service_authorization env (keys_of keys ''auth'') default_credential) (\<lambda>v. Inr (Some v))
           else Inr None) (\<lambda>auth.
    rbind (init_policy env bound (retry_count a) None False MAX_RETRY_AFTER_SECONDS) (\<lambda>policy.
    let verify = parse_bool verify_raw False;
        tr = \<lparr>tr_policy = policy, tr_limits = limits a, tr_verify = verify\<rparr>;
        st = \<lparr>base_url = url,
              client_headers = build_headers (the_default [] accept) auth (extra_headers a),
              client_verify = verify,
              timeouts = \<lparr>io_timeout = timeout_seconds, pool_timeout = pool_wait a\<rparr>,
              follow_redirects = False, client_transport = tr\<rparr>;
        raises = parse_bool raise_raw False
    in case constructor_error cls st raises of
         Some e \<Rightarrow> Inl e
       | None \<Rightarrow> Inr
          \<lparr>build_number = number, settings = st, raise_on_unexpected_status = raises,
           sync_client = (if has_set_httpx_client cls then Some st else None),
           async_client = (if has_set_async_httpx_client cls then Some st else None)\<rparr>))))))"

section \<open>The factory and its cache\<close>

type_synonym cache_key = "string \<times> string \<times> bool \<times> key_table \<times> string"

definition cache_key :: "client_class \<Rightarrow> build_args \<Rightarrow> string \<Rightarrow> cache_key" where
  "cache_key cls a url =
    (qualified_name cls, upper (service a), authorization a, sort_key fst (resolved_keys a), url)"

text \<open>The module's state: the cache, the constructions so far and the registry's snapshot.\<close>

record factory =
  client_cache :: "(cache_key, client) dict"
  constructions :: nat
  registry :: snapshot

definition fresh_factory :: factory where
  "fresh_factory = \<lparr>client_cache = [], constructions = 0, registry = empty_snapshot\<rparr>"

definition reset_client_cache :: "factory \<Rightarrow> factory" where
  "reset_client_cache f = f\<lparr>client_cache := []\<rparr>"

text \<open>What a call reads from outside: the environment, the bound settings, the clock, the registry.\<close>

record outside =
  out_env :: environ
  out_bound :: bound_settings
  out_now :: real
  out_fetch :: "fetched option"

text \<open>The registry is only consulted when a name is given; the base URL is the one it has, else the variable.\<close>

definition client_url :: "outside \<Rightarrow> build_args \<Rightarrow> factory \<Rightarrow> string res \<times> factory" where
  "client_url w a f =
    (let asks = (case registry_name a of None \<Rightarrow> False | Some n \<Rightarrow> n \<noteq> []);
         f' = (if asks then f\<lparr>registry := snd (current (out_now w) (out_fetch w) (registry f))\<rparr> else f);
         found = (if asks then service_url (out_env w) (registry f') (the (registry_name a)) None else None)
     in case found of
          Some url \<Rightarrow> (Inr url, f')
        | None \<Rightarrow> (rbind (env_first (out_env w) (keys_of (resolved_keys a) ''url'') None True)
            (\<lambda>url. Inr (the_default [] url)), f'))"

definition build_client :: "outside \<Rightarrow> client_class \<Rightarrow> build_args \<Rightarrow> factory \<Rightarrow> client res \<times> factory" where
  "build_client w cls a f =
    (case client_url w a f of
      (Inl e, f') \<Rightarrow> (Inl e, f')
    | (Inr url, f') \<Rightarrow>
        (let built = construct_client (out_env w) (out_bound w) cls (constructions f') url (resolved_keys a) a;
             counted = f'\<lparr>constructions := constructions f' + 1\<rparr>
         in if \<not> use_cache a then (built, if isl built then f' else counted)
            else (case dict_get (client_cache f') (cache_key cls a url) of
                Some c \<Rightarrow> (Inr c, f')
              | None \<Rightarrow>
                  (case built of
                    Inl e \<Rightarrow> (Inl e, f')
                  | Inr c \<Rightarrow> (Inr c, counted\<lparr>client_cache := dict_set (cache_key cls a url) c (client_cache f')\<rparr>)))))"

text \<open>A history of calls, each with the world it meets.\<close>

datatype factory_event = Build outside client_class build_args | Reset_Cache

definition factory_step :: "factory_event \<Rightarrow> factory \<Rightarrow> factory" where
  "factory_step e f =
    (case e of Build w cls a \<Rightarrow> snd (build_client w cls a f) | Reset_Cache \<Rightarrow> reset_client_cache f)"

definition factory_run :: "factory_event list \<Rightarrow> factory \<Rightarrow> factory" where
  "factory_run es f = fold factory_step es f"

section \<open>Lemmas\<close>

lemma client_url_keeps: "client_cache (snd (client_url w a f)) = client_cache f"
  "constructions (snd (client_url w a f)) = constructions f"
  by (auto simp: client_url_def Let_def split: option.splits)

text \<open>The four ways a call ends: an error, a client of its own, the cached client, or a new one that is kept.\<close>

lemma build_client_cases:
  assumes "build_client w cls a f = (r, f')"
  obtains (failed) e where "r = Inl e" "client_cache f' = client_cache f" "constructions f' = constructions f"
  | (own) url c where "\<not> use_cache a" "fst (client_url w a f) = Inr url" "r = Inr c"
      "construct_client (out_env w) (out_bound w) cls (constructions f) url (resolved_keys a) a = Inr c"
      "client_cache f' = client_cache f" "constructions f' = constructions f + 1"
  | (hit) url c where "use_cache a" "fst (client_url w a f) = Inr url" "r = Inr c"
      "dict_get (client_cache f) (cache_key cls a url) = Some c"
      "client_cache f' = client_cache f" "constructions f' = constructions f"
  | (kept) url c where "use_cache a" "fst (client_url w a f) = Inr url" "r = Inr c"
      "construct_client (out_env w) (out_bound w) cls (constructions f) url (resolved_keys a) a = Inr c"
      "dict_get (client_cache f) (cache_key cls a url) = None"
      "client_cache f' = dict_set (cache_key cls a url) c (client_cache f)"
      "constructions f' = constructions f + 1"
proof -
  obtain u f1 where u: "client_url w a f = (u, f1)" by force
  have keep: "client_cache f1 = client_cache f" "constructions f1 = constructions f"
    using client_url_keeps [of w a f] u by simp_all
  show thesis
  proof (cases u)
    case (Inl e)
    with u assms keep failed show thesis by (auto simp: build_client_def)
  next
    case (Inr url)
    have fst: "fst (client_url w a f) = Inr url" using u Inr by simp
    obtain built where built:
      "construct_client (out_env w) (out_bound w) cls (constructions f) url (resolved_keys a) a = built" by simp
    have step: "(r, f') = (if \<not> use_cache a then (built, if isl built then f1 else f1\<lparr>constructions := constructions f + 1\<rparr>)
      else (case dict_get (client_cache f) (cache_key cls a url) of
          Some c \<Rightarrow> (Inr c, f1)
        | None \<Rightarrow> (case built of Inl e \<Rightarrow> (Inl e, f1)
            | Inr c \<Rightarrow> (Inr c, f1\<lparr>constructions := constructions f + 1,
                client_cache := dict_set (cache_key cls a url) c (client_cache f)\<rparr>))))"
      unfolding assms [symmetric] by (simp add: build_client_def Let_def u Inr keep built split: option.split sum.split)
    show thesis
    proof (cases built)
      case (Inl e)
      with step fst keep failed hit show thesis
        by (cases "use_cache a"; cases "dict_get (client_cache f) (cache_key cls a url)") auto
    next
      case (Inr c)
      note b = built [unfolded Inr]
      show thesis
      proof (cases "use_cache a")
        case False
        with step Inr keep own [OF False fst _ b] show thesis by simp
      next
        case True
        show thesis
        proof (cases "dict_get (client_cache f) (cache_key cls a url)")
          case None
          with step Inr True keep kept [OF True fst _ b None] show thesis by simp
        next
          case (Some d)
          with step Inr True keep hit [OF True fst _ Some] show thesis by simp
        qed
      qed
    qed
  qed
qed

lemma construct_client_settings:
  assumes "construct_client env bound cls n url keys a = Inr c"
  shows "base_url (settings c) = url" and "build_number c = n"
    and "sync_client c = (if has_set_httpx_client cls then Some (settings c) else None)"
    and "async_client c = (if has_set_async_httpx_client cls then Some (settings c) else None)"
  using assms by (auto simp: construct_client_def res_simps Let_def split: option.splits)

lemma construct_client_headers:
  assumes "construct_client env bound cls n url keys a = Inr c"
  obtains accept auth where
    "client_headers (settings c) = build_headers accept auth (extra_headers a)"
    "if authorization a
     then \<exists>v. auth = Some v \<and> service_authorization env (keys_of keys ''auth'') default_credential = Inr v
     else auth = None"
  using assms by (force simp: construct_client_def res_simps Let_def split: option.splits if_splits)

lemma authorization_header:
  "dict_get (build_headers accept auth extra) ''Authorization'' =
    (case extra of
      None \<Rightarrow> (case auth of Some v \<Rightarrow> if v = [] then None else Some v | None \<Rightarrow> None)
    | Some e \<Rightarrow> (case map_of (rev e) ''Authorization'' of
        Some v \<Rightarrow> Some v
      | None \<Rightarrow> (case auth of Some v \<Rightarrow> if v = [] then None else Some v | None \<Rightarrow> None)))"
  by (auto simp: build_headers_def Let_def dict_simps split: option.splits)

text \<open>The parts of a key table have distinct names, so sorting loses nothing.\<close>

lemma resolved_keys_parts: "map fst (resolved_keys a) = [''url'', ''accept'', ''auth'', ''verify_ssl'', ''raise_status'', ''timeout'']"
  by (simp add: resolved_keys_def)

lemma sorted_keys_inject:
  assumes "sort_key fst (resolved_keys a) = sort_key fst (resolved_keys b)"
  shows "resolved_keys a = resolved_keys b"
proof -
  have "set (resolved_keys a) = set (resolved_keys b)" using arg_cong [OF assms, of set] by simp
  moreover have "distinct (map fst (resolved_keys a))" "distinct (map fst (resolved_keys b))"
    by (simp_all add: resolved_keys_parts)
  ultimately have m: "map_of (resolved_keys a) = map_of (resolved_keys b)"
    using map_of_inject_set by blast
  have "resolved_keys x = map (\<lambda>p. (p, the (map_of (resolved_keys x) p)))
      [''url'', ''accept'', ''auth'', ''verify_ssl'', ''raise_status'', ''timeout'']" for x
    by (simp add: resolved_keys_def)
  from this [of a] this [of b] m show ?thesis by simp
qed

text \<open>Where every cached client comes from: a caching call of the history, of the identity it is kept under.\<close>

definition provenance :: "factory_event list \<Rightarrow> cache_key \<Rightarrow> client \<Rightarrow> bool" where
  "provenance es key c \<longleftrightarrow> (\<exists>w cls a url n. Build w cls a \<in> set es \<and> key = cache_key cls a url \<and>
    construct_client (out_env w) (out_bound w) cls n url (resolved_keys a) a = Inr c)"

lemma provenanceI:
  assumes "construct_client (out_env w) (out_bound w) cls n url (resolved_keys a) a = Inr c" and "Build w cls a \<in> set es"
  shows "provenance es (cache_key cls a url) c"
  unfolding provenance_def using assms by blast

lemma provenance_later: "provenance es key c \<Longrightarrow> provenance (es @ es') key c"
  unfolding provenance_def by fastforce

definition cache_ok :: "factory_event list \<Rightarrow> factory \<Rightarrow> bool" where
  "cache_ok es f \<longleftrightarrow> (\<forall>key c. dict_get (client_cache f) key = Some c \<longrightarrow> provenance es key c \<and> build_number c < constructions f) \<and>
    (\<forall>k k' c c'. dict_get (client_cache f) k = Some c \<longrightarrow> dict_get (client_cache f) k' = Some c' \<longrightarrow>
      build_number c = build_number c' \<longrightarrow> k = k')"

lemma cache_okD: "cache_ok es f \<Longrightarrow> dict_get (client_cache f) key = Some c \<Longrightarrow> provenance es key c"
  unfolding cache_ok_def by blast

text \<open>Keeping a new client, whose number is fresh, keeps the invariant.\<close>

lemma cache_ok_insert:
  assumes "cache_ok es f" and "provenance es key c" and "build_number c = constructions f"
    and "client_cache f' = dict_set key c (client_cache f)" and "constructions f' = constructions f + 1"
  shows "cache_ok es f'"
  unfolding cache_ok_def
proof (intro conjI allI impI)
  fix k d
  assume "dict_get (client_cache f') k = Some d"
  with assms show "provenance es k d" "build_number d < constructions f'"
    by (auto simp: cache_ok_def dict_simps less_Suc_eq simp del: split_paired_All split: if_splits)
next
  fix k k' d d'
  assume "dict_get (client_cache f') k = Some d" "dict_get (client_cache f') k' = Some d'"
    "build_number d = build_number d'"
  moreover have "dict_get (client_cache f) j = Some x \<Longrightarrow> build_number x \<noteq> constructions f" for j x
    using assms(1) unfolding cache_ok_def by (metis less_irrefl)
  ultimately show "k = k'"
    using assms(1,3,4) by (auto simp: cache_ok_def dict_simps simp del: split_paired_All split: if_splits)
qed

lemma cache_ok_later: "cache_ok es f \<Longrightarrow> cache_ok (es @ es') f"
  using provenance_later [of es _ _ es'] unfolding cache_ok_def by blast

lemma cache_ok_build:
  assumes "cache_ok es f" and "build_client w cls a f = (r, f')" and "Build w cls a \<in> set es"
  shows "cache_ok es f'"
  using assms(2)
proof (cases rule: build_client_cases)
  case (own url c)
  with assms(1) show ?thesis by (auto simp: cache_ok_def less_Suc_eq simp del: split_paired_All)
next
  case (kept url c)
  then have "provenance es (cache_key cls a url) c" "build_number c = constructions f"
    using construct_client_settings(2) provenanceI [OF _ assms(3)] by blast+
  with kept cache_ok_insert [OF assms(1)] show ?thesis by simp
qed (use assms(1) in \<open>simp_all add: cache_ok_def\<close>)

lemma cache_ok_run: "cache_ok past f \<Longrightarrow> cache_ok (past @ es) (factory_run es f)"
proof (induction es arbitrary: f past)
  case (Cons e es)
  have "cache_ok (past @ [e]) f" using Cons.prems by (rule cache_ok_later)
  then have "cache_ok (past @ [e]) (factory_step e f)"
  proof (cases e)
    case (Build w cls a)
    with cache_ok_build [OF \<open>cache_ok (past @ [e]) f\<close>] show ?thesis
      by (cases "build_client w cls a f") (simp add: factory_step_def)
  next
    case Reset_Cache
    then show ?thesis by (simp add: factory_step_def reset_client_cache_def cache_ok_def)
  qed
  from Cons.IH [OF this] show ?case by (simp add: factory_run_def)
qed (simp add: factory_run_def)

lemma cache_ok_fresh: "cache_ok [] fresh_factory"
  by (simp add: cache_ok_def fresh_factory_def)

lemma cache_ok_history: "cache_ok es (factory_run es fresh_factory)"
  using cache_ok_run [OF cache_ok_fresh, of es] by simp

text \<open>A kept client stays until a reset.\<close>

lemma cached_until_reset:
  assumes "Reset_Cache \<notin> set es" and "dict_get (client_cache f) key = Some c"
  shows "dict_get (client_cache (factory_run es f)) key = Some c"
  using assms
proof (induction es arbitrary: f)
  case (Cons e es)
  then obtain w cls a where e: "e = Build w cls a" by (cases e) auto
  obtain r f' where r: "build_client w cls a f = (r, f')" by force
  from r have "dict_get (client_cache f') key = Some c"
    by (cases rule: build_client_cases) (use Cons.prems(2) in \<open>auto simp: dict_simps\<close>)
  with Cons e r show ?case by (simp add: factory_run_def factory_step_def)
qed (simp add: factory_run_def)

lemma cached_after_build:
  assumes "build_client w cls a f = (Inr c, f')" and "use_cache a" and "fst (client_url w a f) = Inr url"
  shows "dict_get (client_cache f') (cache_key cls a url) = Some c"
  using assms(1) by (cases rule: build_client_cases) (use assms(2,3) in \<open>auto simp: dict_simps\<close>)

lemma build_cached:
  assumes "use_cache a" and "fst (client_url w a f) = Inr url"
    and "dict_get (client_cache f) (cache_key cls a url) = Some c"
  shows "fst (build_client w cls a f) = Inr c \<and> constructions (snd (build_client w cls a f)) = constructions f"
proof -
  obtain r f' where r: "build_client w cls a f = (r, f')" by force
  have fu: "client_cache (snd (client_url w a f)) = client_cache f"
    "constructions (snd (client_url w a f)) = constructions f" by (simp_all add: client_url_keeps)
  from assms fu show ?thesis by (cases "client_url w a f") (simp add: build_client_def Let_def)
qed

section \<open>Properties\<close>

text \<open>
  C32. A client is never handed to a caller that asked for another identity. After any history of calls and
  resets, the client a call returns was built for that call or, where the call caches, for an earlier one of
  the history: of a class of the same name, for the same service, with the same environment keys and the same
  choice about authorization, for the URL this call resolved. Its \<open>Authorization\<close> header is the one its
  builder's extra headers set, if they do; otherwise it is, with authorization, the non-empty credential those keys
  gave in the builder's environment, and without it there is none. Its eager clients, for the setters
  the class has, carry the very same settings.
\<close>

theorem client_identity:
  assumes "build_client w cls a (factory_run es fresh_factory) = (Inr c, f')"
  shows "\<exists>w' cls' b n. (Build w' cls' b = Build w cls a \<or> use_cache a \<and> Build w' cls' b \<in> set es) \<and>
    qualified_name cls' = qualified_name cls \<and> upper (service b) = upper (service a) \<and>
    resolved_keys b = resolved_keys a \<and> authorization b = authorization a \<and>
    fst (client_url w a (factory_run es fresh_factory)) = Inr (base_url (settings c)) \<and>
    construct_client (out_env w') (out_bound w') cls' n (base_url (settings c)) (resolved_keys b) b = Inr c \<and>
    sync_client c = (if has_set_httpx_client cls' then Some (settings c) else None) \<and>
    async_client c = (if has_set_async_httpx_client cls' then Some (settings c) else None) \<and>
    (let header = dict_get (client_headers (settings c)) ''Authorization'' in
     case (case extra_headers b of None \<Rightarrow> None | Some e \<Rightarrow> map_of (rev e) ''Authorization'') of
       Some v \<Rightarrow> header = Some v
     | None \<Rightarrow>
         if authorization a
         then (\<exists>v. v \<noteq> [] \<and> header = Some v \<and>
           service_authorization (out_env w') (keys_of (resolved_keys a) ''auth'') default_credential = Inr v)
         else header = None)"
proof -
  let ?f = "factory_run es fresh_factory"
  have ok: "cache_ok es ?f" by (rule cache_ok_history)
  obtain w' cls' b n url where from_call: "Build w' cls' b = Build w cls a \<or> use_cache a \<and> Build w' cls' b \<in> set es"
    and b: "qualified_name cls' = qualified_name cls" "upper (service b) = upper (service a)"
      "resolved_keys b = resolved_keys a" "authorization b = authorization a"
    and url: "fst (client_url w a ?f) = Inr url"
    and made: "construct_client (out_env w') (out_bound w') cls' n url (resolved_keys b) b = Inr c"
    using assms
  proof (cases rule: build_client_cases)
    case (hit url c')
    with cache_okD [OF ok] have "provenance es (cache_key cls a url) c" by simp
    then obtain w' cls' b u n where
      "Build w' cls' b \<in> set es" "cache_key cls a url = cache_key cls' b u"
      "construct_client (out_env w') (out_bound w') cls' n u (resolved_keys b) b = Inr c"
      by (auto simp: provenance_def)
    note earlier = this
    then have "qualified_name cls' = qualified_name cls" "upper (service b) = upper (service a)"
      "resolved_keys b = resolved_keys a" "authorization b = authorization a" "u = url"
      using sorted_keys_inject [of a b] by (auto simp: cache_key_def)
    with earlier hit show thesis by (intro that [of w' cls' b url n]) simp_all
  next
    case (own url c')
    then show thesis by (intro that [of w cls a url "constructions ?f"]) simp_all
  next
    case (kept url c')
    then show thesis by (intro that [of w cls a url "constructions ?f"]) simp_all
  qed simp
  note set = construct_client_settings [OF made]
  obtain accept auth where h: "client_headers (settings c) = build_headers accept auth (extra_headers b)"
    "if authorization b
     then \<exists>v. auth = Some v \<and> service_authorization (out_env w') (keys_of (resolved_keys b) ''auth'') default_credential = Inr v
     else auth = None"
    using construct_client_headers [OF made] by blast
  have given: "service_authorization (out_env w') keys default_credential \<noteq> Inr []" for keys
    by (auto simp: service_authorization_def Let_def dest: first_set_stripped split: option.splits if_splits)
  have "let header = dict_get (client_headers (settings c)) ''Authorization'' in
     case (case extra_headers b of None \<Rightarrow> None | Some e \<Rightarrow> map_of (rev e) ''Authorization'') of
       Some v \<Rightarrow> header = Some v
     | None \<Rightarrow>
         if authorization a
         then (\<exists>v. v \<noteq> [] \<and> header = Some v \<and>
           service_authorization (out_env w') (keys_of (resolved_keys a) ''auth'') default_credential = Inr v)
         else header = None"
    using h(2) b(3,4) given by (auto simp: h(1) authorization_header Let_def split: option.split)
  with from_call b url made set show ?thesis
    by (intro exI [of _ w'] exI [of _ cls'] exI [of _ b] exI [of _ n]) simp
qed

text \<open>
  One client per identity until the cache is reset: once a caching call has returned a client,
  every later caching call with the same identity that resolves the same URL gets that very client
  and constructs nothing, whatever happened in between and whatever the environment now holds. The
  identity does not include the retries, the extra headers, the limits or the pool timeout: a
  caller that asks for others is given the first caller's.
\<close>

theorem cached_client_shared:
  assumes "build_client w cls a f = (Inr c, f1)" and "use_cache a" and "fst (client_url w a f) = Inr url"
    and "Reset_Cache \<notin> set es"
    and "use_cache b" and "fst (client_url w' b (factory_run es f1)) = Inr url"
    and "cache_key cls' b url = cache_key cls a url"
  shows "fst (build_client w' cls' b (factory_run es f1)) = Inr c \<and>
    constructions (snd (build_client w' cls' b (factory_run es f1))) = constructions (factory_run es f1)"
proof -
  have "dict_get (client_cache (factory_run es f1)) (cache_key cls' b url) = Some c"
    using cached_until_reset [OF assms(4)] cached_after_build [OF assms(1-3)] assms(7) by simp
  with build_cached [OF assms(5,6)] show ?thesis by blast
qed

section \<open>Witnesses\<close>

abbreviation sample_world :: outside where
  "sample_world \<equiv> \<lparr>out_env = [''X_SVC_URL'' \<mapsto> ''http://x'', ''X_SVC_TIMEOUT'' \<mapsto> ''5'', ''X_SVC_AUTH'' \<mapsto> ''k''],
    out_bound = [], out_now = 0, out_fetch = None\<rparr>"

abbreviation sample_class :: client_class where
  "sample_class \<equiv> \<lparr>qualified_name = ''x.Client'', has_set_httpx_client = True,
    has_set_async_httpx_client = False, constructor_error = (\<lambda>s r. None)\<rparr>"

abbreviation sample_args :: "int option \<Rightarrow> build_args" where
  "sample_args n \<equiv> \<lparr>service = ''x'', registry_name = None, url_keys = None, accept_keys = None,
    auth_keys = None, verify_ssl_keys = None, raise_status_keys = None, timeout_keys = None,
    authorization = True, extra_headers = None, use_cache = True, limits = DEFAULT_LIMITS,
    pool_wait = POOL_ACQUIRE_TIMEOUT, retry_count = n\<rparr>"

lemma upper_x: "upper ''x'' = ''X''"
  by code_simp

lemma sample_keys: "keys_of (resolved_keys (sample_args n)) ''url'' = [''X_SVC_URL'']"
  "keys_of (resolved_keys (sample_args n)) ''timeout'' = [''X_SVC_TIMEOUT'']"
  "keys_of (resolved_keys (sample_args n)) ''auth'' = [''X_SVC_AUTH'']"
  "keys_of (resolved_keys (sample_args n)) ''accept'' = [''X_SVC_HEADERS'']"
  "keys_of (resolved_keys (sample_args n)) ''verify_ssl'' = [''X_SVC_VERIFY_SSL'']"
  "keys_of (resolved_keys (sample_args n)) ''raise_status'' = [''X_SVC_RAISE_ON_UNEXPECTED_STATUS'']"
  by (simp_all add: keys_of_def resolved_keys_def env_keys_def ENV_SUFFIXES_def upper_x)

lemma sample_url: "fst (client_url sample_world (sample_args n) f) = Inr ''http://x''"
  unfolding client_url_def sample_keys
  by (simp add: Let_def env_first_def lookup_def text_eval)

lemma sample_built:
  "\<exists>c f'. build_client sample_world sample_class (sample_args (Some r)) fresh_factory = (Inr c, f') \<and>
    retries (tr_policy (client_transport (settings c))) = r"
proof -
  have "\<exists>c. construct_client (out_env sample_world) (out_bound sample_world) sample_class 0 ''http://x''
      (resolved_keys (sample_args (Some r))) (sample_args (Some r)) = Inr c \<and>
      retries (tr_policy (client_transport (settings c))) = r"
    unfolding construct_client_def sample_keys
    by (simp add: env_first_def lookup_def text_eval required_float_def float_eval service_authorization_def
        default_credential_def init_policy_def default_backoff_def env_float_def BACKOFF_ENV_def Let_def)
  then obtain c where c: "construct_client (out_env sample_world) (out_bound sample_world) sample_class 0 ''http://x''
      (resolved_keys (sample_args (Some r))) (sample_args (Some r)) = Inr c"
    "retries (tr_policy (client_transport (settings c))) = r" by blast
  obtain u f1 where u: "client_url sample_world (sample_args (Some r)) fresh_factory = (u, f1)" by force
  have "u = Inr ''http://x''" "client_cache f1 = []" "constructions f1 = 0"
    using sample_url [of "Some r" fresh_factory] client_url_keeps [of sample_world "sample_args (Some r)" fresh_factory] u
    by (simp_all add: fresh_factory_def)
  with u c show ?thesis by (simp add: build_client_def Let_def)
qed

text \<open>A client built for an earlier call of the history, with other retries, and handed to the second caller.\<close>

lemma sample_shared_key:
  "cache_key sample_class (sample_args (Some 0)) ''http://x'' = cache_key sample_class (sample_args (Some 2)) ''http://x''"
  by (simp add: cache_key_def resolved_keys_def)

lemma client_identity_witness:
  "\<exists>c f'. build_client sample_world sample_class (sample_args (Some 0))
      (factory_run [Build sample_world sample_class (sample_args (Some 2))] fresh_factory) = (Inr c, f') \<and>
    retries (tr_policy (client_transport (settings c))) = 2 \<and>
    base_url (settings c) = ''http://x'' \<and> dict_get (client_headers (settings c)) ''Authorization'' = Some ''k''
    \<and> sync_client c = Some (settings c) \<and> async_client c = None"
proof -
  let ?es = "[Build sample_world sample_class (sample_args (Some 2))]"
  obtain c f1 where first: "build_client sample_world sample_class (sample_args (Some 2)) fresh_factory = (Inr c, f1)"
    and r: "retries (tr_policy (client_transport (settings c))) = 2"
    using sample_built [of 2] by auto
  then have run: "factory_run ?es fresh_factory = f1" by (simp add: factory_run_def factory_step_def)
  have "dict_get (client_cache f1) (cache_key sample_class (sample_args (Some 0)) ''http://x'') = Some c"
    unfolding sample_shared_key by (rule cached_after_build [OF first _ sample_url]) simp
  from build_cached [OF _ sample_url this] obtain f' where
    b: "build_client sample_world sample_class (sample_args (Some 0)) (factory_run ?es fresh_factory) = (Inr c, f')"
    unfolding run by (cases "build_client sample_world sample_class (sample_args (Some 0)) f1") simp
  have "service_authorization (out_env sample_world) (keys_of (resolved_keys (sample_args (Some n))) ''auth'') default_credential = Inr ''k''" for n
    unfolding sample_keys by (simp add: lookup_def text_eval service_authorization_def default_credential_def Let_def)
  with client_identity [OF b] have "dict_get (client_headers (settings c)) ''Authorization'' = Some ''k''"
    "fst (client_url sample_world (sample_args (Some 0)) (factory_run ?es fresh_factory)) = Inr (base_url (settings c))"
    "sync_client c = Some (settings c) \<and> async_client c = None"
    by (auto simp: Let_def)
  with b r show ?thesis unfolding sample_url by auto
qed

text \<open>The second caller asks for no retries and gets the first caller's two.\<close>

lemma cached_client_shared_witness:
  "\<exists>c f1. build_client sample_world sample_class (sample_args (Some 2)) fresh_factory = (Inr c, f1) \<and>
    fst (build_client sample_world sample_class (sample_args (Some 0)) f1) = Inr c \<and>
    retries (tr_policy (client_transport (settings c))) = 2"
proof -
  obtain c f1 where b: "build_client sample_world sample_class (sample_args (Some 2)) fresh_factory = (Inr c, f1)"
    and r: "retries (tr_policy (client_transport (settings c))) = 2"
    using sample_built [of 2] by auto
  from cached_client_shared [of sample_world sample_class "sample_args (Some 2)" fresh_factory c f1 "''http://x''" "[]"
      "sample_args (Some 0)" sample_world sample_class, OF b _ sample_url _ _ _ sample_shared_key] b r sample_url [of "Some 0" f1]
  show ?thesis by (auto simp: factory_run_def)
qed

end
