(* ===== verification/Cache_Settings.thy ===== *)
theory Cache_Settings
  imports Env Py_Value
begin

text \<open>
  \<open>netix_backend/django/cache.py\<close>: the Redis cache block of a settings module, with or without
  sentinels, as one function of its arguments and the environment. Nothing is stripped here: an
  empty variable is a value. The Django settings of an alias are nested rows.
\<close>

section \<open>Constants\<close>

definition REDIS_CACHE_BACKEND :: string where "REDIS_CACHE_BACKEND = ''django_redis.cache.RedisCache''"
definition SENTINEL_CONNECTION_FACTORY :: string where
  "SENTINEL_CONNECTION_FACTORY = ''django_redis.pool.SentinelConnectionFactory''"
definition DEFAULT_CONNECTION_FACTORY :: string where
  "DEFAULT_CONNECTION_FACTORY = ''django_redis.pool.ConnectionFactory''"
definition SENTINEL_CLIENT :: string where "SENTINEL_CLIENT = ''django_redis.client.SentinelClient''"
definition DEFAULT_CLIENT :: string where "DEFAULT_CLIENT = ''django_redis.client.DefaultClient''"
definition SENTINEL_CONNECTION_POOL :: string where
  "SENTINEL_CONNECTION_POOL = ''redis.sentinel.SentinelConnectionPool''"
definition DEFAULT_REDIS_LOGGER :: string where "DEFAULT_REDIS_LOGGER = ''django_redis.cache''"

section \<open>Results and arguments\<close>

record redis_cache_settings =
  caches :: "(string, row) dict"
  sentinels :: "(string \<times> string) list"
  sentinel_hosts :: "string list"
  connection_factory :: string
  ignore_exceptions :: bool
  log_ignored_exceptions :: bool
  logger_name :: string

record cache_ttl_settings =
  ttl :: int
  long_ttl :: "int option"
  enabled :: bool

datatype hosts_arg = No_Hosts | Hosts_Text string | Hosts_List "string list"

text \<open>The arguments; \<open>VNone\<close> where the caller gave none.\<close>

record redis_args =
  arg_sentinel_enabled :: "bool option"
  arg_strict :: bool
  arg_alias :: string
  arg_db :: pyval
  arg_password :: pyval
  arg_host :: pyval
  arg_port :: pyval
  arg_sentinel_service :: pyval
  arg_sentinel_hosts :: hosts_arg
  arg_sentinel_port :: pyval
  arg_ignore_exceptions :: bool
  arg_log_ignored_exceptions :: bool
  arg_logger_name :: string

definition default_redis_args :: redis_args where
  "default_redis_args = \<lparr>arg_sentinel_enabled = None, arg_strict = True, arg_alias = ''default'',
    arg_db = VNone, arg_password = VNone, arg_host = VNone, arg_port = VNone,
    arg_sentinel_service = VNone, arg_sentinel_hosts = No_Hosts, arg_sentinel_port = VNone,
    arg_ignore_exceptions = False, arg_log_ignored_exceptions = True, arg_logger_name = DEFAULT_REDIS_LOGGER\<rparr>"

section \<open>Reading\<close>

definition raw_env :: "environ \<Rightarrow> bool \<Rightarrow> string \<Rightarrow> string \<Rightarrow> string res" where
  "raw_env env strict name fallback =
    (if \<not> strict then Inr (the_default fallback (env name))
     else case env name of
        Some v \<Rightarrow> Inr v
      | None \<Rightarrow> Inl (Configuration_Error (''Missing required environment variable '' @ name)))"

definition env_value :: "environ \<Rightarrow> bool \<Rightarrow> pyval \<Rightarrow> string \<Rightarrow> string \<Rightarrow> string res" where
  "env_value env strict explicit name fallback =
    (if explicit \<noteq> VNone then Inr (py_str explicit) else raw_env env strict name fallback)"

definition clean_hosts :: "string list \<Rightarrow> string list" where
  "clean_hosts hosts = map strip (filter (\<lambda>h. strip h \<noteq> []) hosts)"

definition resolve_sentinel_hosts :: "environ \<Rightarrow> bool \<Rightarrow> hosts_arg \<Rightarrow> string list res" where
  "resolve_sentinel_hosts env strict hosts =
    (case hosts of
      No_Hosts \<Rightarrow> rbind (raw_env env strict ''SENTINEL_HOST'' ''localhost'') (\<lambda>raw. Inr (clean_hosts (split_on (CHR '','') raw)))
    | Hosts_Text raw \<Rightarrow> Inr (clean_hosts (split_on (CHR '','') raw))
    | Hosts_List raw \<Rightarrow> Inr (clean_hosts raw))"

definition sentinel_enabled :: "environ \<Rightarrow> bool \<Rightarrow> bool res" where
  "sentinel_enabled env strict =
    (if strict then rbind (raw_env env True ''SENTINEL_ENABLED'' []) (\<lambda>v. Inr (v = ''TRUE''))
     else Inr (env_bool env ''SENTINEL_ENABLED'' (Default_Bool False)))"

definition no_hosts_message :: string where
  "no_hosts_message = ''SENTINEL_ENABLED is TRUE but SENTINEL_HOSTS/SENTINEL_HOST resolved to no hosts.''"

section \<open>The factory\<close>

text \<open>A nested row as a value.\<close>

definition nested :: "row \<Rightarrow> pyval" where
  "nested r = VDict (map (\<lambda>(k, v). (VStr k, v)) r)"

definition cache_alias :: "string \<Rightarrow> string \<Rightarrow> row \<Rightarrow> (string, row) dict" where
  "cache_alias name location opts =
    [(name, [(''BACKEND'', VStr REDIS_CACHE_BACKEND), (''LOCATION'', VStr location), (''OPTIONS'', nested opts)])]"

text \<open>The branch with sentinels: hosts, options and location.\<close>

definition sentinel_branch ::
  "environ \<Rightarrow> redis_args \<Rightarrow> string \<Rightarrow> string \<Rightarrow> row \<Rightarrow> redis_cache_settings res" where
  "sentinel_branch env a redis_db redis_password opts =
    rbind (resolve_sentinel_hosts env (arg_strict a) (arg_sentinel_hosts a)) (\<lambda>hosts.
    if hosts = [] then Inl (Improperly_Configured no_hosts_message)
    else
    rbind (env_value env (arg_strict a) (arg_sentinel_port a) ''SENTINEL_PORT'' ''26379'') (\<lambda>port_value.
    let pairs = map (\<lambda>h. (h, port_value)) hosts in
    rbind (env_value env (arg_strict a) (arg_sentinel_service a) ''SENTINEL_SERVICE'' ''mymaster'') (\<lambda>service.
      Inr \<lparr>caches = cache_alias (arg_alias a) (''redis://'' @ service @ ''/'' @ redis_db)
            (dict_update opts [(''CLIENT_CLASS'', VStr SENTINEL_CLIENT),
              (''SENTINELS'', VList (map (\<lambda>(h, p). VTuple [VStr h, VStr p]) pairs)),
              (''CONNECTION_POOL_CLASS'', VStr SENTINEL_CONNECTION_POOL),
              (''SENTINEL_KWARGS'', VDict [(VStr ''password'', VStr redis_password)])]),
           sentinels = pairs, sentinel_hosts = hosts, connection_factory = SENTINEL_CONNECTION_FACTORY,
           ignore_exceptions = arg_ignore_exceptions a,
           log_ignored_exceptions = arg_log_ignored_exceptions a, logger_name = arg_logger_name a\<rparr>)))"

definition direct_branch :: "environ \<Rightarrow> redis_args \<Rightarrow> string \<Rightarrow> row \<Rightarrow> redis_cache_settings res" where
  "direct_branch env a redis_db opts =
    rbind (env_value env (arg_strict a) (arg_host a) ''REDIS_HOST'' ''localhost'') (\<lambda>redis_host.
    rbind (env_value env (arg_strict a) (arg_port a) ''REDIS_PORT'' ''6379'') (\<lambda>redis_port.
      Inr \<lparr>caches = cache_alias (arg_alias a) (''redis://'' @ redis_host @ '':'' @ redis_port @ ''/'' @ redis_db)
            (dict_set ''CLIENT_CLASS'' (VStr DEFAULT_CLIENT) opts),
           sentinels = [], sentinel_hosts = [], connection_factory = DEFAULT_CONNECTION_FACTORY,
           ignore_exceptions = arg_ignore_exceptions a,
           log_ignored_exceptions = arg_log_ignored_exceptions a, logger_name = arg_logger_name a\<rparr>))"

definition redis_caches :: "environ \<Rightarrow> redis_args \<Rightarrow> redis_cache_settings res" where
  "redis_caches env a =
    rbind (case arg_sentinel_enabled a of Some b \<Rightarrow> Inr b | None \<Rightarrow> sentinel_enabled env (arg_strict a)) (\<lambda>use_sentinels.
    rbind (env_value env (arg_strict a) (arg_db a) ''REDIS_DB'' ''0'') (\<lambda>redis_db.
    rbind (env_value env (arg_strict a) (arg_password a) ''REDIS_PASSWORD'' []) (\<lambda>redis_password.
    let opts = [(''PASSWORD'', VStr redis_password), (''IGNORE_EXCEPTIONS'', VBool (arg_ignore_exceptions a))]
    in if use_sentinels then sentinel_branch env a redis_db redis_password opts
       else direct_branch env a redis_db opts)))"

definition cache_ttls ::
  "environ \<Rightarrow> int option \<Rightarrow> int \<Rightarrow> int option \<Rightarrow> int option \<Rightarrow> bool option \<Rightarrow> cache_ttl_settings res" where
  "cache_ttls env t default_ttl long factor on =
    rbind (case t of None \<Rightarrow> env_int env ''CACHE_TTL'' default_ttl | Some x \<Rightarrow> Inr x) (\<lambda>resolved.
      Inr \<lparr>ttl = resolved,
        long_ttl = (case (long, factor) of (None, Some k) \<Rightarrow> Some (resolved * k) | _ \<Rightarrow> long),
        enabled = (case on of None \<Rightarrow> env_bool env ''CACHE_ENABLED'' (Default_Bool False) | Some b \<Rightarrow> b)\<rparr>)"

section \<open>Lemmas\<close>

lemma clean_hosts_ok: "h \<in> set (clean_hosts hosts) \<Longrightarrow> h \<noteq> [] \<and> strip h = h"
  by (auto simp: clean_hosts_def)

lemma resolve_sentinel_hosts_ok:
  "resolve_sentinel_hosts env strict hosts = Inr hs \<Longrightarrow> h \<in> set hs \<Longrightarrow> h \<noteq> [] \<and> strip h = h"
  using clean_hosts_ok by (auto simp: resolve_sentinel_hosts_def res_simps split: hosts_arg.splits)

text \<open>What strict reading returns, lenient reading returns too.\<close>

lemma raw_env_strict: "raw_env env True name fallback = Inr v \<Longrightarrow> raw_env env False name fallback = Inr v"
  by (auto simp: raw_env_def split: option.splits)

lemma env_value_strict:
  "env_value env True explicit name fallback = Inr v \<Longrightarrow> env_value env False explicit name fallback = Inr v"
  using raw_env_strict by (auto simp: env_value_def split: if_splits)

lemma resolve_sentinel_hosts_strict:
  "resolve_sentinel_hosts env True hosts = Inr hs \<Longrightarrow> resolve_sentinel_hosts env False hosts = Inr hs"
  using raw_env_strict by (fastforce simp: resolve_sentinel_hosts_def res_simps split: hosts_arg.splits)

lemma sentinel_enabled_strict:
  assumes "sentinel_enabled env True = Inr b" and "env ''SENTINEL_ENABLED'' \<in> {Some ''TRUE'', Some ''FALSE''}"
  shows "sentinel_enabled env False = Inr b"
proof -
  have "lookup env ''SENTINEL_ENABLED'' = env ''SENTINEL_ENABLED''"
    "lower ''TRUE'' = ''true''" "lower ''FALSE'' = ''false''" "strip ''TRUE'' = ''TRUE''" "strip ''FALSE'' = ''FALSE''"
    using assms(2) by (auto simp: lookup_def strip_def is_space_def code_def) (code_simp+)
  with assms show ?thesis
    by (auto simp: sentinel_enabled_def raw_env_def env_bool_def parse_bool_def TRUTHY_def FALSY_def Let_def res_simps)
qed

section \<open>Properties\<close>

text \<open>
  The names a settings module binds agree with the cache they describe: the alias is the only
  cache; with sentinels the hosts are at least one, clean and each paired with the same port, the
  same pairs stand in \<open>OPTIONS\<close> and the sentinels get the cache's own password; without, there is no
  sentinel anywhere. In both cases the client class fits the connection factory.
\<close>

theorem redis_settings_consistent:
  assumes "redis_caches env a = Inr s"
  shows "\<exists>location opts password.
    caches s = cache_alias (arg_alias a) location opts \<and>
    dict_get opts ''PASSWORD'' = Some (VStr password) \<and>
    dict_get opts ''IGNORE_EXCEPTIONS'' = Some (VBool (ignore_exceptions s)) \<and>
    ((connection_factory s = SENTINEL_CONNECTION_FACTORY \<and> sentinel_hosts s \<noteq> [] \<and>
       list_all (\<lambda>h. h \<noteq> [] \<and> strip h = h) (sentinel_hosts s) \<and>
       (\<exists>p. sentinels s = map (\<lambda>h. (h, p)) (sentinel_hosts s)) \<and>
       dict_get opts ''CLIENT_CLASS'' = Some (VStr SENTINEL_CLIENT) \<and>
       dict_get opts ''SENTINELS'' = Some (VList (map (\<lambda>(h, p). VTuple [VStr h, VStr p]) (sentinels s))) \<and>
       dict_get opts ''SENTINEL_KWARGS'' = Some (VDict [(VStr ''password'', VStr password)]))
   \<or> (connection_factory s = DEFAULT_CONNECTION_FACTORY \<and> sentinel_hosts s = [] \<and> sentinels s = [] \<and>
       dict_get opts ''CLIENT_CLASS'' = Some (VStr DEFAULT_CLIENT) \<and> dict_get opts ''SENTINELS'' = None))"
proof -
  obtain use_sentinels redis_db password where
    s: "(if use_sentinels
         then sentinel_branch env a redis_db password [(''PASSWORD'', VStr password), (''IGNORE_EXCEPTIONS'', VBool (arg_ignore_exceptions a))]
         else direct_branch env a redis_db [(''PASSWORD'', VStr password), (''IGNORE_EXCEPTIONS'', VBool (arg_ignore_exceptions a))]) = Inr s"
    using assms by (auto simp: redis_caches_def res_simps Let_def)
  let ?opts = "[(''PASSWORD'', VStr password), (''IGNORE_EXCEPTIONS'', VBool (arg_ignore_exceptions a))]"
  show ?thesis
  proof (cases use_sentinels)
    case True
    define extra where "extra p hosts = [(''CLIENT_CLASS'', VStr SENTINEL_CLIENT),
      (''SENTINELS'', VList (map (\<lambda>(h, p). VTuple [VStr h, VStr p]) (map (\<lambda>h. (h, p)) hosts))),
      (''CONNECTION_POOL_CLASS'', VStr SENTINEL_CONNECTION_POOL),
      (''SENTINEL_KWARGS'', VDict [(VStr ''password'', VStr password)])]" for p :: string and hosts :: "string list"
    from s True obtain hosts p location where
      h: "resolve_sentinel_hosts env (arg_strict a) (arg_sentinel_hosts a) = Inr hosts" "hosts \<noteq> []"
      and c: "caches s = cache_alias (arg_alias a) location (dict_update ?opts (extra p hosts))"
      and rest: "sentinels s = map (\<lambda>h. (h, p)) hosts" "sentinel_hosts s = hosts"
        "connection_factory s = SENTINEL_CONNECTION_FACTORY" "ignore_exceptions s = arg_ignore_exceptions a"
      by (auto simp: sentinel_branch_def res_simps Let_def extra_def split: if_splits)
    define opts where "opts = dict_update ?opts (extra p hosts)"
    have "list_all (\<lambda>h. h \<noteq> [] \<and> strip h = h) hosts"
      using resolve_sentinel_hosts_ok [OF h(1)] by (auto simp: list_all_iff)
    moreover have "dict_get opts ''PASSWORD'' = Some (VStr password)"
      "dict_get opts ''IGNORE_EXCEPTIONS'' = Some (VBool (arg_ignore_exceptions a))"
      "dict_get opts ''CLIENT_CLASS'' = Some (VStr SENTINEL_CLIENT)"
      "dict_get opts ''SENTINELS'' =
        Some (VList (map (\<lambda>(h, p). VTuple [VStr h, VStr p]) (sentinels s)))"
      "dict_get opts ''SENTINEL_KWARGS'' = Some (VDict [(VStr ''password'', VStr password)])"
      by (simp_all add: dict_simps extra_def rest opts_def)
    moreover have "\<exists>p. sentinels s = map (\<lambda>h. (h, p)) (sentinel_hosts s)" using rest by blast
    ultimately show ?thesis using h(2) c [folded opts_def] rest(2-4)
      by - (rule exI, rule exI, rule exI, intro conjI disjI1, (assumption | simp)+)
  next
    case False
    from s False obtain location where
      c: "caches s = cache_alias (arg_alias a) location (dict_set ''CLIENT_CLASS'' (VStr DEFAULT_CLIENT) ?opts)"
      and rest: "sentinels s = []" "sentinel_hosts s = []"
        "connection_factory s = DEFAULT_CONNECTION_FACTORY" "ignore_exceptions s = arg_ignore_exceptions a"
      by (auto simp: direct_branch_def res_simps)
    define opts where "opts = dict_set ''CLIENT_CLASS'' (VStr DEFAULT_CLIENT) ?opts"
    have "dict_get opts ''PASSWORD'' = Some (VStr password)"
      "dict_get opts ''IGNORE_EXCEPTIONS'' = Some (VBool (arg_ignore_exceptions a))"
      "dict_get opts ''CLIENT_CLASS'' = Some (VStr DEFAULT_CLIENT)"
      "dict_get opts ''SENTINELS'' = None"
      by (simp_all add: dict_simps opts_def)
    with c [folded opts_def] rest show ?thesis by (intro exI conjI disjI2) simp_all
  qed
qed

text \<open>
  Loosening never changes what works: wherever the strict factory builds its settings, from a
  switch that is given or spelled \<open>TRUE\<close> or \<open>FALSE\<close>, the lenient one builds the same.
\<close>

theorem strict_cache_settings_are_lenient:
  assumes "redis_caches env (a\<lparr>arg_strict := True\<rparr>) = Inr s"
    and "arg_sentinel_enabled a \<noteq> None \<or> env ''SENTINEL_ENABLED'' \<in> {Some ''TRUE'', Some ''FALSE''}"
  shows "redis_caches env (a\<lparr>arg_strict := False\<rparr>) = Inr s"
proof -
  let ?l = "a\<lparr>arg_strict := False\<rparr>" and ?s = "a\<lparr>arg_strict := True\<rparr>"
  have sentinel: "sentinel_branch env ?s d p opts = Inr s \<Longrightarrow> sentinel_branch env ?l d p opts = Inr s" for d p opts
    by (auto simp: sentinel_branch_def res_simps Let_def split: if_splits
        dest!: resolve_sentinel_hosts_strict env_value_strict)
  have direct: "direct_branch env ?s d opts = Inr s \<Longrightarrow> direct_branch env ?l d opts = Inr s" for d opts
    by (auto simp: direct_branch_def res_simps dest!: env_value_strict)
  from assms(1) obtain b d p where
    b: "(case arg_sentinel_enabled a of Some b \<Rightarrow> Inr b | None \<Rightarrow> sentinel_enabled env (arg_strict ?s)) = Inr b"
    and dp: "env_value env True (arg_db a) ''REDIS_DB'' ''0'' = Inr d"
      "env_value env True (arg_password a) ''REDIS_PASSWORD'' [] = Inr p"
    and rest: "(if b then sentinel_branch env ?s d p [(''PASSWORD'', VStr p), (''IGNORE_EXCEPTIONS'', VBool (arg_ignore_exceptions a))]
      else direct_branch env ?s d [(''PASSWORD'', VStr p), (''IGNORE_EXCEPTIONS'', VBool (arg_ignore_exceptions a))]) = Inr s"
    by (auto simp: redis_caches_def res_simps Let_def)
  have "(case arg_sentinel_enabled a of Some b \<Rightarrow> Inr b | None \<Rightarrow> sentinel_enabled env (arg_strict ?l)) = Inr b"
    using b assms(2) sentinel_enabled_strict by (cases "arg_sentinel_enabled a") auto
  moreover note dp [THEN env_value_strict]
  ultimately show ?thesis
    using rest sentinel direct by (auto simp: redis_caches_def Let_def)
qed

abbreviation cache_environ :: environ where
  "cache_environ \<equiv> [''SENTINEL_ENABLED'' \<mapsto> ''TRUE'', ''SENTINEL_HOST'' \<mapsto> ''a, b'', ''SENTINEL_PORT'' \<mapsto> ''1'',
    ''SENTINEL_SERVICE'' \<mapsto> ''m'', ''REDIS_DB'' \<mapsto> ''2'', ''REDIS_PASSWORD'' \<mapsto> []]"

lemma cache_environ_strict:
  "\<exists>s. redis_caches cache_environ default_redis_args = Inr s \<and> sentinel_hosts s = [''a'', ''b'']"
  by (simp add: redis_caches_def default_redis_args_def sentinel_enabled_def raw_env_def env_value_def
      sentinel_branch_def resolve_sentinel_hosts_def clean_hosts_def text_eval Let_def)

lemma redis_settings_consistent_witness:
  "\<exists>s p. redis_caches cache_environ default_redis_args = Inr s \<and> sentinels s = map (\<lambda>h. (h, p)) [''a'', ''b'']"
proof -
  obtain s where s: "redis_caches cache_environ default_redis_args = Inr s" "sentinel_hosts s = [''a'', ''b'']"
    using cache_environ_strict by blast
  with redis_settings_consistent [OF s(1)] show ?thesis by auto
qed

lemma strict_cache_settings_are_lenient_witness:
  "\<exists>s. redis_caches cache_environ (default_redis_args\<lparr>arg_strict := False\<rparr>) = Inr s \<and> sentinel_hosts s = [''a'', ''b'']"
proof -
  have a: "default_redis_args\<lparr>arg_strict := True\<rparr> = default_redis_args" by (simp add: default_redis_args_def)
  obtain s where s: "redis_caches cache_environ default_redis_args = Inr s" "sentinel_hosts s = [''a'', ''b'']"
    using cache_environ_strict by blast
  from strict_cache_settings_are_lenient [of cache_environ default_redis_args s, unfolded a, OF s(1)] s(2)
  show ?thesis by simp
qed

end
