(* ===== verification/Asgi_Wrappers.thy ===== *)
theory Asgi_Wrappers
  imports Py_Text
begin

text \<open>
  \<open>netix_backend/asgi/lifespan.py\<close> and \<open>netix_backend/http/health.py\<close>: the two wrappers that answer
  below Django. An application is its effect: given the scope and what it receives, the messages it
  sends and how it ends. The lifespan loop receives for as long as the server sends; when the
  server stops sending it waits.
\<close>

section \<open>Applications\<close>

text \<open>A scope and a message are known by the fields the wrappers read.\<close>

record scope =
  scope_type :: string
  scope_path :: "string option"

datatype message =
    Lifespan_Startup_Complete
  | Lifespan_Shutdown_Complete
  | Response_Start int "(string \<times> string) list"
  | Response_Body string
  | Other_Message string

text \<open>How a call ends: it returns, it raises, or it still waits for a message.\<close>

datatype ending = Returned | Raised exc | Waiting

type_synonym asgi_app = "scope \<Rightarrow> string list \<Rightarrow> message list \<times> ending"

section \<open>Lifespan\<close>

text \<open>The received messages are known by their types.\<close>

fun serve_lifespan :: "string list \<Rightarrow> message list \<times> ending" where
  "serve_lifespan [] = ([], Waiting)"
| "serve_lifespan (m # ms) =
    (if m = ''lifespan.startup'' then
       (case serve_lifespan ms of (sent, e) \<Rightarrow> (Lifespan_Startup_Complete # sent, e))
     else if m = ''lifespan.shutdown'' then ([Lifespan_Shutdown_Complete], Returned)
     else serve_lifespan ms)"

definition lifespan_wrap :: "asgi_app \<Rightarrow> asgi_app" where
  "lifespan_wrap app = (\<lambda>scope receive.
    if scope_type scope = ''lifespan'' then serve_lifespan receive else app scope receive)"

section \<open>Health\<close>

definition HEALTHZ_PATH :: string where "HEALTHZ_PATH = ''/healthz/''"

definition HEALTHZ_BODY :: string where "HEALTHZ_BODY = ''{'' @ json_str ''status'' @ '': '' @ json_str ''ok'' @ ''}''"

definition send_healthz :: "string \<Rightarrow> message list" where
  "send_healthz body =
    [Response_Start 200 [(''content-type'', ''application/json''), (''content-length'', nat_str (length body))],
     Response_Body body]"

definition rstrip_slashes :: "string \<Rightarrow> string" where
  "rstrip_slashes s = rev (dropWhile (\<lambda>c. c = CHR ''/'') (rev s))"

definition healthz_asgi :: "string \<Rightarrow> string \<Rightarrow> asgi_app \<Rightarrow> asgi_app" where
  "healthz_asgi path body app = (\<lambda>scope receive.
    if scope_type scope = ''http'' \<and> (case scope_path scope of None \<Rightarrow> False | Some p \<Rightarrow> p \<in> {path, rstrip_slashes path})
    then (send_healthz body, Returned) else app scope receive)"

section \<open>Lemmas\<close>

text \<open>One answer per message, in the order of the messages, up to the first shutdown.\<close>

definition lifespan_answer :: "string \<Rightarrow> message list" where
  "lifespan_answer m =
    (if m = ''lifespan.startup'' then [Lifespan_Startup_Complete]
     else if m = ''lifespan.shutdown'' then [Lifespan_Shutdown_Complete] else [])"

lemma serve_lifespan_served:
  "serve_lifespan ms =
    (let before = takeWhile (\<lambda>m. m \<noteq> ''lifespan.shutdown'') ms in
     if ''lifespan.shutdown'' \<in> set ms
     then (concat (map lifespan_answer before) @ [Lifespan_Shutdown_Complete], Returned)
     else (concat (map lifespan_answer before), Waiting))"
proof (induction ms)
  case (Cons m ms)
  then show ?case
    by (cases "m = ''lifespan.startup''"; cases "m = ''lifespan.shutdown''")
      (auto simp: lifespan_answer_def Let_def)
qed simp

section \<open>Properties\<close>

text \<open>
  The lifespan handshake is answered in order and no lifespan scope reaches the wrapped
  application: every startup gets its completion, unknown messages get nothing, the first shutdown
  gets its completion and ends the call, and before it the call never returns. Any other scope is
  the application's, untouched.
\<close>

theorem lifespan_handshake:
  "lifespan_wrap app scope ms =
    (if scope_type scope \<noteq> ''lifespan'' then app scope ms
     else let before = takeWhile (\<lambda>m. m \<noteq> ''lifespan.shutdown'') ms in
       if ''lifespan.shutdown'' \<in> set ms
       then (concat (map lifespan_answer before) @ [Lifespan_Shutdown_Complete], Returned)
       else (concat (map lifespan_answer before), Waiting))"
  by (simp add: lifespan_wrap_def serve_lifespan_served)

text \<open>
  The two wrappers can be stacked in either order, and a probe never depends on the application
  below them: an HTTP request for the health path, with or without its closing slashes, gets the
  same complete response above any two applications, one that raises or never answers included.
\<close>

theorem wrappers_commute:
  "healthz_asgi path body (lifespan_wrap app) = lifespan_wrap (healthz_asgi path body app) \<and>
   (\<exists>sent. lifespan_wrap (healthz_asgi path body app) \<lparr>scope_type = ''http'', scope_path = Some path\<rparr> ms = (sent, Returned) \<and>
      lifespan_wrap (healthz_asgi path body app') \<lparr>scope_type = ''http'', scope_path = Some (rstrip_slashes path)\<rparr> ms' =
        (sent, Returned) \<and>
      (\<exists>start. sent = [start, Response_Body body] \<and>
        start = Response_Start 200 [(''content-type'', ''application/json''), (''content-length'', nat_str (length body))]))"
  by (auto simp: healthz_asgi_def lifespan_wrap_def send_healthz_def fun_eq_iff)

end
