(* ===== verification/Telemetry.thy ===== *)
theory Telemetry
  imports Env
begin

text \<open>
  \<open>netix_backend/observability/otel.py\<close> and \<open>otel_middleware.py\<close>: the OpenTelemetry bootstrap, with
  its process latch, and the asynchronous middleware that closes the span of a cancelled request.
  The OpenTelemetry packages are a record of what can be imported and what raises; what the code
  asks of them, and what it logs at warning or above, is a list of actions.
\<close>

section \<open>The bootstrap\<close>

datatype optional_outcome = Missing | Fails | Works

record otel_libs =
  has_instrumentation :: bool
    \<comment> \<open>the Django and logging instrumentors can be imported\<close>
  has_asgi :: bool
  sdk_import_error :: "exc option"
  provider_error :: "exc option"
    \<comment> \<open>building the provider, its sampler or its exporter raises\<close>
  has_sampler_symbol :: bool
  django_error :: "exc option"
  django_insert :: "string list \<Rightarrow> string list"
    \<comment> \<open>what the Django instrumentor makes of the middleware list\<close>
  logging_error :: "exc option"
  optional_module :: "string \<Rightarrow> optional_outcome"

datatype otel_action =
    Warn_No_Endpoint
  | Warn_No_Instrumentation
  | Error_No_Asgi
  | Warn_No_Sampler
  | Provider_Set string bool
    \<comment> \<open>with the exporter of this name, and with a sampler of the environment or the SDK's own\<close>
  | Instrument_Django
  | Instrument_Optional string
  | Optional_Failed string
  | Instrument_Logging bool
    \<comment> \<open>with trace identifiers in the records or not\<close>

text \<open>The process: the latch, its environment, whether a provider is set, the middleware setting.\<close>

record otel_state =
  configured :: bool
  process_env :: environ
  provider_set :: bool
  middleware :: "string list option"
    \<comment> \<open>\<open>None\<close> while the settings are not configured\<close>
  actions :: "otel_action list"

definition act :: "otel_action \<Rightarrow> otel_state \<Rightarrow> otel_state" where
  "act x s = s\<lparr>actions := actions s @ [x]\<rparr>"

definition otel_enabled :: "environ \<Rightarrow> bool" where
  "otel_enabled env \<longleftrightarrow>
    lower (strip (the_default ''false'' (env ''OTEL_SDK_DISABLED''))) \<notin> {''true'', ''1'', ''yes''}"

definition truthy_flag :: "environ \<Rightarrow> string \<Rightarrow> bool" where
  "truthy_flag env name \<longleftrightarrow> upper (strip (the_default ''TRUE'' (env name))) \<in> {''TRUE'', ''1'', ''YES''}"

definition set_nonempty :: "environ \<Rightarrow> string \<Rightarrow> bool" where
  "set_nonempty env name \<longleftrightarrow> (case env name of None \<Rightarrow> False | Some v \<Rightarrow> v \<noteq> [])"

definition traces_exporter :: "environ \<Rightarrow> string" where
  "traces_exporter env = lower (strip (the_default ''otlp'' (env ''OTEL_TRACES_EXPORTER'')))"

text \<open>
  The sampler of the environment is read through a private symbol of the SDK; without it there is no
  argument for one, and a warning.
\<close>

definition sampler_kwargs :: "otel_libs \<Rightarrow> otel_state \<Rightarrow> bool \<times> otel_state" where
  "sampler_kwargs libs s = (if has_sampler_symbol libs then (True, s) else (False, act Warn_No_Sampler s))"

text \<open>Whether this call set a provider, or the exception it raised.\<close>

definition init_sdk :: "otel_libs \<Rightarrow> string \<Rightarrow> otel_state \<Rightarrow> bool res \<times> otel_state" where
  "init_sdk libs exporter s =
    (case sdk_import_error libs of
      Some e \<Rightarrow> (Inl e, s)
    | None \<Rightarrow>
        if provider_set s then (Inr False, s)
        else if exporter = ''none'' then (Inr False, s)
        else
          (let (sampled, s') = sampler_kwargs libs s in
           case provider_error libs of
             Some e \<Rightarrow> (Inl e, s')
           | None \<Rightarrow> (Inr True,
               act (Provider_Set (if exporter = ''console'' then ''console'' else ''otlp'') sampled) (s'\<lparr>provider_set := True\<rparr>))))"

definition instrument_optional :: "otel_libs \<Rightarrow> string \<Rightarrow> otel_state \<Rightarrow> otel_state" where
  "instrument_optional libs m s =
    (case optional_module libs m of
      Missing \<Rightarrow> s
    | Fails \<Rightarrow> act (Optional_Failed m) s
    | Works \<Rightarrow> act (Instrument_Optional m) s)"

definition UPSTREAM_MIDDLEWARE :: string where
  "UPSTREAM_MIDDLEWARE = ''opentelemetry.instrumentation.django.middleware.otel_middleware._DjangoMiddleware''"

definition ASYNC_MIDDLEWARE :: string where
  "ASYNC_MIDDLEWARE = ''netix_backend.observability.otel_middleware.AsyncDjangoMiddleware''"

definition use_async_middleware :: "otel_state \<Rightarrow> otel_state" where
  "use_async_middleware s =
    s\<lparr>middleware := map_option (map (\<lambda>e. if e = UPSTREAM_MIDDLEWARE then ASYNC_MIDDLEWARE else e)) (middleware s)\<rparr>"

text \<open>What follows the latch: provider, Django, middleware, optional libraries, logging.\<close>

definition install :: "otel_libs \<Rightarrow> string \<Rightarrow> otel_state \<Rightarrow> bool res \<times> otel_state" where
  "install libs exporter s =
    (case init_sdk libs exporter s of
      (Inl e, s1) \<Rightarrow> (Inl e, s1)
    | (Inr _, s1) \<Rightarrow>
        (let s2 = act Instrument_Django s1 in
         case django_error libs of
           Some e \<Rightarrow> (Inl e, s2)
         | None \<Rightarrow>
            (let s3 = use_async_middleware (s2\<lparr>middleware := map_option (django_insert libs) (middleware s2)\<rparr>);
                 s4 = (if truthy_flag (process_env s3) ''NETIX_OTEL_DB''
                       then instrument_optional libs ''opentelemetry.instrumentation.psycopg'' s3 else s3);
                 s5 = instrument_optional libs ''opentelemetry.instrumentation.redis'' s4;
                 s6 = instrument_optional libs ''opentelemetry.instrumentation.httpx'' s5;
                 s7 = act (Instrument_Logging (truthy_flag (process_env s6) ''OTEL_PYTHON_LOG_CORRELATION'')) s6
             in case logging_error libs of
                  Some e \<Rightarrow> (Inl e, s7)
                | None \<Rightarrow> (Inr True, s7))))"

definition name_service :: "string option \<Rightarrow> environ \<Rightarrow> environ" where
  "name_service service_name env =
    (case service_name of
      Some n \<Rightarrow> if n \<noteq> [] \<and> \<not> set_nonempty env ''OTEL_SERVICE_NAME'' then env(''OTEL_SERVICE_NAME'' \<mapsto> n) else env
    | None \<Rightarrow> env)"

definition configure :: "otel_libs \<Rightarrow> string option \<Rightarrow> otel_state \<Rightarrow> bool res \<times> otel_state" where
  "configure libs service_name s =
    (if configured s then (Inr False, s)
     else if \<not> otel_enabled (process_env s) then (Inr False, s)
     else
       (let exporter = traces_exporter (process_env s) in
        if exporter = ''otlp'' \<and> \<not> set_nonempty (process_env s) ''OTEL_EXPORTER_OTLP_ENDPOINT''
        then (Inr False, act Warn_No_Endpoint s)
        else
          (let s1 = s\<lparr>process_env := name_service service_name (process_env s)\<rparr> in
           if \<not> has_instrumentation libs then (Inr False, act Warn_No_Instrumentation s1)
           else
             (let s2 = (if has_asgi libs then s1 else act Error_No_Asgi s1)
              in install libs exporter (s2\<lparr>configured := True\<rparr>)))))"

definition reset_for_tests :: "otel_state \<Rightarrow> otel_state" where
  "reset_for_tests s = s\<lparr>configured := False\<rparr>"

text \<open>A process: calls of \<open>configure\<close>, with changes of the environment in between.\<close>

datatype otel_event = Configure otel_libs "string option" | Set_Env environ

fun otel_run :: "otel_event list \<Rightarrow> otel_state \<Rightarrow> bool res list \<times> otel_state" where
  "otel_run [] s = ([], s)"
| "otel_run (Configure libs n # es) s =
    (case configure libs n s of (r, s') \<Rightarrow> case otel_run es s' of (rs, s'') \<Rightarrow> (r # rs, s''))"
| "otel_run (Set_Env env # es) s = otel_run es (s\<lparr>process_env := env\<rparr>)"

section \<open>The middleware\<close>

text \<open>An exception, or one that is not an \<open>Exception\<close>, as a cancellation is.\<close>

datatype base_exc = Exc exc | Base_Only string

datatype span_call = Process_Request | Process_Exception | Process_Response int

definition CLIENT_CLOSED_REQUEST :: int where "CLIENT_CLOSED_REQUEST = 499"

text \<open>
  The upstream hooks may raise; a response is its status. The result is what the call returns or
  raises, with the calls of the hooks and whether the failure to close was logged.
\<close>

record span_hooks =
  on_request :: "base_exc option"
  on_exception :: "base_exc option"
  on_response :: "int \<Rightarrow> base_exc option"

definition close_cancelled :: "span_hooks \<Rightarrow> base_exc option \<times> span_call list" where
  "close_cancelled h =
    (case on_exception h of
      Some e \<Rightarrow> (Some e, [Process_Exception])
    | None \<Rightarrow> (on_response h CLIENT_CLOSED_REQUEST, [Process_Exception, Process_Response CLIENT_CLOSED_REQUEST]))"

definition acall :: "span_hooks \<Rightarrow> base_exc + int \<Rightarrow> (base_exc + int) \<times> span_call list \<times> bool" where
  "acall h got =
    (case on_request h of
      Some e \<Rightarrow> (Inl e, [Process_Request], False)
    | None \<Rightarrow>
      (case got of
        Inr response \<Rightarrow>
          (case on_response h response of
            Some e \<Rightarrow> (Inl e, [Process_Request, Process_Response response], False)
          | None \<Rightarrow> (Inr response, [Process_Request, Process_Response response], False))
      | Inl exc \<Rightarrow>
          (case close_cancelled h of
            (None, calls) \<Rightarrow> (Inl exc, Process_Request # calls, False)
          | (Some (Exc e), calls) \<Rightarrow> (Inl exc, Process_Request # calls, True)
          | (Some (Base_Only b), calls) \<Rightarrow> (Inl (Base_Only b), Process_Request # calls, False))))"

section \<open>Lemmas\<close>

lemma act_simps [simp]: "configured (act x s) = configured s" "process_env (act x s) = process_env s"
  "provider_set (act x s) = provider_set s" "middleware (act x s) = middleware s"
  "actions (act x s) = actions s @ [x]"
  by (simp_all add: act_def)

abbreviation django_count :: "otel_state \<Rightarrow> nat" where
  "django_count s \<equiv> count_list (actions s) Instrument_Django"

lemma init_sdk_keeps: "configured (snd (init_sdk libs x s)) = configured s"
  "process_env (snd (init_sdk libs x s)) = process_env s"
  "middleware (snd (init_sdk libs x s)) = middleware s"
  "django_count (snd (init_sdk libs x s)) = django_count s"
  by (simp_all add: init_sdk_def sampler_kwargs_def Let_def split: option.splits)

lemma instrument_optional_keeps [simp]: "configured (instrument_optional libs m s) = configured s"
  "process_env (instrument_optional libs m s) = process_env s"
  "middleware (instrument_optional libs m s) = middleware s"
  "django_count (instrument_optional libs m s) = django_count s"
  by (simp_all add: instrument_optional_def split: optional_outcome.splits)

lemma use_async_middleware_keeps [simp]: "configured (use_async_middleware s) = configured s"
  "process_env (use_async_middleware s) = process_env s" "actions (use_async_middleware s) = actions s"
  by (simp_all add: use_async_middleware_def)

lemma install_keeps: "configured (snd (install libs x s)) = configured s"
  "django_count (snd (install libs x s)) \<le> django_count s + 1"
  using init_sdk_keeps [of libs x s]
  by (cases "init_sdk libs x s"; cases "fst (init_sdk libs x s)"; force simp: install_def Let_def split: option.splits)+

text \<open>After a call the latch is set, or nothing was installed and the call did not answer \<open>True\<close>.\<close>

lemma configure_latch:
  "configured s \<Longrightarrow> configure libs n s = (Inr False, s)"
  "(configured (snd (configure libs n s)) \<and> django_count (snd (configure libs n s)) \<le> django_count s + 1) \<or>
   (\<not> configured (snd (configure libs n s)) \<and> fst (configure libs n s) = Inr False \<and>
    django_count (snd (configure libs n s)) = django_count s)"
proof -
  show "configured s \<Longrightarrow> configure libs n s = (Inr False, s)" by (simp add: configure_def)
  show "(configured (snd (configure libs n s)) \<and> django_count (snd (configure libs n s)) \<le> django_count s + 1) \<or>
   (\<not> configured (snd (configure libs n s)) \<and> fst (configure libs n s) = Inr False \<and>
    django_count (snd (configure libs n s)) = django_count s)"
    using install_keeps(2) [of libs "traces_exporter (process_env s)"
        "(if has_asgi libs then s\<lparr>process_env := name_service n (process_env s)\<rparr>
          else act Error_No_Asgi (s\<lparr>process_env := name_service n (process_env s)\<rparr>))\<lparr>configured := True\<rparr>"]
    by (cases "has_asgi libs") (simp_all add: configure_def Let_def install_keeps(1))
qed

lemma otel_run_latched:
  "configured s \<Longrightarrow> django_count (snd (otel_run es s)) = django_count s \<and> Inr True \<notin> set (fst (otel_run es s))"
proof (induction es arbitrary: s)
  case (Cons e es)
  show ?case
  proof (cases e)
    case (Configure libs n)
    with Cons configure_latch(1) [OF Cons.prems] show ?thesis by (simp add: split_def)
  next
    case (Set_Env env)
    with Cons.IH [of "s\<lparr>process_env := env\<rparr>"] Cons.prems show ?thesis by simp
  qed
qed simp

lemma otel_run_once:
  "django_count (snd (otel_run es s)) \<le> django_count s + (if configured s then 0 else 1) \<and>
   length (filter (\<lambda>r. r = Inr True) (fst (otel_run es s))) \<le> (if configured s then 0 else 1)"
proof (induction es arbitrary: s)
  case (Cons e es)
  show ?case
  proof (cases e)
    case (Set_Env env)
    with Cons.IH [of "s\<lparr>process_env := env\<rparr>"] show ?thesis by simp
  next
    case (Configure libs n)
    obtain r s' where c: "configure libs n s = (r, s')" by force
    show ?thesis
    proof (cases "configured s")
      case True
      with otel_run_latched [OF True, of "e # es"] show ?thesis by (auto simp: filter_empty_conv)
    next
      case False
      show ?thesis
      proof (cases "configured s'")
        case True
        note later = otel_run_latched [OF True, of es]
        then have "filter (\<lambda>r. r = Inr True) (fst (otel_run es s')) = []" by (auto simp: filter_empty_conv)
        with later configure_latch(2) [of libs n s] c False Configure True show ?thesis
          by (simp add: split_def)
      next
        case off: False
        with Cons.IH [of s'] configure_latch(2) [of libs n s] c False Configure show ?thesis
          by (auto simp: split_def)
      qed
    qed
  qed
qed simp

section \<open>Properties\<close>

text \<open>
  C37. Instrumented at most once: in any sequence of calls of \<open>configure\<close>, whatever the packages do,
  raising included, and however the environment changes in between, Django is instrumented at most
  once and at most one call answers that it did the install; none does once the latch is set.
\<close>

theorem instrumented_at_most_once:
  "count_list (actions (snd (otel_run es s))) Instrument_Django
     \<le> count_list (actions s) Instrument_Django + (if configured s then 0 else 1) \<and>
   length (filter (\<lambda>r. r = Inr True) (fst (otel_run es s))) \<le> (if configured s then 0 else 1)"
  by (rule otel_run_once)

text \<open>
  Tracing comes on only when it can work: a call that answers \<open>True\<close> found the SDK enabled, an
  exporter that is not OTLP or an endpoint for it, and the instrumentation installed; it leaves no
  synchronous upstream entry in the middleware and changes no other entry of the list the Django
  instrumentor left. Which optional libraries are missing or fail has no influence on the answer.
\<close>

theorem tracing_on_when_it_can_work:
  assumes "fst (configure libs n s) = Inr True"
  shows "otel_enabled (process_env s) \<and>
    (traces_exporter (process_env s) = ''otlp'' \<longrightarrow> set_nonempty (process_env s) ''OTEL_EXPORTER_OTLP_ENDPOINT'') \<and>
    has_instrumentation libs \<and> \<not> configured s \<and> configured (snd (configure libs n s)) \<and>
    middleware (snd (configure libs n s)) =
      map_option (map (\<lambda>e. if e = UPSTREAM_MIDDLEWARE then ASYNC_MIDDLEWARE else e))
        (map_option (django_insert libs) (middleware s)) \<and>
    fst (configure (libs\<lparr>optional_module := f\<rparr>) n s) = Inr True"
proof -
  let ?x = "traces_exporter (process_env s)"
  define s2 where "s2 = (if has_asgi libs then s\<lparr>process_env := name_service n (process_env s)\<rparr>
    else act Error_No_Asgi (s\<lparr>process_env := name_service n (process_env s)\<rparr>))\<lparr>configured := True\<rparr>"
  have on: "otel_enabled (process_env s)" "?x = ''otlp'' \<longrightarrow> set_nonempty (process_env s) ''OTEL_EXPORTER_OTLP_ENDPOINT''"
    "has_instrumentation libs" "\<not> configured s"
    using assms by (auto simp: configure_def Let_def split: if_splits)
  then have c: "configure libs n s = install libs ?x s2"
    "configure (libs\<lparr>optional_module := f\<rparr>) n s = install (libs\<lparr>optional_module := f\<rparr>) ?x s2"
    by (auto simp: configure_def Let_def s2_def)
  have s2: "configured s2" "middleware s2 = middleware s" by (simp_all add: s2_def)
  have sdk: "init_sdk (libs\<lparr>optional_module := f\<rparr>) ?x s2 = init_sdk libs ?x s2"
    by (simp add: init_sdk_def sampler_kwargs_def Let_def split: option.split)
  obtain b s3 where i: "init_sdk libs ?x s2 = (Inr b, s3)" and d: "django_error libs = None" and l: "logging_error libs = None"
    using assms unfolding c by (auto simp: install_def Let_def split: prod.splits sum.splits option.splits)
  have "middleware s3 = middleware s" using init_sdk_keeps(3) [of libs ?x s2] i s2 by simp
  then have "middleware (snd (install libs ?x s2)) =
      map_option (map (\<lambda>e. if e = UPSTREAM_MIDDLEWARE then ASYNC_MIDDLEWARE else e))
        (map_option (django_insert libs) (middleware s))"
    using i d l by (simp add: install_def Let_def use_async_middleware_def)
  moreover have "configured (snd (install libs ?x s2))" using install_keeps(1) s2 by simp
  moreover have "fst (install (libs\<lparr>optional_module := f\<rparr>) ?x s2) = Inr True"
    using i d l sdk by (simp add: install_def Let_def)
  ultimately show ?thesis using on c by simp
qed

abbreviation working_libs :: otel_libs where
  "working_libs \<equiv> \<lparr>has_instrumentation = True, has_asgi = True, sdk_import_error = None, provider_error = None,
    has_sampler_symbol = True, django_error = None, django_insert = (\<lambda>ms. UPSTREAM_MIDDLEWARE # ms),
    logging_error = None, optional_module = (\<lambda>m. Fails)\<rparr>"

abbreviation console_process :: otel_state where
  "console_process \<equiv> \<lparr>configured = False, process_env = [''OTEL_TRACES_EXPORTER'' \<mapsto> ''console''],
    provider_set = False, middleware = Some [''auth''], actions = []\<rparr>"

lemma tracing_on_when_it_can_work_witness:
  "middleware (snd (configure working_libs None console_process)) = Some [ASYNC_MIDDLEWARE, ''auth'']"
proof -
  have "lower (strip ''false'') = ''false''" "lower (strip ''console'') = ''console''" by code_simp+
  then have "fst (configure working_libs None console_process) = Inr True"
    by (simp add: configure_def Let_def otel_enabled_def traces_exporter_def name_service_def install_def init_sdk_def sampler_kwargs_def)
  from tracing_on_when_it_can_work [OF this] show ?thesis
    by (simp add: UPSTREAM_MIDDLEWARE_def)
qed

text \<open>
  A cancelled request ends its span and stays cancelled: whatever the application below raises
  is what the middleware raises, unless a hook raises something that is not an \<open>Exception\<close>; the
  request hook is called first and once, a response gets the response hook once with its own status,
  and a raise gets the exception hook and then, if that hook returned, the response hook with 499.
\<close>

theorem span_closed_on_cancel:
  assumes "on_request h = None"
  shows "(\<forall>e. got = Inl e \<longrightarrow>
      fst (acall h got) = Inl (case fst (close_cancelled h) of Some (Base_Only b) \<Rightarrow> Base_Only b | _ \<Rightarrow> e) \<and>
      fst (snd (acall h got)) = Process_Request # Process_Exception #
        (if on_exception h = None then [Process_Response CLIENT_CLOSED_REQUEST] else []) \<and>
      (snd (snd (acall h got)) \<longleftrightarrow> (\<exists>x. fst (close_cancelled h) = Some (Exc x)))) \<and>
    (\<forall>r. got = Inr r \<longrightarrow>
      fst (acall h got) = (case on_response h r of None \<Rightarrow> Inr r | Some e \<Rightarrow> Inl e) \<and>
      snd (acall h got) = ([Process_Request, Process_Response r], False))"
  using assms
  by (auto simp: acall_def close_cancelled_def split: option.splits base_exc.splits)

lemma span_closed_on_cancel_witness:
  "acall \<lparr>on_request = None, on_exception = Some (Exc (Runtime_Error ''closed'')), on_response = (\<lambda>s. None)\<rparr>
     (Inl (Base_Only ''CancelledError'')) = (Inl (Base_Only ''CancelledError''), [Process_Request, Process_Exception], True)"
  using span_closed_on_cancel [of "\<lparr>on_request = None, on_exception = Some (Exc (Runtime_Error ''closed'')), on_response = (\<lambda>s. None)\<rparr>"
    "Inl (Base_Only ''CancelledError'')"]
  by (simp add: close_cancelled_def prod_eq_iff)

end
