(* ===== verification/Sentry_Config.thy ===== *)
theory Sentry_Config
  imports Env Py_Value
begin

text \<open>
  \<open>netix_backend/observability/sentry.py\<close>: one call that initialises Sentry, or decides not to. The
  SDK is what the calls it gets are: the keyword arguments of \<open>init\<close>, the tags and the loggers
  ignored. An integration is known by its identifier.
\<close>

section \<open>Interactive shells\<close>

definition INTERACTIVE_SHELL_COMMANDS :: "string list" where
  "INTERACTIVE_SHELL_COMMANDS = [''shell'', ''shell_plus'', ''dbshell'']"

definition BARE_INTERPRETER_ARGV0 :: "string list" where
  "BARE_INTERPRETER_ARGV0 = [''-c'', [], ''-'']"

definition is_interactive_shell :: "string list \<Rightarrow> string list option \<Rightarrow> bool" where
  "is_interactive_shell sys_argv argv =
    (let resolved = the_default sys_argv argv in
     case resolved of
       [] \<Rightarrow> False
     | program # args \<Rightarrow>
         if program \<in> set BARE_INTERPRETER_ARGV0 then True
         else (case args of [] \<Rightarrow> False | command # rest \<Rightarrow> command \<in> set INTERACTIVE_SHELL_COMMANDS))"

section \<open>Arguments and calls\<close>

text \<open>An integration: its identifier, if it has one, and for the logging one its event level.\<close>

datatype integration =
    Integration "string option"
  | Logging_Integration "string option"

definition integration_id :: "integration \<Rightarrow> string option" where
  "integration_id i = (case i of Integration n \<Rightarrow> n | Logging_Integration l \<Rightarrow> Some ''logging'')"

datatype 'a arg = Omitted | Given 'a

record sentry_args =
  sentry_enabled :: bool
  dsn :: string
  environment :: string
  django_integration :: bool
  logging_event_level :: "string option arg"
  integrations :: "integration list option"
  disabled_integrations :: "integration list arg"
  traces_sample_rate :: "pyval arg"
  before_send :: "string arg"
    \<comment> \<open>a callback, by name\<close>
  ignore_loggers :: "string list"
  tags :: "(string, string) dict option"
  suppress_interactive_shell :: bool
  init_kwargs :: "(string, string) dict"
    \<comment> \<open>any other keyword argument of \<open>init\<close>\<close>

text \<open>The value of a keyword argument of \<open>init\<close>.\<close>

datatype kwarg =
    Text string
  | Number pyval
  | Callback string
  | Integrations "integration list"

datatype sentry_call =
    Init "(string, kwarg) dict"
  | Set_Tag string string
  | Ignore_Logger string

definition resolved_integrations :: "sentry_args \<Rightarrow> integration list" where
  "resolved_integrations a =
    the_default [] (integrations a) @
    (if integrations a = None \<and> django_integration a then [Integration (Some ''django'')] else []) @
    (case logging_event_level a of Omitted \<Rightarrow> [] | Given l \<Rightarrow> [Logging_Integration l])"

definition resolved_disabled :: "sentry_args \<Rightarrow> integration list" where
  "resolved_disabled a =
    (let disabled = (case disabled_integrations a of Omitted \<Rightarrow> [] | Given is \<Rightarrow> is)
     in if list_ex (\<lambda>i. integration_id i = Some ''redis'') disabled then disabled
        else disabled @ [Integration (Some ''redis'')])"

definition sentry_kwargs :: "sentry_args \<Rightarrow> (string, kwarg) dict" where
  "sentry_kwargs a =
    (let kwargs = [(''dsn'', Text (dsn a)), (''environment'', Text (environment a)),
           (''integrations'', Integrations (resolved_integrations a))];
         kwargs = (case traces_sample_rate a of Omitted \<Rightarrow> kwargs
           | Given r \<Rightarrow> dict_set ''traces_sample_rate'' (Number r) kwargs);
         kwargs = (case before_send a of Omitted \<Rightarrow> kwargs
           | Given f \<Rightarrow> dict_set ''before_send'' (Callback f) kwargs);
         kwargs = dict_set ''disabled_integrations'' (Integrations (resolved_disabled a)) kwargs
     in dict_update kwargs (map (\<lambda>(k, v). (k, Text v)) (init_kwargs a)))"

text \<open>Whether \<open>init\<close> ran, and the calls of the SDK in order.\<close>

definition configure_sentry :: "string list \<Rightarrow> sentry_args \<Rightarrow> bool \<times> sentry_call list" where
  "configure_sentry sys_argv a =
    (if \<not> sentry_enabled a \<or> (suppress_interactive_shell a \<and> is_interactive_shell sys_argv None) then (False, [])
     else (True,
       Init (sentry_kwargs a) #
       map (\<lambda>(k, v). Set_Tag k v) (the_default [] (tags a)) @
       map Ignore_Logger (ignore_loggers a)))"

section \<open>Lemmas\<close>

fun init_calls :: "sentry_call list \<Rightarrow> (string, kwarg) dict list" where
  "init_calls [] = []"
| "init_calls (Init kw # cs) = kw # init_calls cs"
| "init_calls (_ # cs) = init_calls cs"

lemma init_calls_append [simp]: "init_calls (xs @ ys) = init_calls xs @ init_calls ys"
  by (induction xs rule: init_calls.induct) auto

lemma init_calls_tail [simp]: "init_calls (map Ignore_Logger ls) = []"
  "init_calls (map (\<lambda>(k, v). Set_Tag k v) ts) = []"
  by (induction ls, simp_all) (induction ts, auto)

lemma redis_disabled_once:
  "list_ex (\<lambda>i. integration_id i = Some ''redis'') (resolved_disabled a)"
  by (auto simp: resolved_disabled_def Let_def integration_id_def)

lemma map_Text_None: "k \<notin> set (dict_keys kw) \<Longrightarrow> map_of (rev (map (\<lambda>(k, v). (k, Text v)) kw)) k = None"
  by (auto simp: map_of_eq_None_iff dict_keys_def rev_map image_iff)

section \<open>Properties\<close>

text \<open>
  Sentry is initialised exactly when the caller enabled it and the process is not a human at a
  prompt whose guard is on, at most once per call, with the caller's own environment and DSN, an
  absent sampling rate and callback where they were omitted, and the Redis integration disabled
  whatever else the caller disables, where, as Python's calling convention has it, the extra arguments name none of these keys. When it is
  not initialised the SDK is not called at all.
\<close>

theorem sentry_initialised_once:
  assumes "dsn_keys = [''dsn'', ''environment'', ''traces_sample_rate'', ''before_send'', ''disabled_integrations'']"
    and "list_all (\<lambda>k. k \<notin> set (dict_keys (init_kwargs a))) dsn_keys"
  shows "(fst (configure_sentry argv a) \<longleftrightarrow>
      sentry_enabled a \<and> \<not> (suppress_interactive_shell a \<and> is_interactive_shell argv None)) \<and>
    (\<not> fst (configure_sentry argv a) \<longrightarrow> snd (configure_sentry argv a) = []) \<and>
    (fst (configure_sentry argv a) \<longrightarrow> (\<exists>kw disabled. init_calls (snd (configure_sentry argv a)) = [kw] \<and>
      dict_get kw ''dsn'' = Some (Text (dsn a)) \<and> dict_get kw ''environment'' = Some (Text (environment a)) \<and>
      dict_get kw ''traces_sample_rate'' = (case traces_sample_rate a of Omitted \<Rightarrow> None | Given r \<Rightarrow> Some (Number r)) \<and>
      dict_get kw ''before_send'' = (case before_send a of Omitted \<Rightarrow> None | Given f \<Rightarrow> Some (Callback f)) \<and>
      dict_get kw ''disabled_integrations'' = Some (Integrations disabled) \<and>
      list_ex (\<lambda>i. integration_id i = Some ''redis'') disabled))"
proof -
  have none: "map_of (rev (map (\<lambda>(k, v). (k, Text v)) (init_kwargs a))) k = None" if "k \<in> set dsn_keys" for k
    using assms(2) that by (auto intro!: map_Text_None simp: list_all_iff)
  have kw: "dict_get (sentry_kwargs a) ''dsn'' = Some (Text (dsn a))"
    "dict_get (sentry_kwargs a) ''environment'' = Some (Text (environment a))"
    "dict_get (sentry_kwargs a) ''traces_sample_rate'' = (case traces_sample_rate a of Omitted \<Rightarrow> None | Given r \<Rightarrow> Some (Number r))"
    "dict_get (sentry_kwargs a) ''before_send'' = (case before_send a of Omitted \<Rightarrow> None | Given f \<Rightarrow> Some (Callback f))"
    "dict_get (sentry_kwargs a) ''disabled_integrations'' = Some (Integrations (resolved_disabled a))"
    by (simp_all add: sentry_kwargs_def Let_def dict_simps none assms(1) split: arg.split)
  then show ?thesis
    using redis_disabled_once [of a] by (auto simp: configure_sentry_def)
qed

abbreviation sample_sentry :: sentry_args where
  "sample_sentry \<equiv> \<lparr>sentry_enabled = True, dsn = ''d'', environment = ''main'', django_integration = True,
    logging_event_level = Omitted, integrations = None, disabled_integrations = Omitted,
    traces_sample_rate = Given (VInt 0), before_send = Omitted, ignore_loggers = [''x''], tags = None,
    suppress_interactive_shell = True, init_kwargs = [(''release'', ''1'')]\<rparr>"

lemma sentry_initialised_once_witness:
  "fst (configure_sentry [''manage.py'', ''runserver''] sample_sentry) \<and>
   \<not> fst (configure_sentry [''manage.py'', ''shell''] sample_sentry)"
proof -
  have h: "list_all (\<lambda>k. k \<notin> set (dict_keys (init_kwargs sample_sentry)))
      [''dsn'', ''environment'', ''traces_sample_rate'', ''before_send'', ''disabled_integrations'']" by simp
  from sentry_initialised_once [OF refl h, of "[''manage.py'', ''runserver'']"]
    sentry_initialised_once [OF refl h, of "[''manage.py'', ''shell'']"]
  show ?thesis by (simp add: is_interactive_shell_def BARE_INTERPRETER_ARGV0_def INTERACTIVE_SHELL_COMMANDS_def)
qed

end
