(* ===== verification/Console_Logging.thy ===== *)
theory Console_Logging
  imports Py_Value
begin

text \<open>
  \<open>netix_backend/observability/logging.py\<close>: the console formatter that splices a record's context
  onto its first line, and the logging configuration of a service. What \<open>logging.Formatter\<close> makes of
  the record is an argument; configurations are nested rows.
\<close>

section \<open>Constants\<close>

definition TRACE_ID_FIELDS :: "string list" where "TRACE_ID_FIELDS = [''otelTraceID'', ''otelSpanID'']"

definition TRACE_ID_DEFAULTS :: "(string, string) dict" where
  "TRACE_ID_DEFAULTS = map (\<lambda>f. (f, ''0'')) TRACE_ID_FIELDS"

definition CONSOLE_FORMAT :: string where
  "CONSOLE_FORMAT = ''%(levelname)s %(asctime)s %(name)s trace_id=%(otelTraceID)s span_id=%(otelSpanID)s %(message)s''"

definition LOG_CONTEXT_KEY :: string where "LOG_CONTEXT_KEY = ''context''"

definition DEFAULT_LOGGERS :: "(string, string) dict" where
  "DEFAULT_LOGGERS = [(''django'', ''INFO''), (''django.template'', ''INFO'')]"

section \<open>The formatter\<close>

definition log_context :: "row \<Rightarrow> row" where
  "log_context given = [(LOG_CONTEXT_KEY, VDict (map (\<lambda>(k, v). (VStr k, v)) given))]"

definition newline :: char where "newline = CHR 0x0A"

text \<open>\<open>formatted.partition("\n")\<close>.\<close>

definition partition_line :: "string \<Rightarrow> string \<times> string \<times> string" where
  "partition_line s =
    (takeWhile (\<lambda>c. c \<noteq> newline) s, take 1 (dropWhile (\<lambda>c. c \<noteq> newline) s), drop 1 (dropWhile (\<lambda>c. c \<noteq> newline) s))"

definition rendered_context :: "(pyval \<times> pyval) list \<Rightarrow> string" where
  "rendered_context ctx = join '' '' (map (\<lambda>(k, v). py_str k @ ''='' @ py_str v) ctx)"

text \<open>\<open>extra\<close> are the attributes a caller put on the record.\<close>

definition format_record :: "string \<Rightarrow> row \<Rightarrow> string" where
  "format_record formatted extra =
    (case get_val extra LOG_CONTEXT_KEY of
      VDict ctx \<Rightarrow>
        if ctx = [] then formatted
        else (case partition_line formatted of (message_line, separator, remainder) \<Rightarrow>
          message_line @ '' ['' @ rendered_context ctx @ '']'' @ separator @ remainder)
    | _ \<Rightarrow> formatted)"

section \<open>The configuration\<close>

text \<open>A value of \<open>loggers\<close>: a bare level, or an entry.\<close>

datatype logger_spec = Level string | Entry row

definition logger_entry :: "logger_spec \<Rightarrow> row" where
  "logger_entry spec =
    (let entry = [(''handlers'', VList [VStr ''console'']), (''propagate'', VBool False)] in
     case spec of
       Level level \<Rightarrow> dict_set ''level'' (VStr level) entry
     | Entry e \<Rightarrow> dict_update entry e)"

record logging_settings =
  formatter :: row
  disable_existing_loggers :: bool
  root_level :: string
  loggers :: "(string, row) dict"

definition logging_config ::
  "string \<Rightarrow> (string, logger_spec) dict option \<Rightarrow> string option \<Rightarrow> string \<Rightarrow> bool \<Rightarrow> logging_settings" where
  "logging_config level specs formatter_class console_format disable =
    \<lparr>formatter = (let f = [(''format'', VStr console_format),
          (''defaults'', VDict (map (\<lambda>(k, v). (VStr k, VStr v)) TRACE_ID_DEFAULTS))]
        in case formatter_class of None \<Rightarrow> f | Some c \<Rightarrow> dict_set ''class'' (VStr c) f),
     disable_existing_loggers = disable, root_level = level,
     loggers = map (\<lambda>(name, spec). (name, logger_entry spec))
       (case specs of None \<Rightarrow> map (\<lambda>(n, l). (n, Level l)) DEFAULT_LOGGERS | Some s \<Rightarrow> s)\<rparr>"

section \<open>Lemmas\<close>

lemma partition_line_joins:
  "(case partition_line s of (a, b, c) \<Rightarrow> a @ b @ c) = s"
  by (simp add: partition_line_def)

lemma line_split:
  "newline \<notin> set t \<Longrightarrow>
    takeWhile (\<lambda>c. c \<noteq> newline) (takeWhile (\<lambda>c. c \<noteq> newline) s @ t @ dropWhile (\<lambda>c. c \<noteq> newline) s) =
      takeWhile (\<lambda>c. c \<noteq> newline) s @ t \<and>
    dropWhile (\<lambda>c. c \<noteq> newline) (takeWhile (\<lambda>c. c \<noteq> newline) s @ t @ dropWhile (\<lambda>c. c \<noteq> newline) s) =
      dropWhile (\<lambda>c. c \<noteq> newline) s"
proof (induction s)
  case Nil
  then show ?case by (auto simp: takeWhile_eq_all_conv dropWhile_eq_Nil_conv)
next
  case (Cons c s)
  show ?case
  proof (cases "c = newline")
    case True
    have "\<forall>x \<in> set t. x \<noteq> newline" using Cons.prems by auto
    with True show ?thesis by (simp add: takeWhile_append2 dropWhile_append2)
  qed (use Cons in simp)
qed

text \<open>Where a newline can come from in the rendered context: a key or a value that has one.\<close>

lemma join_chars: "set (join sep ss) \<subseteq> set sep \<union> (\<Union>s \<in> set ss. set s)"
  by (induction sep ss rule: join.induct) auto

lemma rendered_context_line:
  assumes "list_all (\<lambda>(k, v). newline \<notin> set (py_str k) \<and> newline \<notin> set (py_str v)) ctx"
  shows "newline \<notin> set (rendered_context ctx)"
proof
  assume "newline \<in> set (rendered_context ctx)"
  then obtain k v where "(k, v) \<in> set ctx" "newline \<in> set (py_str k @ ''='' @ py_str v)"
    using join_chars [of "'' ''" "map (\<lambda>(k, v). py_str k @ ''='' @ py_str v) ctx"]
    by (fastforce simp: rendered_context_def newline_def)
  with assms show False by (auto simp: list_all_iff newline_def)
qed

section \<open>Properties\<close>

text \<open>
  A record's context goes to the end of its first line and nowhere else: when no key or value
  of it spells a newline, the first line gets the bracketed pairs and every later line, a traceback
  say, is unchanged; a record without a mapping for a context, or with an empty one, is unchanged.
\<close>

theorem context_on_first_line:
  "(\<forall>ctx. get_val extra LOG_CONTEXT_KEY = VDict ctx \<longrightarrow> ctx \<noteq> [] \<longrightarrow>
      list_all (\<lambda>(k, v). newline \<notin> set (py_str k) \<and> newline \<notin> set (py_str v)) ctx \<longrightarrow>
      takeWhile (\<lambda>c. c \<noteq> newline) (format_record formatted extra) =
        takeWhile (\<lambda>c. c \<noteq> newline) formatted @ '' ['' @ rendered_context ctx @ '']'' \<and>
      dropWhile (\<lambda>c. c \<noteq> newline) (format_record formatted extra) = dropWhile (\<lambda>c. c \<noteq> newline) formatted) \<and>
   (\<not> is_dict (get_val extra LOG_CONTEXT_KEY) \<or> get_val extra LOG_CONTEXT_KEY = VDict [] \<longrightarrow>
      format_record formatted extra = formatted)"
proof (intro conjI allI impI)
  fix ctx
  assume c: "get_val extra LOG_CONTEXT_KEY = VDict ctx" "ctx \<noteq> []"
    and lines: "list_all (\<lambda>(k, v). newline \<notin> set (py_str k) \<and> newline \<notin> set (py_str v)) ctx"
  have f: "format_record formatted extra = takeWhile (\<lambda>c. c \<noteq> newline) formatted @
      ('' ['' @ rendered_context ctx @ '']'') @ dropWhile (\<lambda>c. c \<noteq> newline) formatted"
    using c by (simp add: format_record_def partition_line_def)
  have "newline \<notin> set ('' ['' @ rendered_context ctx @ '']'')"
    using rendered_context_line [OF lines] by (simp add: newline_def)
  from line_split [OF this, of formatted]
  show "takeWhile (\<lambda>c. c \<noteq> newline) (format_record formatted extra) =
      takeWhile (\<lambda>c. c \<noteq> newline) formatted @ '' ['' @ rendered_context ctx @ '']''"
    "dropWhile (\<lambda>c. c \<noteq> newline) (format_record formatted extra) = dropWhile (\<lambda>c. c \<noteq> newline) formatted"
    unfolding f by blast+
qed (auto simp: format_record_def split: pyval.splits)

lemma context_on_first_line_witness:
  "takeWhile (\<lambda>c. c \<noteq> newline) (format_record (''failed'' @ newline # ''Traceback'') (log_context [(''id'', VStr ''x'')])) =
     ''failed [id=x]''"
  using context_on_first_line [of "log_context [(''id'', VStr ''x'')]" "''failed'' @ newline # ''Traceback''"]
  by (simp add: log_context_def get_val_def rendered_context_def newline_def)

text \<open>
  Every configured logger has a level or an entry of its own over the console defaults: a bare
  level keeps the console handler and stops propagation, an entry wins where it says something, and
  the loggers configured are exactly the ones given, or the default two.
\<close>

lemma logger_entries:
  assumes "specs = Some given" and "dict_get given name = Some spec" and "case spec of Level l \<Rightarrow> True | Entry e \<Rightarrow> dict_ok e"
  shows "\<exists>entry. dict_get (loggers (logging_config level specs cls fmt dis)) name = Some entry \<and>
    (\<forall>k. dict_get entry k =
      (case (case spec of Level l \<Rightarrow> dict_get [(''level'', VStr l)] k | Entry e \<Rightarrow> dict_get e k) of
        Some v \<Rightarrow> Some v
      | None \<Rightarrow> dict_get [(''handlers'', VList [VStr ''console'']), (''propagate'', VBool False)] k))"
proof -
  have "dict_get (loggers (logging_config level specs cls fmt dis)) name = Some (logger_entry spec)"
    using assms(1,2) by (simp add: logging_config_def dict_get_def map_of_map [unfolded comp_def])
  moreover have "dict_get (logger_entry spec) k =
      (case (case spec of Level l \<Rightarrow> dict_get [(''level'', VStr l)] k | Entry e \<Rightarrow> dict_get e k) of
        Some v \<Rightarrow> Some v
      | None \<Rightarrow> dict_get [(''handlers'', VList [VStr ''console'']), (''propagate'', VBool False)] k)" for k
  proof (cases spec)
    case (Level l)
    then show ?thesis by (simp add: logger_entry_def Let_def dict.get_put)
  next
    case (Entry e)
    with assms(3) show ?thesis by (simp add: logger_entry_def Let_def dict_get_update_ok split: option.split)
  qed
  ultimately show ?thesis by blast
qed

end
