(* ===== verification/Db_Timeout.thy ===== *)
theory Db_Timeout
  imports Env
begin

text \<open>
  \<open>netix_backend/django/db_timeout.py\<close>: the statement timeout set on every new Postgres
  connection. The process is its argument vector and environment; the signal holds its receivers
  under their dispatch identifiers, where connecting a second one under the same identifier is
  ignored, as Django documents; a connection executes statements.
\<close>

definition DB_STATEMENT_TIMEOUT_MS :: int where "DB_STATEMENT_TIMEOUT_MS = 30000"
definition STATEMENT_TIMEOUT_ENV :: string where "STATEMENT_TIMEOUT_ENV = ''DB_STATEMENT_TIMEOUT_MS''"
definition DISPATCH_UID :: string where "DISPATCH_UID = ''netix_backend.django.db_timeout''"

definition MIGRATION_COMMANDS :: "string list" where
  "MIGRATION_COMMANDS = [''migrate'', ''makemigrations'', ''sqlmigrate'', ''showmigrations'', ''squashmigrations'']"

record process =
  argv :: "string list"
  proc_environ :: environ

definition is_migration_process :: "process \<Rightarrow> bool" where
  "is_migration_process p \<longleftrightarrow> length (argv p) > 1 \<and> argv p ! 1 \<in> set MIGRATION_COMMANDS"

definition statement_timeout_ms :: "process \<Rightarrow> int \<Rightarrow> int res" where
  "statement_timeout_ms p dflt =
    (if is_migration_process p then Inr 0 else env_int (proc_environ p) STATEMENT_TIMEOUT_ENV dflt)"

definition set_statement :: "int \<Rightarrow> string" where
  "set_statement ms = ''SET statement_timeout = '' @ int_str ms"

text \<open>The statements a receiver executes on a new connection of a vendor, or what it raises.\<close>

definition apply_statement_timeout :: "process \<Rightarrow> int option \<Rightarrow> string \<Rightarrow> string list res" where
  "apply_statement_timeout p pinned vendor =
    (if vendor \<noteq> ''postgresql'' then Inr []
     else rbind (case pinned of None \<Rightarrow> statement_timeout_ms p DB_STATEMENT_TIMEOUT_MS | Some ms \<Rightarrow> Inr ms)
       (\<lambda>ceiling. Inr [set_statement ceiling]))"

text \<open>The receivers of \<open>connection_created\<close>: identifier and pinned timeout.\<close>

type_synonym receivers = "(string, int option) dict"

definition install_timeout :: "int option \<Rightarrow> string \<Rightarrow> receivers \<Rightarrow> receivers" where
  "install_timeout pinned uid rs = (if dict_get rs uid = None then rs @ [(uid, pinned)] else rs)"

definition uninstall_timeout :: "string \<Rightarrow> receivers \<Rightarrow> receivers" where
  "uninstall_timeout uid rs = dict_pop uid rs"

text \<open>Opening a connection: the receivers run in order, the first that raises ending it.\<close>

fun open_connection :: "process \<Rightarrow> receivers \<Rightarrow> string \<Rightarrow> string list res" where
  "open_connection p [] vendor = Inr []"
| "open_connection p ((uid, pinned) # rs) vendor =
    rbind (apply_statement_timeout p pinned vendor) (\<lambda>sql.
    rbind (open_connection p rs vendor) (\<lambda>more. Inr (sql @ more)))"

section \<open>Lemmas\<close>

lemma install_present: "dict_get rs uid \<noteq> None \<Longrightarrow> fold (\<lambda>pinned. install_timeout pinned uid) ys rs = rs"
  by (induction ys) (auto simp: install_timeout_def)

lemma install_all_empty:
  "fold (\<lambda>pinned. install_timeout pinned uid) (x # xs) [] = [(uid, x)]"
  using install_present [of "[(uid, x)]" uid xs] by (simp add: install_timeout_def)

section \<open>Properties\<close>

text \<open>
  Every new Postgres connection gets exactly one ceiling, however often the receiver is
  installed: the first installation counts; without a pinned timeout the ceiling is 0 in a migration
  process and else the variable's integer or the default, set explicitly even when it is 0, and a
  variable that is no integer refuses the connection; other vendors get nothing. A pinned timeout is
  applied as it is, in a migration process too.
\<close>

theorem one_ceiling_per_connection:
  "open_connection p (fold (\<lambda>pinned. install_timeout pinned uid) (first # again) []) vendor =
    (if vendor \<noteq> ''postgresql'' then Inr []
     else case first of
       Some ms \<Rightarrow> Inr [set_statement ms]
     | None \<Rightarrow>
         if is_migration_process p then Inr [set_statement 0]
         else case lookup (proc_environ p) STATEMENT_TIMEOUT_ENV of
             None \<Rightarrow> Inr [set_statement DB_STATEMENT_TIMEOUT_MS]
           | Some raw \<Rightarrow> (case py_int raw of
               Some ms \<Rightarrow> Inr [set_statement ms]
             | None \<Rightarrow> Inl (Configuration_Error (STATEMENT_TIMEOUT_ENV @ ''='' @ repr_str raw @ '' is not an integer''))))"
  unfolding install_all_empty
  by (simp add: apply_statement_timeout_def statement_timeout_ms_def env_int_def split: option.split)

text \<open>
  Uninstalling undoes installing: once the identifier is uninstalled a connection executes what
  it would have executed had it never been installed.
\<close>

theorem uninstall_undoes_install:
  assumes "dict_get rs uid = None"
  shows "open_connection p (uninstall_timeout uid (fold (\<lambda>pinned. install_timeout pinned uid) all rs)) vendor =
    open_connection p rs vendor"
proof -
  have pop: "dict_pop uid (rs @ [(uid, x)]) = rs" for x
    using assms by (induction rs) (auto simp: dict_pop_def dict_get_def split: if_splits)
  have pop': "dict_pop uid rs = rs"
    using assms by (induction rs) (auto simp: dict_pop_def dict_get_def split: if_splits)
  have keep: "fold (\<lambda>pinned. install_timeout pinned uid) ys (rs @ [(uid, x)]) = rs @ [(uid, x)]" for ys x
    by (rule install_present) (auto simp: dict_get_def map_add_def split: option.splits)
  have "uninstall_timeout uid (fold (\<lambda>pinned. install_timeout pinned uid) all rs) = rs"
    using assms pop pop' keep by (cases all) (simp_all add: uninstall_timeout_def install_timeout_def)
  then show ?thesis by simp
qed

lemma uninstall_undoes_install_witness:
  "open_connection \<lparr>argv = [''manage.py'', ''runserver''], proc_environ = (\<lambda>n. None)\<rparr>
    (uninstall_timeout DISPATCH_UID (fold (\<lambda>pinned. install_timeout pinned DISPATCH_UID) [None, Some 5] [])) ''postgresql'' = Inr []"
  using uninstall_undoes_install [of "[]" DISPATCH_UID _ "[None, Some 5]"] by simp

end
