(* ===== verification/Pagination.thy ===== *)
theory Pagination
  imports Py_Value
begin

text \<open>
  \<open>netix_backend/django/pagination.py\<close>: limit/offset pagination whose limits are read from the
  settings at every request. \<open>get_limit\<close> of Django REST framework, which the code calls with the
  two limits bound, is written out from its documented behaviour: a \<open>limit\<close> that is a positive
  integer, cut at the maximum, else the default.
\<close>

text \<open>A paginator class: its two numbers and the prefix of the settings that override them.\<close>

record paginator =
  default_limit :: int
  max_limit :: "int option"
  setting_prefix :: "string option"

definition NetixLimitOffsetPagination :: paginator where
  "NetixLimitOffsetPagination = \<lparr>default_limit = 1000, max_limit = Some 1000, setting_prefix = None\<rparr>"

definition BaseLimitOffsetPagination :: paginator where
  "BaseLimitOffsetPagination = NetixLimitOffsetPagination\<lparr>setting_prefix := Some ''NETIX_PAGINATION''\<rparr>"

definition BigLimitOffsetPagination :: paginator where
  "BigLimitOffsetPagination = NetixLimitOffsetPagination\<lparr>setting_prefix := Some ''NETIX_BIG_PAGINATION'',
    default_limit := 2000, max_limit := Some 10000\<rparr>"

definition limit_offset_pagination :: "int \<Rightarrow> int option \<Rightarrow> string option \<Rightarrow> paginator" where
  "limit_offset_pagination dflt mx prefix = \<lparr>default_limit = dflt, max_limit = mx, setting_prefix = prefix\<rparr>"

text \<open>\<open>settings\<close> are the attributes that are set; a value that is no integer raises.\<close>

definition limit_setting :: "row \<Rightarrow> paginator \<Rightarrow> string \<Rightarrow> int option \<Rightarrow> int option res" where
  "limit_setting settings pg suffix fallback =
    (case setting_prefix pg of
      None \<Rightarrow> Inr fallback
    | Some prefix \<Rightarrow>
        (case dict_get settings (prefix @ ''_'' @ suffix) of
          None \<Rightarrow> Inr fallback
        | Some v \<Rightarrow> if v = VNone then Inr None else rbind (py_int_of v) (\<lambda>i. Inr (Some i))))"

definition get_default_limit :: "row \<Rightarrow> paginator \<Rightarrow> int option res" where
  "get_default_limit settings pg = limit_setting settings pg ''DEFAULT_LIMIT'' (Some (default_limit pg))"

definition get_max_limit :: "row \<Rightarrow> paginator \<Rightarrow> int option res" where
  "get_max_limit settings pg = limit_setting settings pg ''MAX_LIMIT'' (max_limit pg)"

text \<open>The framework's own part, with the two limits bound.\<close>

definition positive_int :: "string \<Rightarrow> int option \<Rightarrow> int option" where
  "positive_int raw cutoff =
    (case py_int raw of
      None \<Rightarrow> None
    | Some i \<Rightarrow> if i \<le> 0 then None
        else Some (case cutoff of None \<Rightarrow> i | Some c \<Rightarrow> if c = 0 then i else min i c))"

definition framework_limit :: "int option \<Rightarrow> int option \<Rightarrow> string option \<Rightarrow> int option" where
  "framework_limit dflt mx raw =
    (case raw of
      None \<Rightarrow> dflt
    | Some r \<Rightarrow> (case positive_int r mx of Some i \<Rightarrow> Some i | None \<Rightarrow> dflt))"

text \<open>\<open>raw\<close> is the request's \<open>limit\<close> parameter.\<close>

definition get_limit :: "row \<Rightarrow> paginator \<Rightarrow> string option \<Rightarrow> int option res" where
  "get_limit settings pg raw =
    rbind (get_default_limit settings pg) (\<lambda>dflt.
    rbind (get_max_limit settings pg) (\<lambda>mx.
      Inr (framework_limit dflt mx raw)))"

section \<open>Properties\<close>

text \<open>
  No caller gets a page above the ceiling of the moment, nor one of zero or fewer rows: whatever
  the request's \<open>limit\<close> spells, the page size is the default, or positive, at most what was asked
  and at most a non-zero maximum, both limits read from the settings as they are now.
\<close>

theorem page_bounded:
  assumes "get_limit settings pg raw = Inr page"
  shows "\<exists>dflt mx. get_default_limit settings pg = Inr dflt \<and> get_max_limit settings pg = Inr mx \<and>
    (page = dflt \<or>
     (\<exists>i asked. page = Some i \<and> raw \<noteq> None \<and> py_int (the raw) = Some asked \<and> 0 < asked \<and> i \<le> asked \<and>
        (mx = None \<or> mx = Some 0 \<longrightarrow> i = asked) \<and>
        (\<forall>m. mx = Some m \<longrightarrow> 0 < m \<longrightarrow> 0 < i \<and> i \<le> m)))"
proof -
  obtain dflt mx where l: "get_default_limit settings pg = Inr dflt" "get_max_limit settings pg = Inr mx"
    and page: "page = framework_limit dflt mx raw"
    using assms by (auto simp: get_limit_def res_simps)
  show ?thesis
  proof (cases "page = dflt")
    case False
    then obtain r asked where "raw = Some r" "py_int r = Some asked" "0 < asked"
      "page = Some (case mx of None \<Rightarrow> asked | Some c \<Rightarrow> if c = 0 then asked else min asked c)"
      using page by (auto simp: framework_limit_def positive_int_def split: option.splits if_splits)
    with l show ?thesis by (auto split: option.splits)
  qed (use l in blast)
qed

lemma page_bounded_witness:
  "\<exists>page. get_limit [(''NETIX_PAGINATION_MAX_LIMIT'', VInt 50)] BaseLimitOffsetPagination (Some (int_str 200)) = Inr page \<and>
    (page = Some 1000 \<or> (\<exists>i. page = Some i \<and> 0 < i \<and> i \<le> 50))"
proof -
  let ?s = "[(''NETIX_PAGINATION_MAX_LIMIT'', VInt 50)]"
  have l: "get_default_limit ?s BaseLimitOffsetPagination = Inr (Some 1000)"
    "get_max_limit ?s BaseLimitOffsetPagination = Inr (Some 50)"
    by (simp_all add: get_default_limit_def get_max_limit_def limit_setting_def BaseLimitOffsetPagination_def
        NetixLimitOffsetPagination_def py_int_of_def)
  then obtain page where page: "get_limit ?s BaseLimitOffsetPagination (Some (int_str 200)) = Inr page"
    by (simp add: get_limit_def)
  from page_bounded [OF this] l page show ?thesis by auto
qed

text \<open>
  The settings win over the class and are read at each request: with a prefix, a limit that is
  set is what the setting says now, \<open>None\<close> lifting it, and the class's number is used only when it
  is not set; without a prefix the settings have no influence.
\<close>

theorem settings_override_limits:
  "get_max_limit settings pg =
    (case setting_prefix pg of
      None \<Rightarrow> Inr (max_limit pg)
    | Some prefix \<Rightarrow> (case dict_get settings (prefix @ ''_MAX_LIMIT'') of
        None \<Rightarrow> Inr (max_limit pg)
      | Some v \<Rightarrow> if v = VNone then Inr None else map_sum id Some (py_int_of v))) \<and>
   (setting_prefix pg = None \<longrightarrow> get_limit settings pg raw = get_limit [] pg raw)"
  by (auto simp: get_max_limit_def get_limit_def get_default_limit_def limit_setting_def split: option.split sum.split)
    (metis map_sum.simps obj_sumE rbind.simps id_apply)+

end
