(* ===== verification/Org_Bootstrap.thy ===== *)
theory Org_Bootstrap
  imports Py_Value
begin

text \<open>
  \<open>netix_backend/django/org_bootstrap.py\<close>: the internal endpoint that clones the template catalog
  into an organization and tears it down. The guard, the field parsers of Django REST framework and
  the service's two primitives are arguments; the primitives work on the service's state, and the
  calls they get are recorded.
\<close>

section \<open>What the view relies on\<close>

text \<open>Parsing one field: an integer with a lower bound, or text that may be blank.\<close>

record field_parsers =
  integer_field :: "int option \<Rightarrow> pyval \<Rightarrow> int res"
  char_field :: "pyval \<Rightarrow> string res"

type_synonym stats = "(string, int) dict"

record 's bootstrap_view =
  clone_primitives :: "int \<Rightarrow> int \<Rightarrow> string option \<Rightarrow> 's \<Rightarrow> stats res \<times> 's"
  teardown_primitives :: "int \<Rightarrow> 's \<Rightarrow> stats res \<times> 's"
  clone_error :: "exc \<Rightarrow> bool"
    \<comment> \<open>instances of the service's error class\<close>
  catalog :: string

text \<open>The bound view: two callables, an error class and a catalog name.\<close>

definition build_org_bootstrap_view ::
  "(int \<Rightarrow> int \<Rightarrow> string option \<Rightarrow> 's \<Rightarrow> stats res \<times> 's) \<Rightarrow> (int \<Rightarrow> 's \<Rightarrow> stats res \<times> 's) \<Rightarrow>
    (exc \<Rightarrow> bool) \<Rightarrow> string \<Rightarrow> 's bootstrap_view" where
  "build_org_bootstrap_view clone teardown error cat =
    \<lparr>clone_primitives = clone, teardown_primitives = teardown, clone_error = error, catalog = cat\<rparr>"

datatype primitive_call = Clone_Call int int "string option" | Teardown_Call int

datatype reply = Refused string | Stats int stats

record 's outcome =
  answer :: "(int \<times> reply) res"
    \<comment> \<open>status and body, or the exception left to the framework\<close>
  service_state :: 's
  primitive_calls :: "primitive_call list"
  refusals_logged :: "(int \<times> string option) list"
    \<comment> \<open>organization, and the catalog if the view has one\<close>

section \<open>Serializers\<close>

definition field :: "(pyval \<Rightarrow> 'a res) \<Rightarrow> 'a option \<Rightarrow> string \<Rightarrow> row \<Rightarrow> 'a res" where
  "field parse dflt name body =
    (case (dict_get body name, dflt) of
      (Some v, _) \<Rightarrow> parse v
    | (None, Some d) \<Rightarrow> Inr d
    | (None, None) \<Rightarrow> Inl (Validation_Error (Some name) ''This field is required.''))"

record bootstrap_data =
  organization_id :: int
  source_organization_id :: int
  run_id :: string

definition OrgBootstrapSerializer :: "field_parsers \<Rightarrow> row \<Rightarrow> bootstrap_data res" where
  "OrgBootstrapSerializer p body =
    rbind (field (integer_field p (Some 1)) None ''organization_id'' body) (\<lambda>org.
    rbind (field (integer_field p None) (Some 0) ''source_organization_id'' body) (\<lambda>source.
    rbind (field (char_field p) (Some []) ''run_id'' body) (\<lambda>run.
      Inr \<lparr>organization_id = org, source_organization_id = source, run_id = run\<rparr>)))"

definition OrgTeardownSerializer :: "field_parsers \<Rightarrow> row \<Rightarrow> int res" where
  "OrgTeardownSerializer p body =
    rbind (field (integer_field p (Some 1)) None ''organization_id'' body) (\<lambda>org.
    rbind (field (char_field p) (Some []) ''run_id'' body) (\<lambda>run. Inr org))"

section \<open>The handlers\<close>

definition refusal_log :: "'s bootstrap_view \<Rightarrow> int \<Rightarrow> (int \<times> string option) list" where
  "refusal_log v org = [(org, if catalog v \<noteq> [] then Some (catalog v) else None)]"

text \<open>What a call does: the primitive of its kind, with its arguments.\<close>

fun run_primitive :: "'s bootstrap_view \<Rightarrow> primitive_call \<Rightarrow> 's \<Rightarrow> stats res \<times> 's" where
  "run_primitive v (Clone_Call org source run) s = clone_primitives v org source run s"
| "run_primitive v (Teardown_Call org) s = teardown_primitives v org s"

text \<open>The common end of both handlers: one primitive is run, and answered with statistics, a refusal, or the exception.\<close>

definition driver_outcome ::
  "'s bootstrap_view \<Rightarrow> (exc \<Rightarrow> string) \<Rightarrow> int \<Rightarrow> primitive_call \<Rightarrow> 's \<Rightarrow> 's outcome" where
  "driver_outcome v exc_text org call s =
    (case run_primitive v call s of
      (Inr st, s') \<Rightarrow> \<lparr>answer = Inr (200, Stats org st), service_state = s', primitive_calls = [call], refusals_logged = []\<rparr>
    | (Inl e, s') \<Rightarrow>
        if clone_error v e
        then \<lparr>answer = Inr (409, Refused (exc_text e)), service_state = s', primitive_calls = [call],
              refusals_logged = refusal_log v org\<rparr>
        else \<lparr>answer = Inl e, service_state = s', primitive_calls = [call], refusals_logged = []\<rparr>)"

definition refused_early :: "exc \<Rightarrow> 's \<Rightarrow> 's outcome" where
  "refused_early e s = \<lparr>answer = Inl e, service_state = s, primitive_calls = [], refusals_logged = []\<rparr>"

text \<open>\<open>guard\<close> is the exception of \<open>envoy_internal_only\<close> for this caller, if it refuses.\<close>

definition bootstrap_post ::
  "'s bootstrap_view \<Rightarrow> field_parsers \<Rightarrow> (exc \<Rightarrow> string) \<Rightarrow> exc option \<Rightarrow> row \<Rightarrow> 's \<Rightarrow> 's outcome" where
  "bootstrap_post v p exc_text guard body s =
    (case guard of
      Some e \<Rightarrow> refused_early e s
    | None \<Rightarrow>
        (case OrgBootstrapSerializer p body of
          Inl e \<Rightarrow> refused_early e s
        | Inr data \<Rightarrow>
            (let org = organization_id data; source = source_organization_id data;
                 run = (if run_id data = [] then None else Some (run_id data))
             in driver_outcome v exc_text org (Clone_Call org source run) s)))"

definition bootstrap_delete ::
  "'s bootstrap_view \<Rightarrow> field_parsers \<Rightarrow> (exc \<Rightarrow> string) \<Rightarrow> exc option \<Rightarrow> row \<Rightarrow> 's \<Rightarrow> 's outcome" where
  "bootstrap_delete v p exc_text guard body s =
    (case guard of
      Some e \<Rightarrow> refused_early e s
    | None \<Rightarrow>
        (case OrgTeardownSerializer p body of
          Inl e \<Rightarrow> refused_early e s
        | Inr org \<Rightarrow> driver_outcome v exc_text org (Teardown_Call org) s))"

section \<open>Lemmas\<close>

lemma field_bounded:
  assumes "\<And>m v i. integer_field p (Some m) v = Inr i \<Longrightarrow> m \<le> i"
    and "field (integer_field p (Some 1)) None name body = Inr org"
  shows "1 \<le> org"
  using assms by (auto simp: field_def split: option.splits)

lemma driver_outcome_runs:
  "primitive_calls (driver_outcome v t org call s) = [call]"
  "service_state (driver_outcome v t org call s) = snd (run_primitive v call s)"
  by (cases "run_primitive v call s"; simp add: driver_outcome_def split: sum.split)+

text \<open>A request that ends before the driver: the exception, and nothing else.\<close>

definition untouched :: "'s outcome \<Rightarrow> exc \<Rightarrow> 's \<Rightarrow> bool" where
  "untouched out e s \<longleftrightarrow> answer out = Inl e \<and> service_state out = s \<and> primitive_calls out = [] \<and> refusals_logged out = []"

lemma refused_early_untouched [simp]: "untouched (refused_early e s) e s"
  by (simp add: refused_early_def untouched_def)

section \<open>Properties\<close>

text \<open>
  C38. The template organization is never a target, and nothing happens that was not asked for. A caller the
  guard refuses gets the guard's exception, and a body that does not validate the validation error, on both
  methods: no primitive is called, the service's state is as it was and nothing is logged. With field parsers that
  keep their lower bound, any other bootstrap runs the clone primitive, once, on the organization the body names,
  which is at least 1, with the body's source and run identifier (none for a blank one), any other teardown
  runs the teardown primitive, once, on the organization its body names, at least 1 too; and what becomes of
  the service's state is what that one call makes of it.
\<close>

theorem template_never_a_target:
  fixes v :: "'s bootstrap_view" and t :: "exc \<Rightarrow> string" and guard :: "exc option" and body :: row and s :: 's
  assumes "\<And>m v i. integer_field p (Some m) v = Inr i \<Longrightarrow> m \<le> i"
  defines "post \<equiv> bootstrap_post v p t guard body s" and "delete \<equiv> bootstrap_delete v p t guard body s"
  shows "(\<forall>e. guard = Some e \<longrightarrow> untouched post e s \<and> untouched delete e s)
    \<and> (guard = None \<longrightarrow>
        (case OrgBootstrapSerializer p body of
          Inl e \<Rightarrow> untouched post e s
        | Inr d \<Rightarrow> let run = (if run_id d = [] then None else Some (run_id d)) in
            1 \<le> organization_id d \<and> primitive_calls post = [Clone_Call (organization_id d) (source_organization_id d) run]
            \<and> service_state post = snd (clone_primitives v (organization_id d) (source_organization_id d) run s))
        \<and> (case OrgTeardownSerializer p body of
          Inl e \<Rightarrow> untouched delete e s
        | Inr org \<Rightarrow> 1 \<le> org \<and> primitive_calls delete = [Teardown_Call org]
            \<and> service_state delete = snd (teardown_primitives v org s)))"
proof -
  have "1 \<le> organization_id d" if "OrgBootstrapSerializer p body = Inr d" for d
    using that field_bounded [OF assms(1)] by (auto simp: OrgBootstrapSerializer_def res_simps)
  moreover have "1 \<le> org" if "OrgTeardownSerializer p body = Inr org" for org
    using that field_bounded [OF assms(1)] by (auto simp: OrgTeardownSerializer_def res_simps)
  ultimately show ?thesis
    by (auto simp: post_def delete_def bootstrap_post_def bootstrap_delete_def Let_def driver_outcome_runs split: sum.split)
qed

abbreviation plain_parsers :: field_parsers where
  "plain_parsers \<equiv> \<lparr>integer_field = (\<lambda>least v. case v of
      VInt i \<Rightarrow> if (case least of Some m \<Rightarrow> m \<le> i | None \<Rightarrow> True) then Inr i
        else Inl (Validation_Error None ''too small'')
    | _ \<Rightarrow> Inl (Validation_Error None ''not an integer'')),
    char_field = (\<lambda>v. Inr (py_str v))\<rparr>"

abbreviation counting_view :: "nat bootstrap_view" where
  "counting_view \<equiv> \<lparr>clone_primitives = (\<lambda>org source run n. (Inr [], n + 1)),
    teardown_primitives = (\<lambda>org n. (Inr [], n - 1)), clone_error = (\<lambda>e. e = Runtime_Error ''clone''), catalog = []\<rparr>"

lemma plain_parsers_bound: "integer_field plain_parsers (Some m) v = Inr i \<Longrightarrow> m \<le> i"
  by (auto split: pyval.splits if_splits)

lemma template_never_a_target_witness:
  "service_state (bootstrap_post counting_view plain_parsers (\<lambda>e. ''x'') None [(''organization_id'', VInt 7)] 3) = 4
   \<and> service_state (bootstrap_delete counting_view plain_parsers (\<lambda>e. ''x'') None [(''organization_id'', VInt 7)] 3) = 2
   \<and> service_state (bootstrap_post counting_view plain_parsers (\<lambda>e. ''x'') None [(''organization_id'', VInt 0)] 3) = 3
   \<and> service_state (bootstrap_post counting_view plain_parsers (\<lambda>e. ''x'') (Some Http404) [(''organization_id'', VInt 7)] 3) = 3"
proof -
  note never = template_never_a_target [where p = plain_parsers and v = counting_view and t = "\<lambda>e. ''x''" and s = 3, OF plain_parsers_bound]
  have seven: "OrgBootstrapSerializer plain_parsers [(''organization_id'', VInt 7)] =
      Inr \<lparr>organization_id = 7, source_organization_id = 0, run_id = []\<rparr>"
    "OrgTeardownSerializer plain_parsers [(''organization_id'', VInt 7)] = Inr 7"
    by (simp_all add: OrgBootstrapSerializer_def OrgTeardownSerializer_def field_def)
  have zero: "\<exists>e. OrgBootstrapSerializer plain_parsers [(''organization_id'', VInt 0)] = Inl e"
    by (simp add: OrgBootstrapSerializer_def field_def)
  show ?thesis
    using never [where guard = None and body = "[(''organization_id'', VInt 7)]"]
      never [where guard = None and body = "[(''organization_id'', VInt 0)]"]
      never [where guard = "Some Http404" and body = "[(''organization_id'', VInt 7)]"] zero
    by (auto simp: seven untouched_def Let_def split: sum.splits)
qed

text \<open>
  A refused run is a 409 and nothing else is: for an admitted caller and a valid body, the
  answer is 200 with the driver's statistics when it returned, 409 with its message, logged once,
  when it raised the service's own error class, and the exception itself when it raised anything
  else; a blank run identifier reaches the driver as none.
\<close>

theorem refusal_is_conflict:
  assumes "OrgBootstrapSerializer p body = Inr data"
    and "run = (if run_id data = [] then None else Some (run_id data))"
    and "clone_primitives v (organization_id data) (source_organization_id data) run s = (got, s')"
  shows "service_state (bootstrap_post v p t None body s) = s' \<and>
    primitive_calls (bootstrap_post v p t None body s) =
      [Clone_Call (organization_id data) (source_organization_id data) run] \<and>
    answer (bootstrap_post v p t None body s) =
      (case got of
        Inr st \<Rightarrow> Inr (200, Stats (organization_id data) st)
      | Inl e \<Rightarrow> if clone_error v e then Inr (409, Refused (t e)) else Inl e) \<and>
    length (refusals_logged (bootstrap_post v p t None body s)) =
      (case got of Inl e \<Rightarrow> if clone_error v e then 1 else 0 | Inr st \<Rightarrow> 0)"
  using assms by (cases got) (simp_all add: bootstrap_post_def driver_outcome_def Let_def refusal_log_def)

lemma refusal_is_conflict_witness:
  "answer (bootstrap_post (counting_view\<lparr>clone_primitives := \<lambda>org source run n. (Inl (Runtime_Error ''clone''), n)\<rparr>)
     plain_parsers (\<lambda>e. ''x'') None [(''organization_id'', VInt 7)] 0) = Inr (409, Refused ''x'')"
proof -
  have "OrgBootstrapSerializer plain_parsers [(''organization_id'', VInt 7)] =
      Inr \<lparr>organization_id = 7, source_organization_id = 0, run_id = []\<rparr>"
    by (simp add: OrgBootstrapSerializer_def field_def)
  from refusal_is_conflict [OF this refl, of "counting_view\<lparr>clone_primitives := \<lambda>org source run n. (Inl (Runtime_Error ''clone''), n)\<rparr>" 0
      "Inl (Runtime_Error ''clone'')" 0 "\<lambda>e. ''x''"]
  show ?thesis by simp
qed

end
