(* ===== verification/Test_Settings.thy ===== *)
theory Test_Settings
  imports Env Py_Value
begin

text \<open>
  \<open>netix_backend/django/test_settings.py\<close> and the parts of \<open>testing.py\<close> it builds on: the environment
  and the settings overrides of a test run. The environment is a map that is returned updated; a
  settings module is a row of its names; a temporary directory is an argument.
\<close>

section \<open>Constants\<close>

definition SQLITE_ENGINE :: string where "SQLITE_ENGINE = ''django.db.backends.sqlite3''"
definition LOCMEM_CACHE_BACKEND :: string where
  "LOCMEM_CACHE_BACKEND = ''django.core.cache.backends.locmem.LocMemCache''"
definition LOCMEM_EMAIL_BACKEND :: string where
  "LOCMEM_EMAIL_BACKEND = ''django.core.mail.backends.locmem.EmailBackend''"
definition MD5_PASSWORD_HASHER :: string where
  "MD5_PASSWORD_HASHER = ''django.contrib.auth.hashers.MD5PasswordHasher''"

definition SESSION_ENGINES :: "(string, string) dict" where
  "SESSION_ENGINES = [(''cache'', ''django.contrib.sessions.backends.cache''),
    (''signed_cookies'', ''django.contrib.sessions.backends.signed_cookies'')]"

definition DEFAULT_TEST_BEARER :: string where "DEFAULT_TEST_BEARER = ''Bearer netix-backend-test-platform''"
definition ENVOY_MIDDLEWARE_PATH :: string where
  "ENVOY_MIDDLEWARE_PATH = ''envoy_pyauth.middleware.AuthorizationMiddleware''"
definition TEST_MIDDLEWARE_PATH :: string where
  "TEST_MIDDLEWARE_PATH = ''netix_backend.django.testing.EnvoyTestAuthorizationMiddleware''"
definition EXPLICIT_MIDDLEWARE_PATH :: string where
  "EXPLICIT_MIDDLEWARE_PATH = ''netix_backend.django.testing.ExplicitEnvoyIdentityMiddleware''"

definition TEST_ENV_DEFAULTS :: "(string, string) dict" where
  "TEST_ENV_DEFAULTS = [(''DJANGO_SECRET'', ''test-secret-key-not-for-production''), (''DJANGO_DEBUG'', ''TRUE''),
    (''POSTGRES_NAME'', ''test''), (''POSTGRES_USER'', ''test''), (''POSTGRES_PASSWORD'', ''test''),
    (''POSTGRES_HOST'', ''localhost''), (''POSTGRES_PORT'', ''5432''), (''SENTINEL_ENABLED'', ''FALSE''),
    (''REDIS_HOST'', ''localhost''), (''REDIS_PORT'', ''6379''), (''REDIS_DB'', ''0''), (''REDIS_PASSWORD'', []),
    (''CACHE_ENABLED'', ''FALSE''), (''SENTRY_ENABLED'', ''FALSE''), (''SESSION_CUSTOMER_FILTER'', ''FALSE''),
    (''CSRF_TRUSTED_ORIGINS'', ''http://localhost:8000'')]"

definition DEFAULT_TEST_PLATFORM_IDENTITY :: row where
  "DEFAULT_TEST_PLATFORM_IDENTITY = [(''username'', VStr ''platform_internal''), (''user_id'', VInt 0),
    (''organization'', VInt 0), (''is_superuser'', VBool True), (''is_platform_internal'', VBool True),
    (''user_type'', VStr ''service''), (''permissions'', VList []), (''groups'', VList []),
    (''feature_flags'', VList [])]"

section \<open>The environment\<close>

text \<open>The two loops: \<open>setdefault\<close> of every default, then assignment of every forced value.\<close>

fun set_defaults :: "string list \<Rightarrow> (string, string) dict \<Rightarrow> environ \<Rightarrow> environ" where
  "set_defaults skipped [] env = env"
| "set_defaults skipped ((key, v) # kvs) env =
    set_defaults skipped kvs (if key \<in> set skipped \<or> env key \<noteq> None then env else env(key \<mapsto> v))"

fun set_forced :: "string list \<Rightarrow> (string, string) dict \<Rightarrow> environ \<Rightarrow> environ" where
  "set_forced skipped [] env = env"
| "set_forced skipped ((key, v) # kvs) env =
    set_forced skipped kvs (if key \<in> set skipped then env else env(key \<mapsto> v))"

definition apply_test_env ::
  "(string, string) dict \<Rightarrow> string list \<Rightarrow> (string, string) dict \<Rightarrow> environ \<Rightarrow> (string, string option) dict \<times> environ" where
  "apply_test_env force skipped overrides env =
    (let defaults = dict_update TEST_ENV_DEFAULTS overrides;
         env' = set_forced skipped force (set_defaults skipped defaults env)
     in (map (\<lambda>key. (key, env' key)) (filter (\<lambda>key. key \<notin> set skipped) (dict_keys (dict_update defaults force))), env'))"

section \<open>The base settings\<close>

text \<open>\<open>isupper\<close>: a cased character, and no lower-case one.\<close>

definition is_upper_name :: "string \<Rightarrow> bool" where
  "is_upper_name s \<longleftrightarrow> list_ex (\<lambda>c. lower_char c \<noteq> c) s \<and> list_all (\<lambda>c. upper_char c = c) s"

text \<open>\<open>base\<close> are the names of the module in the order of \<open>dir\<close>, with their values.\<close>

fun load_base_settings :: "bool \<Rightarrow> row \<Rightarrow> row \<Rightarrow> row" where
  "load_base_settings skip_existing [] namespace = namespace"
| "load_base_settings skip_existing ((name, v) # base) namespace =
    load_base_settings skip_existing base
      (if is_upper_name name \<and> \<not> (skip_existing \<and> dict_get namespace name \<noteq> None)
       then dict_set name v namespace else namespace)"

section \<open>The overrides\<close>

datatype database = Sqlite_Name pyval | Alias_Config row

definition as_value :: "row \<Rightarrow> pyval" where
  "as_value r = VDict (map (\<lambda>(k, v). (VStr k, v)) r)"

definition database_config :: "database \<Rightarrow> string \<Rightarrow> bool option \<Rightarrow> row" where
  "database_config db engine atomic_requests =
    (let config = (case db of Alias_Config r \<Rightarrow> r | Sqlite_Name n \<Rightarrow> [(''ENGINE'', VStr engine), (''NAME'', n)])
     in case atomic_requests of None \<Rightarrow> config | Some b \<Rightarrow> dict_set ''ATOMIC_REQUESTS'' (VBool b) config)"

definition databases :: "database \<Rightarrow> string \<Rightarrow> string list \<Rightarrow> bool \<Rightarrow> bool option \<Rightarrow> (string, row) dict" where
  "databases db engine aliases alias_mirror atomic_requests =
    (let dflt = database_config db engine atomic_requests;
         clone = (if alias_mirror then dict_set ''TEST'' (as_value [(''MIRROR'', VStr ''default'')]) dflt else dflt)
     in fold (\<lambda>a. dict_set a clone) aliases [(''default'', dflt)])"

definition caches_config :: "string option \<Rightarrow> (string, row) dict" where
  "caches_config location =
    (let config = [(''BACKEND'', VStr LOCMEM_CACHE_BACKEND)]
     in [(''default'', case location of None \<Rightarrow> config | Some l \<Rightarrow> dict_set ''LOCATION'' (VStr l) config)])"

definition platform_test_identity :: "string list \<Rightarrow> row \<Rightarrow> row" where
  "platform_test_identity permissions overrides =
    dict_update (dict_set ''permissions'' (VList (map VStr permissions)) DEFAULT_TEST_PLATFORM_IDENTITY) overrides"

definition swap_auth_middleware :: "string list \<Rightarrow> string \<Rightarrow> string \<Rightarrow> string list" where
  "swap_auth_middleware middleware replacement target = map (\<lambda>e. if e = target then replacement else e) middleware"

datatype envoy_mode = Resolver | Explicit | Unswapped

record envoy_spec =
  permissions :: "string list"
  username :: "string option"
  bearer :: "string option"
  mode :: envoy_mode
  spec_middleware :: "string option"
  identity :: "row option"

definition MODE_MIDDLEWARE :: "envoy_mode \<Rightarrow> string option" where
  "MODE_MIDDLEWARE m = (case m of
      Resolver \<Rightarrow> Some TEST_MIDDLEWARE_PATH | Explicit \<Rightarrow> Some EXPLICIT_MIDDLEWARE_PATH | Unswapped \<Rightarrow> None)"

record envoy_overrides =
  envoy_identity :: row
  envoy_bearer :: string
  middleware_setting :: "string list option"

text \<open>\<open>base\<close> is the middleware of the base settings, when there are base settings.\<close>

definition make_envoy_overrides :: "string list option \<Rightarrow> envoy_spec \<Rightarrow> envoy_overrides" where
  "make_envoy_overrides base spec =
    (let named = (case username spec of None \<Rightarrow> [] | Some u \<Rightarrow> [(''username'', VStr u)]);
         replacement = (case spec_middleware spec of
             Some (c # cs) \<Rightarrow> Some (c # cs) | _ \<Rightarrow> MODE_MIDDLEWARE (mode spec))
     in \<lparr>envoy_identity = (case identity spec of None \<Rightarrow> platform_test_identity (permissions spec) named | Some i \<Rightarrow> i),
         envoy_bearer = (case bearer spec of Some b \<Rightarrow> b | None \<Rightarrow>
             (case username spec of None \<Rightarrow> DEFAULT_TEST_BEARER | Some u \<Rightarrow> ''Bearer '' @ u)),
         middleware_setting = (case (base, replacement) of
             (Some ms, Some r) \<Rightarrow> Some (swap_auth_middleware ms r ENVOY_MIDDLEWARE_PATH) | _ \<Rightarrow> None)\<rparr>)"

text \<open>
  The overrides themselves. \<open>temp\<close> is what \<open>mkdtemp\<close> returns; creating a directory that is given has
  no effect on the overrides.
\<close>

datatype migrations = All_Migrations bool | App_Labels "string list"

datatype static_arg = No_Static | Temp_Static | Static_Path string

record override_args =
  arg_database :: database
  arg_engine :: string
  arg_aliases :: "string list"
  arg_alias_mirror :: bool
  arg_clear_routers :: bool
  arg_atomic_requests :: "bool option"
  arg_cache_location :: "string option"
  arg_session_backend :: "string option"
  arg_fast_hashers :: bool
  arg_disable_migrations :: migrations
  arg_static_root :: static_arg
  arg_email_locmem :: bool
  arg_celery_eager :: bool
  arg_quiet_db_logging :: bool
  arg_envoy :: "envoy_spec option"

definition CELERY_EAGER_SETTINGS :: row where
  "CELERY_EAGER_SETTINGS = [(''CELERY_TASK_ALWAYS_EAGER'', VBool True), (''CELERY_TASK_EAGER_PROPAGATES'', VBool False),
    (''CELERY_BROKER_URL'', VStr ''memory://''), (''CELERY_RESULT_BACKEND'', VStr ''cache+memory://'')]"

definition quiet_db_logging_config :: row where
  "quiet_db_logging_config = [(''version'', VInt 1), (''disable_existing_loggers'', VBool False),
    (''handlers'', as_value [(''console'', as_value [(''class'', VStr ''logging.NullHandler'')])]),
    (''loggers'', as_value [(''django.db.backends'', as_value [(''handlers'', VList [VStr ''console'']),
      (''level'', VStr ''ERROR''), (''propagate'', VBool False)])])]"

definition migration_modules :: "migrations \<Rightarrow> pyval option" where
  "migration_modules m = (case m of
      All_Migrations b \<Rightarrow> if b then Some (VObj ''DisableMigrations'' ''DisableMigrations'') else None
    | App_Labels ls \<Rightarrow> if ls = [] then None else Some (as_value (dict_update [] (map (\<lambda>l. (l, VNone)) ls))))"

definition static_root_value :: "string \<Rightarrow> static_arg \<Rightarrow> string option" where
  "static_root_value temp a = (case a of
      No_Static \<Rightarrow> None | Temp_Static \<Rightarrow> Some temp | Static_Path p \<Rightarrow> if p = [] then None else Some p)"

definition rows_value :: "(string, row) dict \<Rightarrow> pyval" where
  "rows_value d = VDict (map (\<lambda>(k, r). (VStr k, as_value r)) d)"

definition optional_entry :: "string \<Rightarrow> pyval option \<Rightarrow> row" where
  "optional_entry k v = (case v of None \<Rightarrow> [] | Some x \<Rightarrow> [(k, x)])"

definition envoy_rows :: "envoy_overrides \<Rightarrow> row" where
  "envoy_rows o' = [(''NETIX_TEST_ENVOY_IDENTITY'', as_value (envoy_identity o')),
      (''NETIX_TEST_ENVOY_BEARER'', VStr (envoy_bearer o'))] @
    optional_entry ''MIDDLEWARE'' (map_option (\<lambda>ms. VList (map VStr ms)) (middleware_setting o'))"

definition flag_rows :: "override_args \<Rightarrow> row" where
  "flag_rows a = concat (map snd (filter fst
    [(arg_clear_routers a, [(''DATABASE_ROUTERS'', VList [])]),
     (arg_fast_hashers a, [(''PASSWORD_HASHERS'', VList [VStr MD5_PASSWORD_HASHER])]),
     (arg_email_locmem a, [(''EMAIL_BACKEND'', VStr LOCMEM_EMAIL_BACKEND)]),
     (arg_celery_eager a, CELERY_EAGER_SETTINGS),
     (arg_quiet_db_logging a, [(''LOGGING'', as_value quiet_db_logging_config)])]))"

definition test_overrides :: "string list option \<Rightarrow> string \<Rightarrow> override_args \<Rightarrow> row res" where
  "test_overrides base temp a =
    (let start = [(''DATABASES'', rows_value (databases (arg_database a) (arg_engine a) (arg_aliases a)
            (arg_alias_mirror a) (arg_atomic_requests a))),
          (''CACHES'', rows_value (caches_config (arg_cache_location a)))];
         flagged = dict_update start (flag_rows a)
     in rbind (case arg_session_backend a of
          None \<Rightarrow> Inr flagged
        | Some b \<Rightarrow> (case dict_get SESSION_ENGINES b of
            None \<Rightarrow> Inl (Key_Error b)
          | Some e \<Rightarrow> Inr (dict_set ''SESSION_ENGINE'' (VStr e) flagged))) (\<lambda>session.
        Inr (dict_update session
          (optional_entry ''MIGRATION_MODULES'' (migration_modules (arg_disable_migrations a)) @
           optional_entry ''STATIC_ROOT'' (map_option VStr (static_root_value temp (arg_static_root a))) @
           (case arg_envoy a of None \<Rightarrow> [] | Some spec \<Rightarrow> envoy_rows (make_envoy_overrides base spec))))))"

text \<open>The invariant two services' settings are checked for: the ceiling clears the statement timeout.\<close>

definition assert_timeout_invariant :: "real \<Rightarrow> int \<Rightarrow> bool" where
  "assert_timeout_invariant request_timeout_seconds statement_timeout_ms \<longleftrightarrow>
    request_timeout_seconds > of_int statement_timeout_ms / 1000"

section \<open>Lemmas\<close>

lemma set_defaults_get:
  "set_defaults skipped kvs env key =
    (if key \<in> set skipped then env key
     else case env key of Some v \<Rightarrow> Some v | None \<Rightarrow> dict_get kvs key)"
  by (induction kvs arbitrary: env) (auto split: option.splits)

lemma set_forced_rev:
  "set_forced skipped kvs env key =
    (if key \<in> set skipped then env key
     else case map_of (rev kvs) key of Some v \<Rightarrow> Some v | None \<Rightarrow> env key)"
  by (induction kvs arbitrary: env) (auto simp: map_add_def split: option.splits)

lemma set_forced_get:
  "dict_ok kvs \<Longrightarrow> set_forced skipped kvs env key =
    (if key \<in> set skipped then env key
     else case dict_get kvs key of Some v \<Rightarrow> Some v | None \<Rightarrow> env key)"
  by (simp add: set_forced_rev map_of_rev_distinct dict_ok_def dict_keys_def dict_get_def)

lemma test_env_defaults_ok: "dict_ok TEST_ENV_DEFAULTS"
  by (simp add: TEST_ENV_DEFAULTS_def dict_ok_def)

lemma fold_same_value:
  "dict_get (fold (\<lambda>a. dict_set a c) as d) k = (if k \<in> set as then Some c else dict_get d k)"
  by (induction as arbitrary: d) (auto simp: dict.get_put)

section \<open>Properties\<close>

text \<open>
  The test environment never overwrites what is set unless it is forced, and never touches a
  variable that is excluded: afterwards a variable holds its forced value, else what it held
  before, else the caller's override, else the baseline, and every other variable is as it was; the
  dictionary returned says for each managed variable what the environment now holds.
\<close>

theorem test_env_precedence:
  assumes "dict_ok force" and "dict_ok overrides" and "apply_test_env force skipped overrides env = (report, env')"
  shows "env' key =
      (if key \<in> set skipped then env key
       else case dict_get force key of Some v \<Rightarrow> Some v
         | None \<Rightarrow> (case env key of Some v \<Rightarrow> Some v
           | None \<Rightarrow> (case dict_get overrides key of Some v \<Rightarrow> Some v
             | None \<Rightarrow> dict_get TEST_ENV_DEFAULTS key))) \<and>
    list_all (\<lambda>(k, v). v = env' k \<and> k \<notin> set skipped \<and> v \<noteq> None) report"
proof -
  let ?d = "dict_update TEST_ENV_DEFAULTS overrides"
  have env': "env' k = (if k \<in> set skipped then env k
       else case dict_get force k of Some v \<Rightarrow> Some v
         | None \<Rightarrow> (case env k of Some v \<Rightarrow> Some v | None \<Rightarrow> dict_get ?d k))" for k
  proof -
    have "env' = set_forced skipped force (set_defaults skipped ?d env)"
      using assms(3) by (simp add: apply_test_env_def Let_def)
    then show ?thesis by (simp add: set_forced_get [OF assms(1)] set_defaults_get split: option.split)
  qed
  have "v = env' k \<and> k \<notin> set skipped \<and> v \<noteq> None" if "(k, v) \<in> set report" for k v
  proof -
    from that assms(3) have v: "v = env' k" "k \<notin> set skipped" "k \<in> set (dict_keys (dict_update ?d force))"
      by (auto simp: apply_test_env_def Let_def)
    then have "dict_get (dict_update ?d force) k \<noteq> None" by (simp add: dict_get_None_iff)
    with v env' [of k] show ?thesis by (auto simp: dict_get_update_ok [OF assms(1)] split: option.splits)
  qed
  then show ?thesis
    using env' [of key] by (auto simp: list_all_iff dict_get_update_ok [OF assms(2)] split: option.splits)
qed

lemma test_env_precedence_witness:
  "snd (apply_test_env [(''REDIS_HOST'', ''x'')] [''DJANGO_SECRET''] [(''POSTGRES_NAME'', ''mine'')] [''REDIS_HOST'' \<mapsto> ''h''])
     ''REDIS_HOST'' = Some ''x'' \<and>
   snd (apply_test_env [(''REDIS_HOST'', ''x'')] [''DJANGO_SECRET''] [(''POSTGRES_NAME'', ''mine'')] [''REDIS_HOST'' \<mapsto> ''h''])
     ''DJANGO_SECRET'' = None"
proof -
  obtain report env' where r: "apply_test_env [(''REDIS_HOST'', ''x'')] [''DJANGO_SECRET''] [(''POSTGRES_NAME'', ''mine'')]
      [''REDIS_HOST'' \<mapsto> ''h''] = (report, env')" by force
  from test_env_precedence [OF _ _ r, of "''REDIS_HOST''"] test_env_precedence [OF _ _ r, of "''DJANGO_SECRET''"] r
  show ?thesis by (simp add: dict_ok_def)
qed

text \<open>
  Every alias of a test run is the default database: a named alias holds the default's own
  configuration, with nothing but the mirror of the default added when mirrors are asked for; no
  other alias exists but the default itself.
\<close>

theorem aliases_clone_default:
  assumes "''default'' \<notin> set aliases"
  shows "dict_get (databases db engine aliases mirror atomic) ''default'' = Some (database_config db engine atomic) \<and>
    (\<forall>a. a \<noteq> ''default'' \<longrightarrow>
      (dict_get (databases db engine aliases mirror atomic) a \<noteq> None \<longleftrightarrow> a \<in> set aliases)) \<and>
    (\<forall>a k. a \<in> set aliases \<longrightarrow> (\<exists>config. dict_get (databases db engine aliases mirror atomic) a = Some config \<and>
      (mirror \<longrightarrow> dict_get config ''TEST'' = Some (as_value [(''MIRROR'', VStr ''default'')])) \<and>
      (\<not> mirror \<or> k \<noteq> ''TEST'' \<longrightarrow> dict_get config k = dict_get (database_config db engine atomic) k)))"
proof -
  define clone where "clone = (if mirror
    then dict_set ''TEST'' (as_value [(''MIRROR'', VStr ''default'')]) (database_config db engine atomic)
    else database_config db engine atomic)"
  have get: "dict_get (databases db engine aliases mirror atomic) a =
      (if a \<in> set aliases then Some clone
       else if a = ''default'' then Some (database_config db engine atomic) else None)" for a
    by (simp add: databases_def Let_def fold_same_value clone_def)
  have clone: "mirror \<longrightarrow> dict_get clone ''TEST'' = Some (as_value [(''MIRROR'', VStr ''default'')])"
    "\<not> mirror \<or> k \<noteq> ''TEST'' \<longrightarrow> dict_get clone k = dict_get (database_config db engine atomic) k" for k
    by (simp_all add: clone_def dict.get_put)
  show ?thesis unfolding get using assms clone by simp
qed

lemma aliases_clone_default_witness:
  "\<exists>config. dict_get (databases (Sqlite_Name (VStr '':memory:'')) SQLITE_ENGINE [''replica''] True None) ''replica'' = Some config \<and>
    dict_get config ''NAME'' = Some (VStr '':memory:'')"
proof -
  have name: "dict_get (database_config (Sqlite_Name (VStr '':memory:'')) SQLITE_ENGINE None) ''NAME'' = Some (VStr '':memory:'')"
    by (simp add: database_config_def)
  have "''default'' \<notin> set [''replica'']" by simp
  note all = aliases_clone_default [OF this, THEN conjunct2, THEN conjunct2, rule_format, of "''replica''"
      "Sqlite_Name (VStr '':memory:'')" SQLITE_ENGINE True None "''NAME''"]
  have "''replica'' \<in> set [''replica'']" by simp
  from all [OF this] name show ?thesis by auto
qed

text \<open>The keys each part of the overrides may write are its own.\<close>

lemma flag_rows_keys: "map_of (rev (flag_rows a)) k \<noteq> None \<Longrightarrow>
  k \<in> {''DATABASE_ROUTERS'', ''PASSWORD_HASHERS'', ''EMAIL_BACKEND'', ''LOGGING''} \<union> set (dict_keys CELERY_EAGER_SETTINGS)"
  unfolding map_of_eq_None_iff not_not
  by (auto simp: flag_rows_def CELERY_EAGER_SETTINGS_def dict_keys_def split: if_splits)

lemma optional_entry_get: "map_of (rev (optional_entry k v)) j = (if j = k then v else None)"
  by (cases v) (auto simp: optional_entry_def)

lemma envoy_rows_get:
  "map_of (rev (envoy_rows o')) k =
    (if k = ''NETIX_TEST_ENVOY_IDENTITY'' then Some (as_value (envoy_identity o'))
     else if k = ''NETIX_TEST_ENVOY_BEARER'' then Some (VStr (envoy_bearer o'))
     else if k = ''MIDDLEWARE'' then map_option (\<lambda>ms. VList (map VStr ms)) (middleware_setting o') else None)"
  by (simp add: envoy_rows_def map_add_def optional_entry_get split: option.split)

text \<open>
  A test run swaps the guard of the base settings and nothing else of them: with an Envoy
  specification and a base, \<open>MIDDLEWARE\<close> is the base's list with every entry of the production
  middleware replaced and every other entry kept in place, unless the mode keeps production's own;
  without a specification no identity, no bearer and no middleware are overridden at all.
\<close>

theorem overrides_swap_guard_only:
  assumes "test_overrides base temp a = Inr over"
  shows "(arg_envoy a = None \<longrightarrow> dict_get over ''MIDDLEWARE'' = None \<and> dict_get over ''NETIX_TEST_ENVOY_IDENTITY'' = None \<and>
      dict_get over ''NETIX_TEST_ENVOY_BEARER'' = None) \<and>
    (\<forall>spec ms. arg_envoy a = Some spec \<longrightarrow> base = Some ms \<longrightarrow> spec_middleware spec = None \<longrightarrow>
      dict_get over ''MIDDLEWARE'' = (case MODE_MIDDLEWARE (mode spec) of
          None \<Rightarrow> None
        | Some r \<Rightarrow> Some (VList (map (\<lambda>m. VStr (if m = ENVOY_MIDDLEWARE_PATH then r else m)) ms))))"
proof -
  obtain session where session: "over = dict_update session
      (optional_entry ''MIGRATION_MODULES'' (migration_modules (arg_disable_migrations a)) @
       optional_entry ''STATIC_ROOT'' (map_option VStr (static_root_value temp (arg_static_root a))) @
       (case arg_envoy a of None \<Rightarrow> [] | Some spec \<Rightarrow> envoy_rows (make_envoy_overrides base spec)))"
    and get: "\<And>k. k \<noteq> ''SESSION_ENGINE'' \<Longrightarrow> k \<noteq> ''DATABASES'' \<Longrightarrow> k \<noteq> ''CACHES'' \<Longrightarrow>
      dict_get session k = map_of (rev (flag_rows a)) k"
    using assms
    by (auto simp: test_overrides_def Let_def res_simps dict_get_update dict.get_put split: option.splits)
  have keys: "map_of (rev (flag_rows a)) k = None"
    if "k \<in> {''MIDDLEWARE'', ''NETIX_TEST_ENVOY_IDENTITY'', ''NETIX_TEST_ENVOY_BEARER''}" for k
  proof (rule ccontr)
    assume "map_of (rev (flag_rows a)) k \<noteq> None"
    from flag_rows_keys [OF this] that show False by (auto simp: CELERY_EAGER_SETTINGS_def)
  qed
  have over: "dict_get over k = (case arg_envoy a of None \<Rightarrow> None
      | Some spec \<Rightarrow> map_of (rev (envoy_rows (make_envoy_overrides base spec))) k)"
    if "k \<in> {''MIDDLEWARE'', ''NETIX_TEST_ENVOY_IDENTITY'', ''NETIX_TEST_ENVOY_BEARER''}" for k
  proof -
    have ne: "k \<noteq> ''SESSION_ENGINE''" "k \<noteq> ''DATABASES''" "k \<noteq> ''CACHES''"
      and ne': "k \<noteq> ''MIGRATION_MODULES''" "k \<noteq> ''STATIC_ROOT''"
      using that by auto
    have none: "dict_get session k = None" using get [OF ne] keys [OF that] by simp
    show ?thesis
      by (cases "arg_envoy a")
        (simp_all add: session dict_get_update map_add_def optional_entry_get none ne' split: option.split)
  qed
  note three = over [of "''MIDDLEWARE''", OF insertI1]
    over [of "''NETIX_TEST_ENVOY_IDENTITY''", OF insertI2 [OF insertI1]]
    over [of "''NETIX_TEST_ENVOY_BEARER''", OF insertI2 [OF insertI2 [OF insertI1]]]
  show ?thesis
  proof (intro conjI impI allI)
    fix spec ms
    assume spec: "arg_envoy a = Some spec" "base = Some ms" "spec_middleware spec = None"
    have "middleware_setting (make_envoy_overrides base spec) =
        map_option (\<lambda>r. swap_auth_middleware ms r ENVOY_MIDDLEWARE_PATH) (MODE_MIDDLEWARE (mode spec))"
      using spec(2,3) by (simp add: make_envoy_overrides_def Let_def split: option.split)
    with spec(1) three(1) show "dict_get over ''MIDDLEWARE'' = (case MODE_MIDDLEWARE (mode spec) of
          None \<Rightarrow> None
        | Some r \<Rightarrow> Some (VList (map (\<lambda>m. VStr (if m = ENVOY_MIDDLEWARE_PATH then r else m)) ms)))"
      by (simp add: envoy_rows_get swap_auth_middleware_def comp_def split: option.split)
  qed (simp_all add: three)
qed

lemma overrides_swap_guard_only_witness:
  "\<exists>over. test_overrides (Some [''a'', ENVOY_MIDDLEWARE_PATH]) ''/tmp''
      \<lparr>arg_database = Sqlite_Name (VStr '':memory:''), arg_engine = SQLITE_ENGINE, arg_aliases = [], arg_alias_mirror = False,
       arg_clear_routers = True, arg_atomic_requests = None, arg_cache_location = None, arg_session_backend = None,
       arg_fast_hashers = True, arg_disable_migrations = All_Migrations False, arg_static_root = No_Static,
       arg_email_locmem = False, arg_celery_eager = False, arg_quiet_db_logging = False,
       arg_envoy = Some \<lparr>permissions = [], username = None, bearer = None, mode = Explicit, spec_middleware = None,
         identity = None\<rparr>\<rparr> = Inr over \<and>
    dict_get over ''MIDDLEWARE'' \<noteq> Some (VList [VStr ''a'', VStr ENVOY_MIDDLEWARE_PATH])"
proof -
  let ?spec = "\<lparr>permissions = [], username = None, bearer = None, mode = Explicit, spec_middleware = None, identity = None\<rparr>"
  let ?a = "\<lparr>arg_database = Sqlite_Name (VStr '':memory:''), arg_engine = SQLITE_ENGINE, arg_aliases = [], arg_alias_mirror = False,
       arg_clear_routers = True, arg_atomic_requests = None, arg_cache_location = None, arg_session_backend = None,
       arg_fast_hashers = True, arg_disable_migrations = All_Migrations False, arg_static_root = No_Static,
       arg_email_locmem = False, arg_celery_eager = False, arg_quiet_db_logging = False, arg_envoy = Some ?spec\<rparr>"
  obtain over where over: "test_overrides (Some [''a'', ENVOY_MIDDLEWARE_PATH]) ''/tmp'' ?a = Inr over"
    by (simp add: test_overrides_def Let_def)
  from overrides_swap_guard_only [OF over] have
    "dict_get over ''MIDDLEWARE'' = (case MODE_MIDDLEWARE (mode ?spec) of None \<Rightarrow> None
      | Some r \<Rightarrow> Some (VList (map (\<lambda>m. VStr (if m = ENVOY_MIDDLEWARE_PATH then r else m)) [''a'', ENVOY_MIDDLEWARE_PATH])))"
    by simp
  with over show ?thesis
    by (simp add: MODE_MIDDLEWARE_def EXPLICIT_MIDDLEWARE_PATH_def ENVOY_MIDDLEWARE_PATH_def)
qed

end
