(* ===== verification/One_Shot.thy ===== *)
theory One_Shot
  imports Deadline
begin

text \<open>
  The entry points of \<open>netix_backend/http/retry.py\<close> side by side: the loop under a deadline against
  the retrying transport it replaces, and the urllib3 policy of
  \<open>requests_session_with_retry\<close> against the shared one.
\<close>

section \<open>The requests session\<close>

text \<open>The arguments \<open>urllib3.util.retry.Retry\<close> is given; the session mounts it for both schemes.\<close>

record urllib3_retry =
  total_retries :: int
  connect_retries :: int
  read_retries :: int
  status_retries :: int
  session_backoff :: pyfloat
  status_forcelist :: "int list"
  allowed_methods :: "string list"
  raise_on_status :: bool
  respect_retry_after_header :: bool

definition session_forcelist :: "int list" where
  "session_forcelist = [408, 429, 500, 502, 503, 504]"

definition requests_session_with_retry ::
  "environ \<Rightarrow> bound_settings \<Rightarrow> int option \<Rightarrow> pyfloat option \<Rightarrow> string list \<Rightarrow> (string, urllib3_retry) dict res" where
  "requests_session_with_retry env b r f methods =
    rbind (case r of None \<Rightarrow> default_retries env b | Some n \<Rightarrow> Inr n) (\<lambda>total.
    rbind (case f of None \<Rightarrow> default_backoff env b | Some x \<Rightarrow> Inr x) (\<lambda>backoff.
      let retry = \<lparr>total_retries = total, connect_retries = total, read_retries = total, status_retries = total,
            session_backoff = backoff, status_forcelist = session_forcelist, allowed_methods = methods,
            raise_on_status = False, respect_retry_after_header = True\<rparr>
      in Inr [(''http://'', retry), (''https://'', retry)]))"

section \<open>The two loops in step\<close>

text \<open>The transport policy a deadlined request stands for.\<close>

definition policy_of :: "deadline_args \<Rightarrow> retry_policy" where
  "policy_of a = \<lparr>retries = d_retries a, backoff_factor = d_backoff a,
    retry_non_idempotent = d_retry_non_idempotent a, max_retry_after = MAX_RETRY_AFTER_SECONDS\<rparr>"

text \<open>What the deadline loop makes of the transport's answer: an exhausted error gives way to the last response.\<close>

definition prefer_response ::
  "deadline_args \<Rightarrow> ('a http_response_scheme) world \<Rightarrow> exc + 'a http_response_scheme \<Rightarrow> exc + 'a http_response_scheme" where
  "prefer_response a w out =
    (case out of
      Inr r \<Rightarrow> Inr r
    | Inl e \<Rightarrow> if retryable_exc e then deadline_result a (last_response w (Suc (nat (d_retries a)))) (Some e) else Inl e)"

definition time_left :: "deadline_args \<Rightarrow> readings \<Rightarrow> bool" where
  "time_left a t \<longleftrightarrow> (\<forall>k. before t k < end_time a t \<and> after t k < end_time a t)"

lemma retried_policy_of: "retried (policy_of a) (d_method a) out = deadline_retried a out"
  by (simp add: retried_def deadline_retried_def should_retry_def policy_of_def split: sum.split)

text \<open>One turn of the transport, by the same two conditions as a round of the deadline loop.\<close>

lemma transport_turn:
  assumes "sane_policy (policy_of a) w" and "no_nan_header w"
  shows "fst (retry_loop (policy_of a) (d_method a) sync_sleep w k) =
    (if deadline_retried a (send w k) \<and> int k < d_retries a
     then fst (retry_loop (policy_of a) (d_method a) sync_sleep w (Suc k)) else send w k)"
proof (cases "turn_stop (policy_of a) (d_method a) sync_sleep w k")
  case (Some r)
  from turn_stops_with_outcome [OF assms accepts_delays_sleeps(1) Some]
  have "r = send w k" "deadline_retried a (send w k) \<longrightarrow> d_retries a \<le> int k"
    by (simp_all add: retried_policy_of) (simp add: policy_of_def)
  with transport.run_stop [OF Some] show ?thesis by (auto simp: not_le)
next
  case None
  from turn_goes_on [OF None] have "deadline_retried a (send w k)" "int k < d_retries a"
    by (simp_all add: retried_policy_of) (simp add: policy_of_def)
  with transport.run_next [OF None] show ?thesis by simp
qed

lemma deadline_turn:
  assumes "sane_deadline a w" and "time_left a t" and "int k \<le> d_retries a"
  shows "fst (deadline_loop a t w k lr le) =
    (if \<not> deadline_retried a (send w k) then send w k
     else if int k < d_retries a
     then fst (deadline_loop a t w (Suc k) (add_response (send w k) lr) (add_error (send w k) le))
     else deadline_result a (add_response (send w k) lr) (add_error (send w k) le))"
proof -
  have "sync_sleep (round_pause a t w k) = None"
    using sane_pause_sleeps [OF assms(1)] assms(2) by (simp add: time_left_def)
  then have go: "round_goes_on a t w k \<longleftrightarrow> int k < d_retries a \<and> deadline_retried a (send w k)"
    using assms(2) by (auto simp: round_goes_on_def time_left_def)
  have "\<not> (d_retries a < int k \<or> end_time a t \<le> before t k)" "\<not> end_time a t \<le> after t k"
    using assms(2,3) by (auto simp: time_left_def not_le)
  with go assms(3) show ?thesis
    by (cases "round_goes_on a t w k") (auto simp: deadline_loop_step deadline_loop_end split_def Let_def)
qed

lemma loops_agree:
  assumes "sane_deadline a w" and "sane_policy (policy_of a) w" and "no_nan_header w" and "time_left a t"
    and "int k \<le> d_retries a" and "lr = last_response w k"
  shows "fst (deadline_loop a t w k lr le) =
    prefer_response a w (fst (retry_loop (policy_of a) (d_method a) sync_sleep w k))"
  using assms(5,6)
proof (induction "nat (d_retries a) - k" arbitrary: k lr le)
  case 0
  then have k: "nat (d_retries a) = k" "\<not> int k < d_retries a" by auto
  have t: "fst (retry_loop (policy_of a) (d_method a) sync_sleep w k) = send w k"
    using k(2) by (simp add: transport_turn [OF assms(2,3), of k])
  have d: "fst (deadline_loop a t w k lr le) = (if \<not> deadline_retried a (send w k) then send w k
      else deadline_result a (last_response w (Suc k)) (add_error (send w k) le))"
    using k(2) 0(3) by (simp add: deadline_turn [OF assms(1,4) 0(2)])
  show ?case
  proof (cases "send w k")
    case (Inl e)
    then show ?thesis
      unfolding t d prefer_response_def k(1) by (simp add: deadline_retried_def add_error_def)
  next
    case (Inr r)
    then show ?thesis
      unfolding t d prefer_response_def by (simp add: add_response_def deadline_result_def)
  qed
next
  case (Suc d)
  then have k: "int k < d_retries a" and next_k: "d = nat (d_retries a) - Suc k" "int (Suc k) \<le> d_retries a" by auto
  have le: "int k \<le> d_retries a" using k by simp
  show ?case
  proof (cases "deadline_retried a (send w k)")
    case True
    have "add_response (send w k) lr = last_response w (Suc k)" using Suc.prems(2) by simp
    from Suc.hyps(1) [OF next_k this] True k show ?thesis
      by (simp add: deadline_turn [OF assms(1,4) le] transport_turn [OF assms(2,3), of k])
  next
    case False
    then show ?thesis
      by (auto simp: deadline_turn [OF assms(1,4) le] transport_turn [OF assms(2,3), of k] prefer_response_def
          deadline_retried_def split: sum.splits)
  qed
qed

section \<open>Properties\<close>

text \<open>
  C23. A deadline that is never near changes one thing only: with a sane policy, headers that spell
  no NaN and time left at every reading, a request under a deadline answers what the same request
  answers through the retrying transport, except that when the transport raises the retryable error
  of its last attempt after an earlier attempt was answered, the last answer is returned instead.
\<close>

theorem deadline_agrees_with_transport:
  assumes "r_deadline a = None" and "r_retries a = Some n" and "r_backoff a = Some f" and "0 \<le> n"
    and "d = \<lparr>d_method = r_method a, d_timeout = r_timeout a, d_deadline = limit, d_retries = n,
        d_backoff = f, d_retry_non_idempotent = r_retry_non_idempotent a\<rparr>"
    and "sane_deadline d w" and "no_nan_header w" and "time_left d t"
  shows "request_with_retry env b (a\<lparr>r_deadline := Some limit\<rparr>) t w =
    (case request_with_retry env b a t w of
      Inr r \<Rightarrow> Inr r
    | Inl e \<Rightarrow>
        if retryable_exc e
        then (case last_response w (Suc (nat n)) of Some r \<Rightarrow> Inr r | None \<Rightarrow> Inl e)
        else Inl e)"
proof -
  have p: "sane_policy (policy_of d) w"
    using assms(6) by (auto simp: sane_policy_def sane_deadline_def policy_of_def MAX_RETRY_AFTER_SECONDS_def)
  have n: "d_retries d = n" "int 0 \<le> d_retries d" using assms(4,5) by simp_all
  have "request_with_retry env b (a\<lparr>r_deadline := Some limit\<rparr>) t w = fst (deadline_loop d t w 0 None None)"
    using assms(2,3,5) by (simp add: request_with_retry_def request_within_deadline_def)
  also have "\<dots> = prefer_response d w (fst (retry_loop (policy_of d) (d_method d) sync_sleep w 0))"
    by (rule loops_agree [OF assms(6) p assms(7,8) n(2)]) simp
  also have "retry_loop (policy_of d) (d_method d) sync_sleep w 0 = send_with_retries (policy_of d) (r_method a) w"
    using assms(5) by (simp add: send_with_retries_def)
  also have "fst \<dots> = request_with_retry env b a t w"
    using assms(1,2,3,5) by (simp add: request_with_retry_def policy_of_def)
  finally show ?thesis
    by (simp add: prefer_response_def deadline_result_def n(1) split: sum.split option.split)
qed

abbreviation one_shot_get :: request_args where
  "one_shot_get \<equiv> \<lparr>r_method = ''GET'', r_timeout = Seconds 5, r_retries = Some 2,
    r_backoff = Some DEFAULT_BACKOFF_FACTOR, r_retry_non_idempotent = False, r_deadline = None\<rparr>"

abbreviation quick_readings :: readings where
  "quick_readings \<equiv> \<lparr>started = 0, before = (\<lambda>k. 0), after = (\<lambda>k. 0)\<rparr>"

text \<open>The flapping world answers 503 once and then resets the connection: the two entry points differ.\<close>

lemma deadline_agrees_with_transport_witness:
  "\<forall>env b. \<exists>e r. request_with_retry env b one_shot_get quick_readings flapping_world = Inl e \<and>
    request_with_retry env b (one_shot_get\<lparr>r_deadline := Some 60\<rparr>) quick_readings flapping_world = Inr r"
proof (intro allI)
  fix env b
  let ?d = "\<lparr>d_method = ''GET'', d_timeout = Seconds 5, d_deadline = 60, d_retries = 2,
    d_backoff = DEFAULT_BACKOFF_FACTOR, d_retry_non_idempotent = False\<rparr>"
  have sane: "sane_deadline ?d flapping_world" "no_nan_header flapping_world" "time_left ?d quick_readings"
    by (auto simp: sane_deadline_def DEFAULT_BACKOFF_FACTOR_def no_nan_header_def time_left_def end_time_def
        intro: exI [of _ "1 / 2"])
  have p: "sane_policy (policy_of ?d) flapping_world"
    by (auto simp: sane_policy_def policy_of_def MAX_RETRY_AFTER_SECONDS_def DEFAULT_BACKOFF_FACTOR_def
        intro: exI [of _ "1 / 2"])
  have retried: "deadline_retried ?d (send flapping_world k)" for k
    by (simp add: deadline_retried_def should_retry_status_def is_retryable_status_def
        is_idempotent_method_def IDEMPOTENT_METHODS_def text_eval)
  define f where "f k = fst (retry_loop (policy_of ?d) (d_method ?d) sync_sleep flapping_world k)" for k
  have "f k = (if int k < 2 then f (Suc k) else send flapping_world k)" for k
    using transport_turn [OF p sane(2), of k] retried [of k] unfolding f_def by simp
  from this [of 0] this [of 1] this [of 2] have "f 0 = send flapping_world 2"
    by (simp add: numeral_2_eq_2)
  then have "fst (retry_loop (policy_of ?d) ''GET'' sync_sleep flapping_world 0) = send flapping_world 2"
    unfolding f_def by simp
  then have t: "request_with_retry env b one_shot_get quick_readings flapping_world = Inl (Network_Error ''reset'')"
    by (simp add: request_with_retry_def send_with_retries_def policy_of_def)
  have "last_response flapping_world (Suc (nat 2)) \<noteq> None"
    by (simp add: numeral_2_eq_2 add_response_def)
  with deadline_agrees_with_transport [OF _ _ _ _ refl, of one_shot_get 2 DEFAULT_BACKOFF_FACTOR 60 flapping_world
      quick_readings env b] sane t
  show "\<exists>e r. request_with_retry env b one_shot_get quick_readings flapping_world = Inl e \<and>
    request_with_retry env b (one_shot_get\<lparr>r_deadline := Some 60\<rparr>) quick_readings flapping_world = Inr r" by auto
qed

text \<open>
  The requests session retries less than the shared policy: every status it retries is one the
  transports retry, its default methods are the transports' idempotent ones and it carries the same
  budget in every counter, but a 501 or a 505 is retried by the transports and not by the session.
\<close>

theorem session_retries_fewer_statuses:
  "(case requests_session_with_retry env b (Some n) (Some f) IDEMPOTENT_METHODS of
      Inl e \<Rightarrow> False
    | Inr mounts \<Rightarrow> dict_keys mounts = [''http://'', ''https://''] \<and>
        list_all (\<lambda>(prefix, rt). total_retries rt = n \<and> connect_retries rt = n \<and> read_retries rt = n \<and> status_retries rt = n \<and>
          session_backoff rt = f \<and>
          list_all (\<lambda>s. list_all (\<lambda>m. should_retry_status m s False) (allowed_methods rt)) (status_forcelist rt) \<and>
          501 \<notin> set (status_forcelist rt) \<and> 505 \<notin> set (status_forcelist rt)) mounts) \<and>
   should_retry_status ''GET'' 501 False \<and> should_retry_status ''GET'' 505 False"
proof -
  have u: "upper ''GET'' = ''GET''" "upper ''HEAD'' = ''HEAD''" "upper ''OPTIONS'' = ''OPTIONS''" by code_simp+
  show ?thesis
    by (simp add: requests_session_with_retry_def session_forcelist_def should_retry_status_def is_retryable_status_def
        RETRYABLE_STATUS_def is_idempotent_method_def IDEMPOTENT_METHODS_def u Let_def)
qed

end
