(* ===== verification/Async_Schema.thy ===== *)
theory Async_Schema
  imports Prelude Py_Text
begin

text \<open>
  \<open>netix_backend/django/schema.py\<close>: the OpenAPI schema class of asynchronous viewsets. The view is a
  record of what the class reads of it; the methods of drf-spectacular's \<open>AutoSchema\<close> that the code
  calls through \<open>super()\<close> are arguments. Reading a closure cell may raise, which the code catches.
\<close>

section \<open>Views\<close>

text \<open>A parameter is known by its name.\<close>

type_synonym params = "string list"

datatype closure_cell = Cell_Sequence params | Cell_Other | Cell_Raises

datatype schema_override =
    No_Override
  | Mapping_Override "params option"
    \<comment> \<open>its \<open>parameters\<close>, if it has them\<close>
  | Class_Override "closure_cell list option"
    \<comment> \<open>the closure of its \<open>get_override_parameters\<close>, if it has one\<close>
  | Other_Override

record view_method =
  decoration :: "schema_override option"
    \<comment> \<open>\<open>None\<close> when the method carries no \<open>kwargs\<close>\<close>
  docstring :: string

record view =
  action :: "string option"
  action_map :: "(string, string) dict option"
  http_method :: string
  methods :: "string \<Rightarrow> view_method option"

section \<open>Actions\<close>

definition ASYNC_ACTION_MAP :: "(string, string) dict" where
  "ASYNC_ACTION_MAP = [(''alist'', ''list''), (''aretrieve'', ''retrieve''), (''acreate'', ''create''),
    (''aupdate'', ''update''), (''apartial_update'', ''partial_update''), (''adestroy'', ''destroy'')]"

definition LIST_ACTION_NAMES :: "string list" where "LIST_ACTION_NAMES = [''list'', ''alist'']"

definition get_action :: "view \<Rightarrow> string option" where
  "get_action v =
    (case action v of
      Some a \<Rightarrow> Some a
    | None \<Rightarrow> (case action_map v of None \<Rightarrow> None | Some m \<Rightarrow> dict_get m (lower (http_method v))))"

definition get_normalized_action :: "view \<Rightarrow> string option" where
  "get_normalized_action v =
    (case get_action v of None \<Rightarrow> None | Some a \<Rightarrow> Some (the_default a (dict_get ASYNC_ACTION_MAP a)))"

definition async_is_list_view :: "bool \<Rightarrow> view \<Rightarrow> bool" where
  "async_is_list_view parent v =
    (case get_action v of Some a \<Rightarrow> if a \<in> set LIST_ACTION_NAMES then True else parent | None \<Rightarrow> parent)"

text \<open>The export schema: with a serializer it is never a list view; \<open>parent\<close> is \<open>AutoSchema\<close>'s own answer.\<close>

definition xlsx_is_list_view :: "bool \<Rightarrow> bool \<Rightarrow> view \<Rightarrow> bool" where
  "xlsx_is_list_view has_serializer parent v = (if has_serializer then False else async_is_list_view parent v)"

section \<open>The operation identifier\<close>

text \<open>The view is mutated around the parent's call and put back whether it returns or raises.\<close>

definition get_operation_id :: "(view \<Rightarrow> string res) \<Rightarrow> view \<Rightarrow> string res \<times> view" where
  "get_operation_id parent v =
    (let original = action v; normalized = get_normalized_action v in
     case normalized of
       None \<Rightarrow> (parent v, v)
     | Some n \<Rightarrow>
         if n \<noteq> [] \<and> original \<noteq> Some n
         then (let v' = v\<lparr>action := Some n\<rparr> in (parent v', v'\<lparr>action := original\<rparr>))
         else (parent v, v))"

section \<open>Decorated twins\<close>

text \<open>The two names looked at after the action's own: the asynchronous one, then the synchronous one.\<close>

definition alternative_actions :: "string \<Rightarrow> string list" where
  "alternative_actions a =
    (if starts_with ''a'' a then [] else [CHR ''a'' # a]) @
    (case dict_get ASYNC_ACTION_MAP a of None \<Rightarrow> [] | Some s \<Rightarrow> if s = [] then [] else [s])"

fun closure_params :: "closure_cell list \<Rightarrow> params option" where
  "closure_params [] = None"
| "closure_params (Cell_Sequence ps # cs) = (if ps \<noteq> [] then Some ps else closure_params cs)"
| "closure_params (Cell_Other # cs) = closure_params cs"
| "closure_params (Cell_Raises # cs) = None"

definition extract_params :: "schema_override \<Rightarrow> params option" where
  "extract_params so =
    (case so of
      No_Override \<Rightarrow> None
    | Mapping_Override ps \<Rightarrow> (case ps of Some (p # rest) \<Rightarrow> Some (p # rest) | _ \<Rightarrow> None)
    | Class_Override cells \<Rightarrow> (case cells of None \<Rightarrow> None | Some cs \<Rightarrow> closure_params cs)
    | Other_Override \<Rightarrow> None)"

fun first_params :: "view \<Rightarrow> string list \<Rightarrow> params option" where
  "first_params v [] = None"
| "first_params v (a # as) =
    (case methods v a of
      None \<Rightarrow> first_params v as
    | Some m \<Rightarrow> (case decoration m of
        None \<Rightarrow> first_params v as
      | Some so \<Rightarrow> (case extract_params so of Some ps \<Rightarrow> Some ps | None \<Rightarrow> first_params v as)))"

definition get_override_parameters :: "params \<Rightarrow> view \<Rightarrow> params" where
  "get_override_parameters parent v =
    (if parent \<noteq> [] then parent
     else case get_action v of
       None \<Rightarrow> parent
     | Some a \<Rightarrow> the_default parent (first_params v (alternative_actions a)))"

fun first_docstring :: "view \<Rightarrow> string list \<Rightarrow> string" where
  "first_docstring v [] = []"
| "first_docstring v (a # as) =
    (case methods v a of
      None \<Rightarrow> first_docstring v as
    | Some m \<Rightarrow> if docstring m \<noteq> [] then docstring m else first_docstring v as)"

definition get_description :: "string \<Rightarrow> view \<Rightarrow> string" where
  "get_description parent v =
    (if parent \<noteq> [] then parent
     else case get_action v of
       None \<Rightarrow> []
     | Some a \<Rightarrow> if a = [] then [] else first_docstring v (alternative_actions a))"

section \<open>Lemmas\<close>

lemma async_action_map_range: "dict_get ASYNC_ACTION_MAP a = Some s \<Longrightarrow> s \<noteq> [] \<and> dict_get ASYNC_ACTION_MAP s = None \<and> a = CHR ''a'' # s"
  by (auto simp: ASYNC_ACTION_MAP_def split: if_splits)

lemma normalized_fixed:
  "get_normalized_action v = Some n \<Longrightarrow> get_normalized_action (v\<lparr>action := Some n\<rparr>) = Some n"
  using async_action_map_range
  by (cases "dict_get ASYNC_ACTION_MAP (the (get_action v))")
    (fastforce simp: get_normalized_action_def get_action_def split: option.splits)+

lemma standard_twins:
  "list_all (\<lambda>(a, s). alternative_actions s = [a] \<and> alternative_actions a = [s]) ASYNC_ACTION_MAP"
  by code_simp

lemma first_params_Some:
  "first_params v as = Some ps \<Longrightarrow> ps \<noteq> [] \<and> (\<exists>a \<in> set as. \<exists>m so. methods v a = Some m \<and> decoration m = Some so \<and> extract_params so = Some ps)"
proof (induction as)
  case (Cons a as)
  have "extract_params so = Some ps \<Longrightarrow> ps \<noteq> []" for so
  proof -
    have "closure_params cs = Some ps \<Longrightarrow> ps \<noteq> []" for cs
      by (induction cs rule: closure_params.induct) (auto split: if_splits)
    then show "extract_params so = Some ps \<Longrightarrow> ps \<noteq> []"
      by (auto simp: extract_params_def split: schema_override.splits option.splits list.splits)
  qed
  with Cons show ?case by (auto split: option.splits)
qed simp

section \<open>Properties\<close>

text \<open>
  The operation identifier does not depend on the view being asynchronous and leaves the view as it
  was: the parent sees the synchronous name of the action, so a view bound to \<open>alist\<close> and one bound to
  \<open>list\<close> publish the same identifier, and the view's own action is back afterwards even when the
  parent raises.
\<close>

theorem operation_id_of_sync_twin:
  "snd (get_operation_id parent v) = v \<and>
   (\<forall>n. get_normalized_action v = Some n \<longrightarrow> n \<noteq> [] \<longrightarrow>
      fst (get_operation_id parent v) = parent (v\<lparr>action := Some n\<rparr>) \<and>
      fst (get_operation_id parent (v\<lparr>action := Some n\<rparr>)) = fst (get_operation_id parent v))"
proof (intro conjI allI impI)
  show "snd (get_operation_id parent v) = v"
    by (simp add: get_operation_id_def Let_def split: option.split)
  fix n assume n: "get_normalized_action v = Some n" "n \<noteq> []"
  then show id: "fst (get_operation_id parent v) = parent (v\<lparr>action := Some n\<rparr>)"
    by (cases v; cases "action v = Some n") (simp_all add: get_operation_id_def Let_def)
  from normalized_fixed [OF n(1)] n(2)
  have "fst (get_operation_id parent (v\<lparr>action := Some n\<rparr>)) = parent (v\<lparr>action := Some n\<rparr>)"
    by (simp add: get_operation_id_def Let_def)
  with id show "fst (get_operation_id parent (v\<lparr>action := Some n\<rparr>)) = fst (get_operation_id parent v)" by simp
qed

lemma operation_id_of_sync_twin_witness:
  "fst (get_operation_id (\<lambda>v. Inr (the (action v)))
    \<lparr>action = Some ''alist'', action_map = None, http_method = ''GET'', methods = (\<lambda>a. None)\<rparr>) = Inr ''list''"
  using operation_id_of_sync_twin [of "\<lambda>v. Inr (the (action v))"
    "\<lparr>action = Some ''alist'', action_map = None, http_method = ''GET'', methods = (\<lambda>a. None)\<rparr>"]
  by (simp add: get_normalized_action_def get_action_def ASYNC_ACTION_MAP_def)

text \<open>
  Parameters are found on the twin of a standard action and on no other: a synchronous CRUD action
  without parameters of its own takes those its asynchronous method was decorated with, an
  asynchronous one those of the synchronous method; but a custom action whose name begins with the
  letter a never consults its asynchronous method, whatever that was decorated with.
\<close>

theorem twin_parameters:
  "(\<forall>a s. (a, s) \<in> set ASYNC_ACTION_MAP \<longrightarrow> alternative_actions s = [a] \<and> alternative_actions a = [s]) \<and>
   (\<forall>a. get_action v = Some a \<longrightarrow> starts_with ''a'' a \<longrightarrow> dict_get ASYNC_ACTION_MAP a = None \<longrightarrow>
      get_override_parameters parent v = parent \<and> get_description d v = d) \<and>
   (get_override_parameters parent v \<noteq> parent \<longrightarrow> parent = [] \<and>
      (\<exists>a alt m so. get_action v = Some a \<and> alt \<in> set (alternative_actions a) \<and> methods v alt = Some m \<and>
        decoration m = Some so \<and> extract_params so = Some (get_override_parameters parent v)))"
proof (intro conjI allI impI)
  fix a s assume "(a, s) \<in> set ASYNC_ACTION_MAP"
  with standard_twins show "alternative_actions s = [a]" "alternative_actions a = [s]"
    by (auto simp: list_all_iff)
next
  fix a assume a: "get_action v = Some a" "starts_with ''a'' a" "dict_get ASYNC_ACTION_MAP a = None"
  then have "alternative_actions a = []" by (simp add: alternative_actions_def)
  with a show "get_override_parameters parent v = parent" "get_description d v = d"
    by (simp_all add: get_override_parameters_def get_description_def)
next
  assume ne: "get_override_parameters parent v \<noteq> parent"
  then obtain a ps where a: "parent = []" "get_action v = Some a" "first_params v (alternative_actions a) = Some ps"
    by (auto simp: get_override_parameters_def split: if_splits option.splits)
      (metis option.exhaust the_default.simps(1))
  then have "get_override_parameters parent v = ps" by (simp add: get_override_parameters_def)
  with a first_params_Some [OF a(3)] show "parent = []"
    "\<exists>a alt m so. get_action v = Some a \<and> alt \<in> set (alternative_actions a) \<and> methods v alt = Some m \<and>
      decoration m = Some so \<and> extract_params so = Some (get_override_parameters parent v)" by auto
qed

lemma twin_parameters_witness:
  "get_override_parameters []
    \<lparr>action = Some ''archive'', action_map = None, http_method = ''POST'',
     methods = (\<lambda>a. Some \<lparr>decoration = Some (Mapping_Override (Some [''force''])), docstring = ''doc''\<rparr>)\<rparr> = []"
proof -
  let ?v = "\<lparr>action = Some ''archive'', action_map = None, http_method = ''POST'',
     methods = (\<lambda>a. Some \<lparr>decoration = Some (Mapping_Override (Some [''force''])), docstring = ''doc''\<rparr>)\<rparr>"
  have "get_action ?v = Some ''archive''" "starts_with ''a'' ''archive''" "dict_get ASYNC_ACTION_MAP ''archive'' = None"
    by (simp_all add: get_action_def starts_with_def ASYNC_ACTION_MAP_def)
  with twin_parameters [of ?v "[]" "[]"] show ?thesis by blast
qed

end
