(* ===== verification/Test_Doubles.thy ===== *)
theory Test_Doubles
  imports Test_Settings
begin

text \<open>
  The test doubles the package ships: \<open>netix_backend/django/testing.py\<close> (the HTTP block, the identity
  patches, the response stub), \<open>testing_middleware.py\<close> (the test-only authorization middleware) and
  the server double of \<open>asgi/testing.py\<close>. envoy-pyauth's own functions are arguments; what a test
  patches is an explicit part of the state, restored by the code's own context managers.
\<close>

section \<open>Configured identities\<close>

definition DEFAULT_ENVOY_IDENTITY :: row where
  "DEFAULT_ENVOY_IDENTITY = [(''organization'', VInt 0), (''is_superuser'', VBool True), (''permissions'', VList [])]"

text \<open>\<open>list(v)\<close> of a permissions value: the items of a list, tuple or set.\<close>

definition listed :: "pyval \<Rightarrow> pyval" where
  "listed v = (case v of VTuple xs \<Rightarrow> VList xs | VSet xs \<Rightarrow> VList xs | _ \<Rightarrow> v)"

text \<open>\<open>setting\<close> is the mapping in the settings, when there is one.\<close>

definition configured_identity :: "row option \<Rightarrow> row" where
  "configured_identity setting =
    (let ident = (case setting of Some (p # ps) \<Rightarrow> p # ps | _ \<Rightarrow> DEFAULT_ENVOY_IDENTITY)
     in dict_set ''permissions''
          (case dict_get ident ''permissions'' of None \<Rightarrow> VList [] | Some v \<Rightarrow> listed v) ident)"

definition configured_bearer :: "pyval option \<Rightarrow> string" where
  "configured_bearer setting = (case setting of None \<Rightarrow> DEFAULT_TEST_BEARER | Some v \<Rightarrow> py_str v)"

definition configured_header_guard :: "pyval option \<Rightarrow> bool" where
  "configured_header_guard setting = (case setting of None \<Rightarrow> True | Some v \<Rightarrow> truthy v)"

record test_auth_settings =
  identity_setting :: "row option"
  bearer_setting :: "pyval option"
  guard_setting :: "pyval option"

section \<open>The test-only authorization middleware\<close>

text \<open>
  A request is its authorization header and the identity attached to it. envoy-pyauth's
  \<open>process_view\<close> is an argument over the resolver in force, which the code patches for one call.
\<close>

record test_request =
  authorization_header :: "string option"
  envoy :: "row option"

type_synonym resolver = "string \<Rightarrow> row res"

type_synonym 'r process_view = "resolver \<Rightarrow> test_request \<Rightarrow> 'r res \<times> test_request"

definition envoy_test_process_view ::
  "bool \<Rightarrow> test_auth_settings \<Rightarrow> 'r process_view \<Rightarrow> test_request \<Rightarrow> resolver \<Rightarrow> ('r res \<times> test_request) \<times> resolver" where
  "envoy_test_process_view header_guard st parent r current =
    (if header_guard \<and> configured_header_guard (guard_setting st)
        \<and> (case authorization_header r of None \<Rightarrow> False | Some h \<Rightarrow> h \<noteq> [])
     then (parent current r, current)
     else
       let r' = r\<lparr>authorization_header := Some (configured_bearer (bearer_setting st))\<rparr>;
           patched = (\<lambda>header. Inr (configured_identity (identity_setting st)))
       in (parent patched r', current))"

definition explicit_process_view :: "test_auth_settings \<Rightarrow> test_request \<Rightarrow> test_request" where
  "explicit_process_view st r = r\<lparr>envoy := Some (configured_identity (identity_setting st))\<rparr>"

section \<open>Identity patches\<close>

text \<open>A query function of envoy-pyauth takes the request, if there is one.\<close>

definition explicit_request :: "row \<Rightarrow> test_request option \<Rightarrow> test_request" where
  "explicit_request ident r =
    (case r of
      None \<Rightarrow> \<lparr>authorization_header = None, envoy = Some ident\<rparr>
    | Some q \<Rightarrow> if envoy q = None then \<lparr>authorization_header = None, envoy = Some ident\<rparr> else q)"

definition patched_queryset :: "row \<Rightarrow> (test_request \<Rightarrow> 'q) \<Rightarrow> test_request option \<Rightarrow> 'q" where
  "patched_queryset ident original r = original (explicit_request ident r)"

section \<open>The HTTP block\<close>

definition http_permitted :: "string list \<Rightarrow> string \<Rightarrow> bool" where
  "http_permitted allow url \<longleftrightarrow> list_ex (\<lambda>pattern. contains pattern url) allow"

definition unmocked_message :: "string \<Rightarrow> string \<Rightarrow> string \<Rightarrow> string" where
  "unmocked_message kind http_verb url =
    ''Unmocked '' @ kind @ ''HTTP call in tests: '' @ http_verb @ '' '' @ url @
    ''. Patch the service method, install an httpx MockTransport, or pass allow=(...) to block_http().''"

text \<open>\<open>deliver\<close> is the transport's own answer; the second component says whether it was called.\<close>

definition blocked_request :: "string list \<Rightarrow> string \<Rightarrow> (string \<Rightarrow> string \<Rightarrow> 'r res) \<Rightarrow> string \<Rightarrow> string \<Rightarrow> 'r res \<times> bool" where
  "blocked_request allow kind deliver http_verb url =
    (if http_permitted allow url then (deliver http_verb url, True)
     else (Inl (Runtime_Error (unmocked_message kind http_verb url)), False))"

section \<open>The response stub\<close>

record 'a client_response_stub =
  stub_status :: int
  stub_results :: "'a list"
  stub_count :: nat

definition client_response :: "int \<Rightarrow> 'a list option \<Rightarrow> nat option \<Rightarrow> 'a client_response_stub" where
  "client_response status results count =
    (let rows = the_default [] results
     in \<lparr>stub_status = status, stub_results = rows, stub_count = the_default (length rows) count\<rparr>)"

section \<open>The server double\<close>

text \<open>uvicorn's cycle of one request: an event that wakes a pending receive, and whether the response is complete.\<close>

record server_cycle =
  message_event :: bool
  response_complete :: bool
  statuses :: "int list"

definition new_cycle :: server_cycle where
  "new_cycle = \<lparr>message_event = True, response_complete = False, statuses = []\<rparr>"

datatype cycle_message = Http_Request | Http_Disconnect

datatype sent_message = Start_Message int | Body_Message bool
  \<comment> \<open>the body says whether more follows\<close>

text \<open>\<open>None\<close> while the receive is pending.\<close>

definition cycle_receive :: "server_cycle \<Rightarrow> (cycle_message \<times> server_cycle) option" where
  "cycle_receive c =
    (if response_complete c then Some (Http_Disconnect, c)
     else if message_event c then Some (Http_Request, c\<lparr>message_event := False\<rparr>)
     else None)"

definition cycle_send :: "sent_message \<Rightarrow> server_cycle \<Rightarrow> server_cycle" where
  "cycle_send m c =
    (case m of
      Start_Message status \<Rightarrow> c\<lparr>statuses := statuses c @ [status]\<rparr>
    | Body_Message more_body \<Rightarrow> if more_body then c else c\<lparr>response_complete := True, message_event := True\<rparr>)"

text \<open>A client that hangs up: its second receive is the disconnect.\<close>

record hang_up_cycle = server_cycle +
  requested :: bool

definition hang_up_receive :: "hang_up_cycle \<Rightarrow> cycle_message \<times> hang_up_cycle" where
  "hang_up_receive c = (if \<not> requested c then (Http_Request, c\<lparr>requested := True\<rparr>) else (Http_Disconnect, c))"

text \<open>What the application does with the cycle, and what it was given.\<close>

datatype cycle_event = Receive | Send_Message sent_message

fun cycle_run :: "cycle_event list \<Rightarrow> server_cycle \<Rightarrow> (cycle_message list \<times> server_cycle) option" where
  "cycle_run [] c = Some ([], c)"
| "cycle_run (Receive # es) c =
    (case cycle_receive c of
      None \<Rightarrow> None
    | Some (m, c') \<Rightarrow> map_option (\<lambda>(ms, c''). (m # ms, c'')) (cycle_run es c'))"
| "cycle_run (Send_Message m # es) c = cycle_run es (cycle_send m c)"

section \<open>Lemmas\<close>

definition ends_response :: "cycle_event \<Rightarrow> bool" where
  "ends_response e \<longleftrightarrow> e = Send_Message (Body_Message False)"

lemma cycle_run_complete:
  "response_complete c \<Longrightarrow> \<exists>ms c'. cycle_run es c = Some (ms, c') \<and> set ms \<subseteq> {Http_Disconnect} \<and> response_complete c'
    \<and> length ms = count_list es Receive"
proof (induction es arbitrary: c)
  case (Cons e es)
  show ?case
  proof (cases e)
    case Receive
    with Cons.IH [OF Cons.prems] Cons.prems show ?thesis by (auto simp: cycle_receive_def)
  next
    case (Send_Message m)
    have "response_complete (cycle_send m c)"
      using Cons.prems by (auto simp: cycle_send_def split: sent_message.split)
    from Cons.IH [OF this] Send_Message show ?thesis by simp
  qed
qed simp

text \<open>Before the response is complete there is one request to receive, then the receive waits.\<close>

lemma cycle_run_open:
  assumes "\<not> response_complete c"
  shows "case cycle_run es c of
      None \<Rightarrow> True
    | Some (ms, c') \<Rightarrow> (if message_event c \<and> ms \<noteq> [] \<and> hd ms = Http_Request then set (tl ms) \<subseteq> {Http_Disconnect} else set ms \<subseteq> {Http_Disconnect})
        \<and> (response_complete c' \<longleftrightarrow> (\<exists>e \<in> set es. ends_response e))
        \<and> (Http_Disconnect \<in> set ms \<longrightarrow> (\<exists>e \<in> set es. ends_response e))"
  using assms
proof (induction es arbitrary: c)
  case Nil
  then show ?case by simp
next
  case (Cons e es)
  show ?case
  proof (cases e)
    case Receive
    show ?thesis
    proof (cases "message_event c")
      case True
      let ?c = "c\<lparr>message_event := False\<rparr>"
      have "cycle_receive c = Some (Http_Request, ?c)" using True Cons.prems by (simp add: cycle_receive_def)
      with Cons.IH [of ?c] Cons.prems Receive True show ?thesis
        by (auto simp: ends_response_def split: option.splits)
    next
      case False
      with Cons.prems Receive show ?thesis by (simp add: cycle_receive_def)
    qed
  next
    case (Send_Message m)
    show ?thesis
    proof (cases "m = Body_Message False")
      case True
      from cycle_run_complete [of "cycle_send m c" es] True
      obtain ms c' where "cycle_run es (cycle_send m c) = Some (ms, c')" "set ms \<subseteq> {Http_Disconnect}" "response_complete c'"
        by (auto simp: cycle_send_def)
      moreover from this(2) have "set (tl ms) \<subseteq> {Http_Disconnect}" by (cases ms) auto
      ultimately show ?thesis using Send_Message True by (simp add: ends_response_def)
    next
      case False
      then have "\<not> response_complete (cycle_send m c)" "message_event (cycle_send m c) = message_event c"
        using Cons.prems by (auto simp: cycle_send_def split: sent_message.splits)
      with Cons.IH [of "cycle_send m c"] Send_Message False show ?thesis
        by (cases "cycle_run es (cycle_send m c)") (auto simp: ends_response_def)
    qed
  qed
qed

section \<open>Properties\<close>

text \<open>
  With the header guard on, a request that brings its own credential is resolved by the resolver that is
  in force and keeps its header; any other request gets the configured bearer and the configured
  identity, whatever its header resolves to. The patch does not outlive the call.
\<close>
theorem own_credential_resolved_for_real:
  assumes parent: "\<And>f q. (parent f q :: 'r res \<times> test_request) =
      (case authorization_header q of
        None \<Rightarrow> (refused, q)
      | Some h \<Rightarrow> (case f h of Inl e \<Rightarrow> (Inl e, q) | Inr i \<Rightarrow> (passed, q\<lparr>envoy := Some i\<rparr>)))"
  shows "snd (envoy_test_process_view guard st parent q current) = current
    \<and> (guard \<and> configured_header_guard (guard_setting st) \<and> authorization_header q = Some h \<and> h \<noteq> [] \<longrightarrow>
        fst (envoy_test_process_view guard st parent q current) =
          (case current h of Inl e \<Rightarrow> (Inl e, q) | Inr i \<Rightarrow> (passed, q\<lparr>envoy := Some i\<rparr>)))
    \<and> (\<not> (guard \<and> configured_header_guard (guard_setting st)) \<or> authorization_header q \<in> {None, Some []} \<longrightarrow>
        fst (envoy_test_process_view guard st parent q current) =
          (passed, q\<lparr>authorization_header := Some (configured_bearer (bearer_setting st)),
                     envoy := Some (configured_identity (identity_setting st))\<rparr>))"
  by (auto simp: envoy_test_process_view_def parent Let_def split: option.splits)

definition sample_parent :: "unit process_view" where
  "sample_parent f q =
    (case authorization_header q of
      None \<Rightarrow> (Inl (Permission_Denied ''no''), q)
    | Some h \<Rightarrow> (case f h of Inl e \<Rightarrow> (Inl e, q) | Inr i \<Rightarrow> (Inr (), q\<lparr>envoy := Some i\<rparr>)))"

lemma own_credential_resolved_for_real_witness:
  "fst (envoy_test_process_view True \<lparr>identity_setting = None, bearer_setting = None, guard_setting = None\<rparr>
      sample_parent \<lparr>authorization_header = Some ''Bearer x'', envoy = None\<rparr> (\<lambda>h. Inl (Permission_Denied ''no''))) =
    (Inl (Permission_Denied ''no''), \<lparr>authorization_header = Some ''Bearer x'', envoy = None\<rparr>)"
  using own_credential_resolved_for_real [of sample_parent "Inl (Permission_Denied ''no'')" "Inr ()" True
      "\<lparr>identity_setting = None, bearer_setting = None, guard_setting = None\<rparr>"
      "\<lparr>authorization_header = Some ''Bearer x'', envoy = None\<rparr>" "\<lambda>h. Inl (Permission_Denied ''no'')" "''Bearer x''"]
  by (simp add: sample_parent_def configured_header_guard_def)

text \<open>
  The server double gives the application its request once and then nothing until the response is
  complete: a disconnect is only received after the last body message was sent, and after that every
  receive is a disconnect, so no run of an application that has answered is left waiting.
\<close>
theorem disconnect_only_after_response:
  "(case cycle_run es new_cycle of
      None \<Rightarrow> True
    | Some (ms, c) \<Rightarrow> count_list ms Http_Request \<le> 1
        \<and> (Http_Disconnect \<in> set ms \<longrightarrow> (\<exists>e \<in> set es. ends_response e))
        \<and> (response_complete c \<longleftrightarrow> (\<exists>e \<in> set es. ends_response e)))
   \<and> cycle_run (Send_Message (Body_Message False) # es) new_cycle \<noteq> None"
proof
  show "cycle_run (Send_Message (Body_Message False) # es) new_cycle \<noteq> None"
    using cycle_run_complete [of "cycle_send (Body_Message False) new_cycle" es] by (auto simp: cycle_send_def)
  have only: "count_list ms Http_Request = 0" if "set ms \<subseteq> {Http_Disconnect}" for ms
    using that by (induction ms) auto
  have "count_list ms Http_Request \<le> 1"
    if "if ms \<noteq> [] \<and> hd ms = Http_Request then set (tl ms) \<subseteq> {Http_Disconnect} else set ms \<subseteq> {Http_Disconnect}" for ms
    using that only [of ms] only [of "tl ms"] by (cases ms) (auto split: if_splits)
  then show "case cycle_run es new_cycle of
      None \<Rightarrow> True
    | Some (ms, c) \<Rightarrow> count_list ms Http_Request \<le> 1
        \<and> (Http_Disconnect \<in> set ms \<longrightarrow> (\<exists>e \<in> set es. ends_response e))
        \<and> (response_complete c \<longleftrightarrow> (\<exists>e \<in> set es. ends_response e))"
    using cycle_run_open [of new_cycle es] by (auto simp: new_cycle_def split: option.split)
qed

lemma disconnect_only_after_response_witness:
  "cycle_run [Receive, Send_Message (Start_Message 200), Send_Message (Body_Message False), Receive] new_cycle =
     Some ([Http_Request, Http_Disconnect], \<lparr>message_event = True, response_complete = True, statuses = [200]\<rparr>)
   \<and> cycle_run [Receive, Receive] new_cycle = None
   \<and> cycle_run (Send_Message (Body_Message False) # [Receive]) new_cycle \<noteq> None"
  using disconnect_only_after_response [of "[Receive]"]
  by (simp add: cycle_receive_def cycle_send_def new_cycle_def)

text \<open>No call leaves a blocked test: a request is either permitted and answered by the real transport, or raises.\<close>

lemma blocked_request_unpermitted:
  "\<not> http_permitted allow url \<Longrightarrow> \<exists>m. blocked_request allow kind deliver http_verb url = (Inl (Runtime_Error m), False)"
  by (simp add: blocked_request_def)

lemma blocked_request_default: "\<not> snd (blocked_request [] kind deliver http_verb url)"
  by (simp add: blocked_request_def http_permitted_def)

end
