(* ===== verification/Deferred_History.thy ===== *)
theory Deferred_History
  imports Change_History
begin

text \<open>
  The change trail on partly loaded rows (\<open>netix_backend/django/change_history.py\<close>): a column left out
  by \<open>defer\<close> or \<open>only\<close> is fetched when it is read, and Django fetches it by calling
  \<open>refresh_from_db\<close> for that column, which the mixin overrides. \<open>_history_values\<close> reads every
  whitelisted column, so it fetches and re-baselines on the way. The columns not loaded yet are an
  explicit part of the state; the stored row is an argument.
\<close>

section \<open>Reading the whitelisted columns\<close>

text \<open>
  \<open>_history_values()\<close> with its effects: reading a deferred column refreshes it, and the refresh ends by
  taking a new snapshot, which reads the whitelisted columns again. Each refresh loads a column, so as
  many nested refreshes as there are deferred columns are enough.
\<close>

fun read_values ::
    "nat \<Rightarrow> history_class \<Rightarrow> row \<Rightarrow> string list \<Rightarrow> tracked \<Rightarrow> string list \<Rightarrow> row \<times> tracked \<times> string list" where
  "read_values fuel c stored_row [] i deferred = ([], i, deferred)"
| "read_values fuel c stored_row (name # names) i deferred =
    (let a = history_attname c name;
         (i1, d1) =
           (if a \<notin> set deferred then (i, deferred)
            else case fuel of
              0 \<Rightarrow> (i, deferred)
            | Suc f \<Rightarrow>
                (case read_values f c stored_row (dedupe (history_fields c))
                    (i\<lparr>attrs := dict_set a (get_val stored_row a) (attrs i)\<rparr>) (removeAll a deferred) of
                  (vs, j, d) \<Rightarrow> (j\<lparr>snapshot_values := Some vs\<rparr>, d)));
         (vs, i2, d2) = read_values fuel c stored_row names i1 d1
     in ((name, json_safe (get_val (attrs i1) a)) # vs, i2, d2))"

definition load_history_values :: "history_class \<Rightarrow> row \<Rightarrow> tracked \<Rightarrow> string list \<Rightarrow> row \<times> tracked \<times> string list" where
  "load_history_values c stored_row i deferred =
    read_values (length deferred) c stored_row (dedupe (history_fields c)) i deferred"

section \<open>Saving and refreshing\<close>

text \<open>
  A save reads the current values before it looks at the snapshot, so the columns are loaded by then.
\<close>

definition lazy_save ::
    "history_class \<Rightarrow> change_actor \<Rightarrow> string \<Rightarrow> super_save \<Rightarrow> string list option \<Rightarrow> tracked \<Rightarrow> string list \<Rightarrow> stored
      \<Rightarrow> tracked \<times> stored \<times> exc option" where
  "lazy_save c a now super_save update_fields i deferred db =
    (case load_history_values c (stored_attrs db) i deferred of
      (current, i1, d1) \<Rightarrow> history_save c a now super_save update_fields i1 db)"

text \<open>Django's refresh of the columns \<open>fs\<close> only: every other attribute keeps its value in memory.\<close>

definition refresh_columns :: "row \<Rightarrow> string list \<Rightarrow> tracked \<Rightarrow> tracked" where
  "refresh_columns stored_row fs i =
    i\<lparr>attrs := fold (\<lambda>f. dict_set f (get_val stored_row f)) fs (attrs i)\<rparr>"

text \<open>
  What Django promises of a save it does not refuse, on rows that may be partly loaded: every column that is
  loaded and is asked for is written with the instance's value (\<open>updated_on\<close> takes its own), and the stored trail
  becomes the instance's or stays.
\<close>

definition writes_loaded :: "super_save \<Rightarrow> bool" where
  "writes_loaded super_save \<longleftrightarrow>
    (\<forall>uf i db db'. super_save uf i db = (db', None) \<longrightarrow>
      (\<forall>col \<in> set (dict_keys (attrs i)). col \<noteq> ''updated_on'' \<longrightarrow> (case uf of None \<Rightarrow> True | Some fs \<Rightarrow> col \<in> set fs) \<longrightarrow>
        get_val (stored_attrs db') col = get_val (attrs i) col)
      \<and> stored_history db' \<in> {change_history i, stored_history db})"

section \<open>Lemmas\<close>

definition values_of :: "history_class \<Rightarrow> string list \<Rightarrow> tracked \<Rightarrow> row" where
  "values_of c names i = map (\<lambda>name. (name, json_safe (get_val (attrs i) (history_attname c name)))) names"

lemma history_values_of: "history_values c None i = values_of c (dedupe (history_fields c)) i"
  by (simp add: history_values_def values_of_def)

lemma values_of_snapshot [simp]: "values_of c names (i\<lparr>snapshot_values := sn\<rparr>) = values_of c names i"
  by (simp add: values_of_def)

definition unread :: "history_class \<Rightarrow> string list \<Rightarrow> string list \<Rightarrow> bool" where
  "unread c names deferred \<longleftrightarrow> (\<exists>name \<in> set names. history_attname c name \<in> set deferred)"

lemma read_loaded:
  "\<not> unread c names deferred \<Longrightarrow> read_values fuel c stored_row names i deferred = (values_of c names i, i, deferred)"
  by (induction names) (auto simp: unread_def values_of_def)

text \<open>What reading leaves alone: everything but the fetched columns and the snapshot.\<close>

definition only_fetched :: "row \<Rightarrow> tracked \<Rightarrow> string list \<Rightarrow> tracked \<Rightarrow> string list \<Rightarrow> bool" where
  "only_fetched stored_row i deferred i' deferred' \<longleftrightarrow>
    adding i' = adding i \<and> change_history i' = change_history i \<and> set deferred' \<subseteq> set deferred \<and>
    set (dict_keys (attrs i)) \<subseteq> set (dict_keys (attrs i')) \<and>
    (\<forall>a. get_val (attrs i') a =
      (if a \<in> set deferred - set deferred' then get_val stored_row a else get_val (attrs i) a))"

lemma read_unread:
  assumes "length deferred \<le> fuel" and "unread c names deferred" and "set names \<subseteq> set (history_fields c)"
  shows "case read_values fuel c stored_row names i deferred of
    (vs, i', d') \<Rightarrow> vs = values_of c names i' \<and> snapshot_values i' = Some (history_values c None i') \<and>
      \<not> unread c (history_fields c) d' \<and> only_fetched stored_row i deferred i' d'"
  using assms
proof (induction fuel arbitrary: names i deferred)
  case 0
  then show ?case by (simp add: unread_def)
next
  case (Suc fuel)
  from Suc.prems(2,3) show ?case
  proof (induction names)
    case Nil
    then show ?case by (simp add: unread_def)
  next
    case (Cons name names)
    let ?a = "history_attname c name" and ?fs = "dedupe (history_fields c)"
    show ?case
    proof (cases "?a \<in> set deferred")
      case False
      with Cons.prems have "unread c names deferred" "set names \<subseteq> set (history_fields c)" by (auto simp: unread_def)
      from Cons.IH [OF this] False show ?thesis
        by (auto simp: values_of_def only_fetched_def split: prod.splits)
    next
      case True
      let ?i = "i\<lparr>attrs := dict_set ?a (get_val stored_row ?a) (attrs i)\<rparr>" and ?d = "removeAll ?a deferred"
      obtain vs j d where j: "read_values fuel c stored_row ?fs ?i ?d = (vs, j, d)"
        by (cases "read_values fuel c stored_row ?fs ?i ?d")
      have "length ?d < length deferred" using True by (rule length_removeAll_less)
      then have "length ?d \<le> fuel" using Suc.prems(1) by simp
      then have nested: "vs = values_of c ?fs j \<and> \<not> unread c (history_fields c) d \<and> only_fetched stored_row ?i ?d j d"
        using Suc.IH [of ?d ?fs ?i] read_loaded [of c ?fs ?d fuel stored_row ?i] j
        by (cases "unread c ?fs ?d") (auto simp: only_fetched_def unread_def)
      let ?j = "j\<lparr>snapshot_values := Some vs\<rparr>"
      have "\<not> unread c names d" using nested Cons.prems(2) by (auto simp: unread_def)
      moreover have "only_fetched stored_row i deferred ?j d"
        using nested True by (auto simp: only_fetched_def get_val_set dict_keys_set split: if_splits)
      ultimately show ?thesis
        using nested j True read_loaded [of c names d "Suc fuel" stored_row ?j] by (auto simp: values_of_def history_values_of)
    qed
  qed
qed

lemma load_unread:
  assumes "unread c (history_fields c) deferred" and "load_history_values c stored_row i deferred = (vs, i', d')"
  shows "snapshot_values i' = Some (history_values c None i')" and "only_fetched stored_row i deferred i' d'"
    and "vs = history_values c None i'"
  using assms read_unread [of deferred "length deferred" c "dedupe (history_fields c)" stored_row i]
  by (auto simp: load_history_values_def unread_def history_values_of)

text \<open>A row whose snapshot is its present state has nothing to record, whatever the save writes.\<close>

definition storable_values :: "history_class \<Rightarrow> tracked \<Rightarrow> bool" where
  "storable_values c i \<longleftrightarrow> (\<forall>name \<in> set (history_fields c). nan_free (json_safe (get_val (attrs i) (history_attname c name))))"

text \<open>A save that records nothing but writes the columns asked for: what the row then is, and what is stored.\<close>

definition written_unrecorded :: "string list option \<Rightarrow> (string \<Rightarrow> bool) \<Rightarrow> tracked \<Rightarrow> stored \<Rightarrow> tracked \<times> stored \<times> exc option \<Rightarrow> bool" where
  "written_unrecorded uf pending i db result \<longleftrightarrow>
    (case result of (i', db', error) \<Rightarrow>
      change_history i' = change_history i
      \<and> (error = None \<longrightarrow>
          (\<forall>col \<in> set (dict_keys (attrs i)). pending col \<longrightarrow> (case uf of None \<Rightarrow> True | Some fs \<Rightarrow> col \<in> set fs) \<longrightarrow>
            get_val (stored_attrs db') col = get_val (attrs i) col)
          \<and> stored_history db' \<in> {change_history i, stored_history db}))"

lemma rebaselined_records_nothing:
  assumes "snapshot_values j = Some (history_values c None j)" and "\<not> adding j" and "storable_values c j"
    and "writes_loaded super_save" and "change_history j = change_history i" and "set (dict_keys (attrs i)) \<subseteq> set (dict_keys (attrs j))"
    and "\<And>col. pending col \<Longrightarrow> get_val (attrs j) col = get_val (attrs i) col \<and> col \<noteq> ''updated_on''"
  shows "written_unrecorded uf pending i db (history_save c a now super_save uf j db)"
proof -
  have "diff_changes c uf (history_values c None j) j = []"
    using assms(3) py_eq_refl
    by (auto simp: diff_changes_def history_values_def storable_values_def get_val_def dict_get_map_self filter_empty_conv)
  then have none: "build_history_entry c a now uf j = None"
    using assms(1,2) by (simp add: build_history_entry_def)
  obtain db' error where save: "super_save uf j db = (db', error)" by force
  from none save have result: "change_history (fst (history_save c a now super_save uf j db)) = change_history j"
    "snd (history_save c a now super_save uf j db) = (db', error)"
    by (auto simp: history_save_def Let_def split: option.splits)
  have "(\<forall>col \<in> set (dict_keys (attrs i)). pending col \<longrightarrow> (case uf of None \<Rightarrow> True | Some fs \<Rightarrow> col \<in> set fs) \<longrightarrow>
      get_val (stored_attrs db') col = get_val (attrs i) col) \<and> stored_history db' \<in> {change_history i, stored_history db}"
    if "error = None"
    using assms(4) [unfolded writes_loaded_def, rule_format, OF save [unfolded that]] assms(5-7) by (auto dest: subsetD)
  with result assms(5) show ?thesis
    by (cases "history_save c a now super_save uf j db") (simp add: written_unrecorded_def)
qed

lemma get_val_fold:
  "get_val (fold (\<lambda>f. dict_set f (get_val stored_row f)) fs attrs') a = (if a \<in> set fs then get_val stored_row a else get_val attrs' a)"
  by (induction fs arbitrary: attrs') (auto simp: get_val_set)

lemma keys_fold: "set (dict_keys attrs') \<subseteq> set (dict_keys (fold (\<lambda>f. dict_set f (get_val stored_row f)) fs attrs'))"
proof (induction fs arbitrary: attrs')
  case (Cons f fs)
  have "set (dict_keys attrs') \<subseteq> set (dict_keys (dict_set f (get_val stored_row f) attrs'))" by (auto simp: dict_keys_set)
  with Cons.IH show ?case by (simp add: subset_trans)
qed simp

section \<open>Properties\<close>

text \<open>
  When every whitelisted column is loaded, reading them fetches nothing, so a save is the save of the
  fully loaded row.
\<close>

theorem loaded_save_agrees:
  "\<not> unread c (history_fields c) deferred \<Longrightarrow>
    lazy_save c a now super_save uf i deferred db = history_save c a now super_save uf i db"
  by (simp add: lazy_save_def load_history_values_def read_loaded unread_def)

text \<open>
  C15. A refresh forgets what was pending, although the save then writes it. On a row loaded without one of its
  whitelisted columns, a save that goes through stores every loaded column it was asked to write, with the value
  in memory, whatever was changed there, and records none of it: the trail is the one before, on the instance
  and in what is stored. The same holds of a save after an explicit refresh of some columns for the changes made
  in memory to the others, which the refresh leaves in place. Django's own save is as documented, and the values hold no NaN.
\<close>

theorem refresh_forgets_pending:
  assumes "\<not> adding i" and "writes_loaded super_save"
    and "\<forall>a. nan_free (json_safe (get_val (attrs i) a)) \<and> nan_free (json_safe (get_val (stored_attrs db) a))"
  shows "(unread c (history_fields c) deferred \<longrightarrow>
      written_unrecorded uf (\<lambda>col. col \<notin> set deferred \<and> col \<noteq> ''updated_on'') i db
        (lazy_save c a now super_save uf i deferred db))
    \<and> written_unrecorded uf (\<lambda>col. col \<notin> set fs \<and> col \<noteq> ''updated_on'') i db
        (history_save c a now super_save uf (refresh_from_db c (refresh_columns (stored_attrs db) fs) i) db)"
proof (intro conjI impI)
  assume u: "unread c (history_fields c) deferred"
  obtain vs i' d' where l: "load_history_values c (stored_attrs db) i deferred = (vs, i', d')"
    by (cases "load_history_values c (stored_attrs db) i deferred")
  note fetched = load_unread(2) [OF u l, unfolded only_fetched_def]
  have "storable_values c i'" "\<not> adding i'" using fetched assms(1,3) by (auto simp: storable_values_def)
  with fetched have "written_unrecorded uf (\<lambda>col. col \<notin> set deferred \<and> col \<noteq> ''updated_on'') i db
      (history_save c a now super_save uf i' db)"
    by (intro rebaselined_records_nothing [OF load_unread(1) [OF u l]] assms(2)) auto
  then show "written_unrecorded uf (\<lambda>col. col \<notin> set deferred \<and> col \<noteq> ''updated_on'') i db
      (lazy_save c a now super_save uf i deferred db)"
    by (simp add: lazy_save_def l)
next
  let ?i = "refresh_from_db c (refresh_columns (stored_attrs db) fs) i"
  have get: "get_val (attrs ?i) a = (if a \<in> set fs then get_val (stored_attrs db) a else get_val (attrs i) a)" for a
    by (simp add: refresh_from_db_def refresh_columns_def Let_def get_val_fold)
  have "snapshot_values ?i = Some (history_values c None ?i)" "\<not> adding ?i" "change_history ?i = change_history i"
    "set (dict_keys (attrs i)) \<subseteq> set (dict_keys (attrs ?i))"
    using assms(1) keys_fold by (simp_all add: refresh_from_db_def refresh_columns_def Let_def history_values_def)
  moreover have "storable_values c ?i"
    using assms(3) by (simp add: storable_values_def get)
  ultimately show "written_unrecorded uf (\<lambda>col. col \<notin> set fs \<and> col \<noteq> ''updated_on'') i db (history_save c a now super_save uf ?i db)"
    by (intro rebaselined_records_nothing assms(2)) (auto simp: get)
qed

text \<open>
  A row loaded without its label: its status goes from 1 to 2 and is stored, and the trail stays empty,
  while the same change to the fully loaded row is recorded.
\<close>

abbreviation labelled_class :: history_class where
  "labelled_class \<equiv> \<lparr>history_fields = [''status'', ''label''], history_max_entries = 50, history_attname = \<lambda>n. n,
    flatchoices = \<lambda>n. []\<rparr>"

abbreviation stored_label :: stored where
  "stored_label \<equiv> \<lparr>stored_attrs = [(''status'', VInt 1), (''label'', VStr ''x'')], stored_history = []\<rparr>"

lemma sample_writes_loaded: "writes_loaded sample_super_save"
  by (auto simp: writes_loaded_def sample_super_save_def)

lemma sample_never_fails: "snd (snd (history_save c a now sample_super_save uf i db)) = None"
  by (simp add: history_save_def sample_super_save_def Let_def split: prod.split option.split)

lemma sample_lazy_save: "\<exists>db'. lazy_save c a now sample_super_save uf i0 deferred db = (i, db', None)"
  if "i = fst (lazy_save c a now sample_super_save uf i0 deferred db)"
proof -
  obtain vs j d where "load_history_values c (stored_attrs db) i0 deferred = (vs, j, d)"
    by (cases "load_history_values c (stored_attrs db) i0 deferred")
  then have "lazy_save c a now sample_super_save uf i0 deferred db = history_save c a now sample_super_save uf j db"
    by (simp add: lazy_save_def)
  with that sample_never_fails [of c a now uf j db] show ?thesis
    by (cases "history_save c a now sample_super_save uf j db") simp
qed

lemma refresh_forgets_pending_witness:
  "\<exists>i db. lazy_save labelled_class system_actor ''now'' sample_super_save None sample_tracked [''label''] stored_label = (i, db, None)
     \<and> get_val (stored_attrs db) ''status'' = VInt 2 \<and> change_history i = [] \<and> stored_history db = []
   \<and> change_history (fst (history_save labelled_class system_actor ''now'' sample_super_save None sample_tracked stored_label)) \<noteq> []"
proof -
  have free: "\<forall>a. nan_free (json_safe (get_val (attrs sample_tracked) a)) \<and> nan_free (json_safe (get_val (stored_attrs stored_label) a))"
    by (auto simp: get_val_def)
  obtain i db where run: "lazy_save labelled_class system_actor ''now'' sample_super_save None sample_tracked [''label''] stored_label = (i, db, None)"
    using sample_lazy_save [OF refl] by blast
  have "unread labelled_class (history_fields labelled_class) [''label'']" by (simp add: unread_def)
  with refresh_forgets_pending [OF _ sample_writes_loaded free, of labelled_class "[''label'']" None system_actor "''now''" "[]"]
  have "written_unrecorded None (\<lambda>col. col \<notin> set [''label''] \<and> col \<noteq> ''updated_on'') sample_tracked stored_label (i, db, None)"
    unfolding run by simp
  then have "get_val (stored_attrs db) ''status'' = VInt 2" "change_history i = []" "stored_history db = []"
    by (simp_all add: written_unrecorded_def dict_keys_def get_val_def)
  moreover have "change_history (fst (history_save labelled_class system_actor ''now'' sample_super_save None sample_tracked stored_label)) \<noteq> []"
    by (simp add: sample_save_eval)
  ultimately show ?thesis using run by blast
qed

end
