(* ===== verification/Audited_Rows.thy ===== *)
theory Audited_Rows
  imports Models Change_History "HOL-Library.List_Lexorder" "HOL-Library.Char_ord"
begin

text \<open>
  A model that mixes the two bases in as their documentation says, \<open>class Row(BaseModel,
  ChangeHistoryModel)\<close>: \<open>BaseModel.save\<close> (\<open>netix_backend/django/models.py\<close>) calls
  \<open>ChangeHistoryModel.save\<close> (\<open>change_history.py\<close>), which calls Django's. Both are the definitions of
  their own theories; what is new here is how they are stacked, and what a stored row then holds.
\<close>

section \<open>The stacked save\<close>

text \<open>\<open>list({...})\<close>: the fields of the set in an order of its own.\<close>

definition lists_set :: "(string set \<Rightarrow> string list) \<Rightarrow> bool" where
  "lists_set as_list \<longleftrightarrow> (\<forall>fs. finite fs \<longrightarrow> set (as_list fs) = fs)"

definition audited_save ::
    "(string set \<Rightarrow> string list) \<Rightarrow> history_class \<Rightarrow> change_actor \<Rightarrow> string \<Rightarrow> super_save \<Rightarrow> (tracked, stored) saver" where
  "audited_save as_list c a now super_save =
    base_save (\<lambda>update_fields. history_save c a now super_save (map_option as_list update_fields))"

definition set_attr :: "string \<Rightarrow> pyval \<Rightarrow> tracked \<Rightarrow> tracked" where
  "set_attr name v i = i\<lparr>attrs := dict_set name v (attrs i)\<rparr>"

definition audited_soft_delete ::
    "(tracked \<Rightarrow> exc option) \<Rightarrow> (tracked, stored) saver \<Rightarrow> tracked \<Rightarrow> stored \<Rightarrow> tracked \<times> stored \<times> exc option" where
  "audited_soft_delete validate save i db =
    (case validate i of
      Some e \<Rightarrow> (i, db, Some e)
    | None \<Rightarrow> save (Some {''is_deleted''}) (set_attr ''is_deleted'' (VBool True) i) db)"

section \<open>What Django promises of a partial save\<close>

text \<open>
  A save of some columns raises, or writes exactly those: the trail is a column like the others, and
  \<open>updated_on\<close>, an \<open>auto_now\<close> column, takes the present.
\<close>

definition writes_columns :: "pyval \<Rightarrow> super_save \<Rightarrow> bool" where
  "writes_columns stamp super_save \<longleftrightarrow>
    (\<forall>fs i db db'. super_save (Some fs) i db = (db', None) \<longrightarrow>
      (\<forall>col. get_val (stored_attrs db') col =
        (if col \<notin> set fs then get_val (stored_attrs db) col
         else if col = ''updated_on'' then stamp else get_val (attrs i) col)) \<and>
      stored_history db' = (if ''change_history'' \<in> set fs then change_history i else stored_history db))"

text \<open>
  A class that whitelists the flag under its own column name, and not the stamp: the documentation
  leaves bookkeeping columns out of the whitelist.
\<close>

definition flag_recorded :: "history_class \<Rightarrow> bool" where
  "flag_recorded c \<longleftrightarrow> ''is_deleted'' \<in> set (history_fields c) \<and> history_attname c ''is_deleted'' = ''is_deleted'' \<and>
    (\<forall>name \<in> set (history_fields c). name \<noteq> ''is_deleted'' \<longrightarrow>
      name \<noteq> ''updated_on'' \<and> history_attname c name \<noteq> ''is_deleted'' \<and> history_attname c name \<noteq> ''updated_on'') \<and>
    0 < history_max_entries c"

section \<open>Lemmas\<close>

lemma set_attr_simps [simp]:
  "adding (set_attr n v i) = adding i" "change_history (set_attr n v i) = change_history i"
  "snapshot_values (set_attr n v i) = snapshot_values i"
  "get_val (attrs (set_attr n v i)) m = (if m = n then v else get_val (attrs i) m)"
  by (simp_all add: set_attr_def get_val_set)

lemma singleton_list: "distinct xs \<Longrightarrow> set xs = {x} \<Longrightarrow> xs = [x]"
  by (cases xs) (auto simp: subset_singleton_iff)

lemma distinct_diff: "distinct (diff_changes c uf snap i)"
  using dict_ok_history_values [of c None i]
  by (intro distinct_map [THEN iffD1, THEN conjunct1, of change_field])
    (simp add: change_fields_diff dict_ok_def dict_keys_def distinct_map_filter)

text \<open>A write of the flag and the stamp has one change to record when the flag moved.\<close>

lemma flag_diff:
  assumes "flag_recorded c" and "set fs = {''is_deleted'', ''updated_on''}" and "dict_get snap ''is_deleted'' = Some (VBool (\<not> b))"
  shows "diff_changes c (Some fs) snap (set_attr ''is_deleted'' (VBool b) i) =
    [mk_change c ''is_deleted'' (VBool (\<not> b)) (VBool b)]"
proof (rule singleton_list [OF distinct_diff], intro set_eqI iffI)
  fix ch assume "ch \<in> set (diff_changes c (Some fs) snap (set_attr ''is_deleted'' (VBool b) i))"
  then obtain name where n: "ch = mk_change c name (get_val snap name) (json_safe (get_val (attrs (set_attr ''is_deleted'' (VBool b) i)) (history_attname c name)))"
    "name \<in> set (history_fields c)" "history_attname c name \<in> set fs \<or> name \<in> set fs"
    unfolding set_diff_changes by (auto simp: dict_get_history_values written_field_def split: if_splits)
  then have "name = ''is_deleted''"
    using assms(1,2) unfolding flag_recorded_def by blast
  with n assms(1,3) show "ch \<in> {mk_change c ''is_deleted'' (VBool (\<not> b)) (VBool b)}"
    by (simp add: flag_recorded_def get_val_def [of snap])
next
  fix ch assume "ch \<in> {mk_change c ''is_deleted'' (VBool (\<not> b)) (VBool b)}"
  moreover have "dict_get (history_values c None (set_attr ''is_deleted'' (VBool b) i)) ''is_deleted'' = Some (VBool b)"
    using assms(1) by (simp add: dict_get_history_values flag_recorded_def)
  moreover have "written_field c (Some fs) ''is_deleted''"
    using assms(2) by (simp add: written_field_def)
  moreover have "get_val snap ''is_deleted'' = VBool (\<not> b)" using assms(3) by (simp add: get_val_def)
  moreover have "\<not> py_eq (VBool (\<not> b)) (VBool b)" by (simp add: number_of_def)
  ultimately show "ch \<in> set (diff_changes c (Some fs) snap (set_attr ''is_deleted'' (VBool b) i))"
    unfolding set_diff_changes mem_Collect_eq singleton_iff using assms(3)
    by (intro exI [of _ "''is_deleted''"] exI [of _ "VBool b"]) simp
qed

lemma flag_recorded_other:
  assumes "flag_recorded c" and "f \<in> set (history_fields c)" and "f \<noteq> ''is_deleted''"
  shows "f \<noteq> ''updated_on'' \<and> history_attname c f \<noteq> ''is_deleted'' \<and> history_attname c f \<noteq> ''updated_on''"
  using assms(1) [unfolded flag_recorded_def, THEN conjunct2, THEN conjunct2, THEN conjunct1, THEN bspec, OF assms(2)] assms(3)
  by simp

text \<open>A successful write of the flag through both bases.\<close>

definition flag_entry :: "history_class \<Rightarrow> change_actor \<Rightarrow> string \<Rightarrow> bool \<Rightarrow> history_entry" where
  "flag_entry c a now b =
    mk_entry a now (if b then ''deleted'' else ''restored'') [mk_change c ''is_deleted'' (VBool (\<not> b)) (VBool b)]"

lemma audited_flag_write:
  assumes save: "audited_save as_list c a now super_save (Some {''is_deleted''}) (set_attr ''is_deleted'' (VBool b) i) db = (i', db', None)"
    and "lists_set as_list" and writes: "writes_columns stamp super_save" and flag: "flag_recorded c"
    and "\<not> adding i" and snap: "snapshot_values i = Some snap" and was: "dict_get snap ''is_deleted'' = Some (VBool (\<not> b))"
  shows "change_history i' = keep_last (history_max_entries c) (change_history i @ [flag_entry c a now b])"
    and "stored_history db' = change_history i'"
    and "get_val (stored_attrs db') col = (if col = ''is_deleted'' then VBool b else if col = ''updated_on'' then stamp
      else if col = ''change_history'' then get_val (attrs i) col else get_val (stored_attrs db) col)"
    and "\<not> adding i'" and "get_val (attrs i') name = get_val (attrs (set_attr ''is_deleted'' (VBool b) i)) name"
    and "\<exists>snap'. snapshot_values i' = Some snap' \<and> dict_get snap' ''is_deleted'' = Some (VBool b)
      \<and> (\<forall>f. f \<noteq> ''is_deleted'' \<longrightarrow> f \<in> set (history_fields c) \<longrightarrow> dict_get snap' f = dict_get snap f)"
proof -
  let ?fs = "as_list {''is_deleted'', ''updated_on''}" and ?i = "set_attr ''is_deleted'' (VBool b) i"
  have fs: "set ?fs = {''is_deleted'', ''updated_on''}"
    using assms(2) by (simp add: lists_set_def)
  have recorded: "''is_deleted'' \<in> set (history_fields c)" "history_attname c ''is_deleted'' = ''is_deleted''"
    using flag unfolding flag_recorded_def by blast+
  have chs: "diff_changes c (Some ?fs) snap ?i = [mk_change c ''is_deleted'' (VBool (\<not> b)) (VBool b)]"
    using flag_diff [OF flag fs was] by simp
  have loaded: "\<not> adding ?i" "snapshot_values ?i = Some snap" "history_fields c \<noteq> []"
    using assms(5) snap recorded by auto
  have "ensure_updated_on (Some {''is_deleted''}) = Some {''is_deleted'', ''updated_on''}"
    unfolding ensure_updated_on_def option.case by (rule arg_cong [of _ _ Some], rule insert_commute)
  with save have hs: "history_save c a now super_save (Some ?fs) ?i db = (i', db', None)"
    by (cases "history_save c a now super_save (Some ?fs) ?i db") (simp add: audited_save_def base_save_def)
  note l = history_save_loaded [OF hs loaded, unfolded chs]
  have entry: "mk_entry a now (action_for [mk_change c ''is_deleted'' (VBool (\<not> b)) (VBool b)]) [mk_change c ''is_deleted'' (VBool (\<not> b)) (VBool b)]
      = flag_entry c a now b"
    by (simp add: flag_entry_def mk_change_def)
  show h: "change_history i' = keep_last (history_max_entries c) (change_history i @ [flag_entry c a now b])"
    using l(3) unfolding entry by simp
  have built: "build_history_entry c a now (Some ?fs) ?i = Some (flag_entry c a now b)"
    unfolding build_history_entry_def Let_def loaded(2) option.case chs entry using loaded by simp
  let ?i1 = "?i\<lparr>change_history := change_history i'\<rparr>"
  have "super_save (Some (?fs @ [''change_history''])) ?i1 db = (db', None)"
    using hs unfolding history_save_def Let_def built option.case prod.case h by (auto split: prod.splits option.splits)
  from writes [unfolded writes_columns_def, rule_format, OF this]
  show "stored_history db' = change_history i'"
    and "get_val (stored_attrs db') col = (if col = ''is_deleted'' then VBool b else if col = ''updated_on'' then stamp
      else if col = ''change_history'' then get_val (attrs i) col else get_val (stored_attrs db) col)"
    by (auto simp: fs)
  show "\<not> adding i'" by (rule l(2))
  show "get_val (attrs i') name = get_val (attrs ?i) name" by (simp add: l(1))
  obtain snap' where s: "snapshot_values i' = Some snap'" using l(5) by auto
  have w: "written_field c (Some ?fs) f \<longleftrightarrow> f = ''is_deleted''" if "f \<in> set (history_fields c)" for f
  proof (cases "f = ''is_deleted''")
    case True
    then show ?thesis unfolding written_field_def option.case fs by simp
  next
    case False
    from flag_recorded_other [OF flag that False] False show ?thesis unfolding written_field_def option.case fs by (simp only: insert_iff empty_iff simp_thms)
  qed
  have "dict_get snap' f = (if f = ''is_deleted'' then Some (VBool b) else dict_get snap f)" if "f \<in> set (history_fields c)" for f
    using l(4) [of f] that w [OF that] s recorded by simp
  with s recorded show "\<exists>snap'. snapshot_values i' = Some snap' \<and> dict_get snap' ''is_deleted'' = Some (VBool b)
      \<and> (\<forall>f. f \<noteq> ''is_deleted'' \<longrightarrow> f \<in> set (history_fields c) \<longrightarrow> dict_get snap' f = dict_get snap f)"
    by simp
qed

lemma soft_delete_saves:
  assumes "audited_soft_delete validate save i db = (i', db', None)"
  shows "save (Some {''is_deleted''}) (set_attr ''is_deleted'' (VBool True) i) db = (i', db', None)"
  using assms by (simp add: audited_soft_delete_def split: option.splits)

section \<open>A save that keeps the promise\<close>

definition plain_super_save :: "pyval \<Rightarrow> super_save" where
  "plain_super_save stamp update_fields i db =
    (case update_fields of
      None \<Rightarrow> (\<lparr>stored_attrs = attrs i, stored_history = change_history i\<rparr>, None)
    | Some fs \<Rightarrow>
        (\<lparr>stored_attrs = fold (\<lambda>f. dict_set f (if f = ''updated_on'' then stamp else get_val (attrs i) f)) fs (stored_attrs db),
          stored_history = (if ''change_history'' \<in> set fs then change_history i else stored_history db)\<rparr>, None))"

lemma get_val_fold_set: "get_val (fold (\<lambda>f. dict_set f (g f)) fs r) col = (if col \<in> set fs then g col else get_val r col)"
  by (induction fs arbitrary: r) (auto simp: get_val_set)

lemma plain_super_save_writes: "writes_columns stamp (plain_super_save stamp)"
  by (auto simp: writes_columns_def plain_super_save_def get_val_fold_set)

lemma audited_save_plain:
  "\<exists>i' db'. audited_save as_list c a now (plain_super_save stamp) uf i db = (i', db', None)"
  by (auto simp: audited_save_def base_save_def history_save_def Let_def plain_super_save_def
      split: prod.splits option.splits)

abbreviation flagged_class :: history_class where
  "flagged_class \<equiv> \<lparr>history_fields = [''is_deleted''], history_max_entries = 50, history_attname = \<lambda>n. n, flatchoices = \<lambda>n. []\<rparr>"

abbreviation live_row :: tracked where
  "live_row \<equiv> \<lparr>adding = False, attrs = [(''is_deleted'', VBool False)], change_history = [],
    snapshot_values = Some [(''is_deleted'', VBool False)]\<rparr>"

abbreviation live_stored :: stored where
  "live_stored \<equiv> \<lparr>stored_attrs = [(''is_deleted'', VBool False)], stored_history = []\<rparr>"

end
