(* ===== verification/Refinement.thy ===== *)
theory Refinement
  imports Prelude
begin

text \<open>
  The interface by which a detailed transition system implements an abstract one: an abstraction
  function, under which every detailed step is an abstract step or changes nothing, as long as the
  detailed system keeps its own invariant. Interpreted on the request ceiling and on the entry point.
  For a component that answers its callers there is a labelled form, where every call's answer is the
  label of an abstract step: interpreted on the client factory.
\<close>

locale refinement =
  fixes start :: "'s \<Rightarrow> bool"
    and step :: "'s \<Rightarrow> 's \<Rightarrow> bool"
    and keeps :: "'s \<Rightarrow> bool"
    and abs :: "'s \<Rightarrow> 'a"
    and abs_start :: "'a \<Rightarrow> bool"
    and abs_step :: "'a \<Rightarrow> 'a \<Rightarrow> bool"
  assumes starts: "start s \<Longrightarrow> keeps s \<and> abs_start (abs s)"
    and steps: "keeps s \<Longrightarrow> step s s' \<Longrightarrow> keeps s' \<and> (abs s' = abs s \<or> abs_step (abs s) (abs s'))"
begin

lemma run_from: "step\<^sup>*\<^sup>* s s' \<Longrightarrow> keeps s \<Longrightarrow> keeps s' \<and> abs_step\<^sup>*\<^sup>* (abs s) (abs s')"
proof (induction rule: rtranclp_induct)
  case (step t u)
  with steps [of t u] show ?case by (metis rtranclp.rtrancl_into_rtrancl)
qed simp

lemma run_refines: "start s \<Longrightarrow> step\<^sup>*\<^sup>* s s' \<Longrightarrow> keeps s' \<and> abs_step\<^sup>*\<^sup>* (abs s) (abs s')"
  using run_from starts by blast

text \<open>An invariant of the abstract system holds of what the detailed one abstracts to.\<close>

lemma abs_invariant:
  assumes "\<And>a. abs_start a \<Longrightarrow> P a" and "\<And>a b. P a \<Longrightarrow> abs_step a b \<Longrightarrow> P b"
    and "start s" and "step\<^sup>*\<^sup>* s s'"
  shows "P (abs s')"
proof -
  have "P b" if "abs_step\<^sup>*\<^sup>* a b" "P a" for a b
    using that by (induction rule: rtranclp_induct) (auto intro: assms(2))
  then show ?thesis using run_refines [OF assms(3,4)] starts [OF assms(3)] assms(1) by blast
qed

end

text \<open>Runs of a labelled system, and the labels a sequence of events shows on the way.\<close>

inductive traced :: "('a \<Rightarrow> 'l \<Rightarrow> 'a \<Rightarrow> bool) \<Rightarrow> 'a \<Rightarrow> 'l list \<Rightarrow> 'a \<Rightarrow> bool" for step where
  traced_none: "traced step a [] a"
| traced_next: "step a l b \<Longrightarrow> traced step b ls c \<Longrightarrow> traced step a (l # ls) c"

inductive_simps traced_Nil [simp]: "traced step a [] b"
inductive_simps traced_Cons [simp]: "traced step a (l # ls) c"

lemma traced_append [simp]: "traced step a (xs @ ys) c \<longleftrightarrow> (\<exists>b. traced step a xs b \<and> traced step b ys c)"
  by (induction xs arbitrary: a) auto

text \<open>A relation between the labels so far and the state, kept by every step, holds after any run.\<close>

lemma traced_invariant:
  assumes "traced step a ls b" and "P past a"
    and "\<And>ls a l b. P ls a \<Longrightarrow> step a l b \<Longrightarrow> P (ls @ [l]) b"
  shows "P (past @ ls) b"
  using assms(1,2)
proof (induction arbitrary: past rule: traced.induct)
  case (traced_next a l b ls c)
  from traced_next.IH [OF assms(3) [OF traced_next.prems traced_next.hyps(1)]] show ?case by simp
qed simp

primrec observed :: "('e \<Rightarrow> 's \<Rightarrow> 's) \<Rightarrow> ('e \<Rightarrow> 's \<Rightarrow> 'l) \<Rightarrow> 'e list \<Rightarrow> 's \<Rightarrow> 'l list" where
  "observed act label [] s = []"
| "observed act label (e # es) s = label e s # observed act label es (act e s)"

locale trace_refinement =
  fixes act :: "'e \<Rightarrow> 's \<Rightarrow> 's"
    and label :: "'e \<Rightarrow> 's \<Rightarrow> 'l"
    and abs :: "'s \<Rightarrow> 'a"
    and abs_step :: "'a \<Rightarrow> 'l \<Rightarrow> 'a \<Rightarrow> bool"
  assumes labelled_step: "abs_step (abs s) (label e s) (abs (act e s))"
begin

lemma run_traced: "traced abs_step (abs s) (observed act label es s) (abs (fold act es s))"
  by (induction es arbitrary: s) (auto intro: labelled_step)

lemma run_invariant:
  assumes "P [] (abs s)" and "\<And>ls a l b. P ls a \<Longrightarrow> abs_step a l b \<Longrightarrow> P (ls @ [l]) b"
  shows "P (observed act label es s) (abs (fold act es s))"
  using traced_invariant [where P = P, OF run_traced assms] by simp

end

end
