(* ===== verification/Voices.thy ===== *)
theory Voices
  imports Request_Timeout Refinement
begin

text \<open>
  What the ceiling of \<open>netix_backend/asgi/timeout.py\<close> promises for one request, as an abstract
  protocol of its answer, and the proof that the middleware's event loop implements it for every
  request at once.
\<close>

section \<open>The protocol of one answer\<close>

text \<open>
  Nobody has spoken; the application has, with these messages; the middleware answers, with what it
  has sent and what it still has to send.
\<close>

datatype voice = Nobody | Application "message list" | Middleware "message list" "message list"

text \<open>
  The application opens with its status line and goes on; the middleware only takes over while
  nobody has spoken, with the 504 or the 503 of a request the ceiling covers, and then says all of it.
\<close>

inductive voice_step :: "timeout_config \<Rightarrow> conn \<Rightarrow> voice \<Rightarrow> voice \<Rightarrow> bool" for cfg c where
  opens: "is_start m \<Longrightarrow> voice_step cfg c Nobody (Application [m])"
| speaks: "ms \<noteq> [] \<Longrightarrow> \<not> is_start m \<Longrightarrow> voice_step cfg c (Application ms) (Application (ms @ [m]))"
| times_out: "watched cfg c \<Longrightarrow> voice_step cfg c Nobody (Middleware [] (timeout_reply cfg c))"
| sheds: "watched cfg c \<Longrightarrow> sheddable cfg c \<Longrightarrow> voice_step cfg c Nobody (Middleware [] (overloaded_reply cfg c))"
| answers: "voice_step cfg c (Middleware w (m # ms)) (Middleware (w @ [m]) ms)"

inductive_cases voice_stepE: "voice_step cfg c v v'"

section \<open>The voice of a request in flight\<close>

definition app_voice :: "message list \<Rightarrow> voice" where
  "app_voice w = (if w = [] then Nobody else Application w)"

definition voice_of :: "request_state \<Rightarrow> message list \<Rightarrow> voice" where
  "voice_of r w =
    (case handler r of
      Replying ms \<Rightarrow> Middleware w ms
    | Returned \<Rightarrow> if muted r \<or> app r = Idle then Middleware w [] else app_voice w
    | _ \<Rightarrow> app_voice w)"

abbreviation voice_in :: "server \<Rightarrow> nat \<Rightarrow> voice" where
  "voice_in s i \<equiv> voice_of (reqs s i) (wire_of i s)"

text \<open>An application's first message is its status line.\<close>

definition opened :: "request_state \<Rightarrow> bool" where
  "opened r \<longleftrightarrow> (app_out r \<noteq> [] \<longrightarrow> list_ex is_start (app_out r))"

lemma loop_step_opened:
  assumes "loop_step cfg e s = Some s'" and "\<forall>i. opened (reqs s i)"
  shows "opened (reqs s' i)"
  using assms
  by (cases e) (auto simp: opened_def step_defs asgi_order_def fresh_request_def
      split: if_splits handler_state.splits list.splits)

text \<open>One lemma per event.\<close>

lemma arrive_voice:
  assumes "handler (reqs s i) = Unseen" and "request_inv cfg (reqs s i) (wire_of i s)"
  shows "voice_in (arrive cfg i c s) i = voice_in s i \<or>
    voice_step cfg (scope (reqs (arrive cfg i c s) i)) (voice_in s i) (voice_in (arrive cfg i c s) i)"
  using assms
  by (auto simp: arrive_def voice_of_def request_inv_def speaks_app_def fresh_request_def app_voice_def intro: voice_step.intros)

lemma app_sends_voice:
  assumes "app (reqs s i) = Running" and "asgi_order (app_out (reqs s i)) m"
    and "request_inv cfg (reqs s i) (wire_of i s)" and "opened (reqs s i)"
  shows "voice_in (app_sends i m s) i = voice_in s i \<or>
    voice_step cfg (scope (reqs (app_sends i m s) i)) (voice_in s i) (voice_in (app_sends i m s) i)"
proof -
  let ?w = "app_out (reqs s i)"
  have say: "voice_step cfg c (app_voice ?w) (app_voice (?w @ [m]))" for c
    using assms(2,4)
    by (cases "?w = []") (auto simp: app_voice_def asgi_order_def opened_def intro: voice_step.intros split: if_splits)
  show ?thesis
    using assms say
    by (cases "handler (reqs s i)") (auto simp: app_sends_def Let_def voice_of_def request_inv_def speaks_defs)
qed

lemma app_ends_voice:
  assumes "app (reqs s i) = Running" and "request_inv cfg (reqs s i) (wire_of i s)"
  shows "voice_in (app_ends i s) i = voice_in s i"
  using assms
  by (cases "handler (reqs s i)") (auto simp: app_ends_def Let_def voice_of_def request_inv_def speaks_defs)

lemma ceiling_voice:
  assumes "handler (reqs s i) = Watching" and "request_inv cfg (reqs s i) (wire_of i s)"
  shows "voice_in (ceiling_passes cfg i s) i = voice_in s i \<or>
    voice_step cfg (scope (reqs (ceiling_passes cfg i s) i)) (voice_in s i) (voice_in (ceiling_passes cfg i s) i)"
  using assms
  by (auto simp: ceiling_passes_def Let_def voice_of_def request_inv_def speaks_app_def app_voice_def intro: voice_step.intros)

lemma reply_voice:
  assumes "handler (reqs s i) = Replying (m # ms)" and "request_inv cfg (reqs s i) (wire_of i s)"
  shows "voice_step cfg (scope (reqs (send_reply i m ms s) i)) (voice_in s i) (voice_in (send_reply i m ms s) i)"
  using assms
  by (auto simp: send_reply_def voice_of_def request_inv_def speaks_defs intro: voice_step.intros)

lemma loop_step_voice:
  assumes "loop_step cfg e s = Some s'" and "server_inv cfg s" and "\<forall>i. opened (reqs s i)"
  shows "voice_in s' i = voice_in s i \<or> voice_step cfg (scope (reqs s' i)) (voice_in s i) (voice_in s' i)"
proof (cases "i = event_request e")
  case False
  with loop_step_frame [OF assms(1)] show ?thesis by simp
next
  case True
  have inv: "request_inv cfg (reqs s j) (wire_of j s)" for j using assms(2) by (simp add: server_inv_def)
  show ?thesis
  proof (cases e)
    case (Reply j)
    with assms(1) True reply_voice [OF _ inv [of j]] show ?thesis
      by (auto split: handler_state.splits list.splits)
  next
    case (Late j)
    with assms(1) True show ?thesis by (auto simp: log_late_finish_def split: if_splits)
  next
    case (App_Ends j)
    with assms(1) True app_ends_voice [OF _ inv [of j]] show ?thesis by (auto split: if_splits)
  next
    case (Arrive j c)
    with assms(1) True arrive_voice [OF _ inv [of j]] show ?thesis by (auto split: if_splits)
  next
    case (App_Sends j m)
    with assms(1) True assms(3) app_sends_voice [OF _ _ inv [of j]] show ?thesis by (auto split: if_splits)
  next
    case (Ceiling j)
    with assms(1) True ceiling_voice [OF _ inv [of j]] show ?thesis by (auto split: if_splits)
  qed
qed

section \<open>The loop implements the protocol\<close>

text \<open>
  A run in which the scopes of the requests are given in advance: a request's number fixes what it asks.
\<close>

definition scoped_step :: "timeout_config \<Rightarrow> (nat \<Rightarrow> conn) \<Rightarrow> server \<Rightarrow> server \<Rightarrow> bool" where
  "scoped_step cfg asked s s' \<longleftrightarrow>
    (\<exists>e. loop_step cfg e s = Some s' \<and> (\<forall>i c. e = Arrive i c \<longrightarrow> c = asked i))"

definition scopes_asked :: "(nat \<Rightarrow> conn) \<Rightarrow> server \<Rightarrow> bool" where
  "scopes_asked asked s \<longleftrightarrow> (\<forall>i. handler (reqs s i) \<noteq> Unseen \<longrightarrow> scope (reqs s i) = asked i)"

definition voices_keep :: "timeout_config \<Rightarrow> (nat \<Rightarrow> conn) \<Rightarrow> server \<Rightarrow> bool" where
  "voices_keep cfg asked s \<longleftrightarrow> server_inv cfg s \<and> (\<forall>i. opened (reqs s i)) \<and> scopes_asked asked s"

lemma scoped_step_keeps:
  assumes "voices_keep cfg asked s" and "scoped_step cfg asked s s'"
  shows "voices_keep cfg asked s'"
proof -
  obtain e where e: "loop_step cfg e s = Some s'" "\<forall>i c. e = Arrive i c \<longrightarrow> c = asked i"
    using assms(2) by (auto simp: scoped_step_def)
  have "server_inv cfg s'"
    using loop_step_abandoned_inv [OF e(1)] loop_step_request_inv [OF e(1)] assms(1)
    by (simp add: voices_keep_def server_inv_def)
  moreover have "scopes_asked asked s'"
    using e assms(1)
    by (cases e) (auto simp: voices_keep_def scopes_asked_def step_defs fresh_request_def
        split: if_splits handler_state.splits list.splits)
  ultimately show ?thesis
    using loop_step_opened [OF e(1)] assms(1) by (simp add: voices_keep_def)
qed

text \<open>An event concerns a request that has arrived by its end.\<close>

lemma voice_moves_seen:
  assumes "voices_keep cfg asked s" and "handler (reqs s i) = Unseen"
  shows "voice_in s i = Nobody"
  using assms by (auto simp: voices_keep_def server_inv_def request_inv_def voice_of_def speaks_app_def app_voice_def split: handler_state.splits)

lemma seen_stays: "loop_step cfg e s = Some s' \<Longrightarrow> handler (reqs s' i) = Unseen \<Longrightarrow> handler (reqs s i) = Unseen"
  by (cases e) (auto simp: step_defs fresh_request_def split: if_splits handler_state.splits list.splits)

interpretation answer: refinement "\<lambda>s. s = initial_server" "scoped_step cfg asked" "voices_keep cfg asked"
    "\<lambda>s. voice_in s i" "\<lambda>v. v = Nobody" "voice_step cfg (asked i)"
  for cfg asked i
proof unfold_locales
  fix s assume "s = initial_server"
  then show "voices_keep cfg asked s \<and> voice_in s i = Nobody"
    using initial_inv [of cfg]
    by (simp add: voices_keep_def scopes_asked_def opened_def initial_server_def fresh_request_def voice_of_def
        app_voice_def wire_of_def)
next
  fix s s' assume keep: "voices_keep cfg asked s" and step: "scoped_step cfg asked s s'"
  have keep': "voices_keep cfg asked s'" using scoped_step_keeps [OF keep step] .
  have "voice_in s' i = voice_in s i \<or> voice_step cfg (asked i) (voice_in s i) (voice_in s' i)"
  proof (cases "handler (reqs s' i) = Unseen")
    case True
    then have "handler (reqs s i) = Unseen" using step seen_stays by (auto simp: scoped_step_def)
    then show ?thesis using voice_moves_seen [OF keep] voice_moves_seen [OF keep' True] by simp
  next
    case False
    then have "scope (reqs s' i) = asked i" using keep' by (simp add: voices_keep_def scopes_asked_def)
    then show ?thesis
      using step loop_step_voice keep unfolding scoped_step_def voices_keep_def by metis
  qed
  with keep' show "voices_keep cfg asked s' \<and> (voice_in s' i = voice_in s i \<or> voice_step cfg (asked i) (voice_in s i) (voice_in s' i))"
    by simp
qed

fun said :: "voice \<Rightarrow> message list" where
  "said Nobody = []"
| "said (Application ms) = ms"
| "said (Middleware w ms) = w"

lemma said_voice: "said (voice_of r w) = w"
  by (simp add: voice_of_def app_voice_def split: handler_state.split)

text \<open>What the protocol alone guarantees of an answer.\<close>

fun proper_voice :: "timeout_config \<Rightarrow> conn \<Rightarrow> voice \<Rightarrow> bool" where
  "proper_voice cfg c Nobody = True"
| "proper_voice cfg c (Application ms) = (ms \<noteq> [] \<and> is_start (hd ms) \<and> list_all (\<lambda>m. \<not> is_start m) (tl ms))"
| "proper_voice cfg c (Middleware w ms) =
    (watched cfg c \<and> (w @ ms = timeout_reply cfg c \<or> sheddable cfg c \<and> w @ ms = overloaded_reply cfg c))"

lemma proper_voice_step: "proper_voice cfg c v \<Longrightarrow> voice_step cfg c v v' \<Longrightarrow> proper_voice cfg c v'"
  by (auto elim!: voice_stepE)

section \<open>Properties\<close>

text \<open>
  C24. The event loop implements, for every request at once, the protocol of one answer: in any run,
  however requests, applications, ceilings and replies interleave, each event moves the answer of a
  request by one step of the protocol or not at all; what the server has of the answer is what its
  voice has said, and is the status line and bodies of one application, or a prefix of the 504 or of
  the 503 of a request the ceiling covers.
\<close>

theorem loop_implements_protocol:
  assumes "(scoped_step cfg asked)\<^sup>*\<^sup>* initial_server s"
  shows "(voice_step cfg (asked i))\<^sup>*\<^sup>* Nobody (voice_in s i)
    \<and> said (voice_in s i) = wire_of i s \<and> proper_voice cfg (asked i) (voice_in s i)
    \<and> (scoped_step cfg asked s s' \<longrightarrow> voice_in s' i = voice_in s i \<or> voice_step cfg (asked i) (voice_in s i) (voice_in s' i))"
proof (intro conjI impI)
  have start: "voice_in initial_server i = Nobody"
    using answer.starts [of initial_server cfg asked i] by simp
  show "(voice_step cfg (asked i))\<^sup>*\<^sup>* Nobody (voice_in s i)"
    using answer.run_refines [OF refl assms, of i] start by simp
  show "said (voice_in s i) = wire_of i s" by (rule said_voice)
  show "proper_voice cfg (asked i) (voice_in s i)"
    by (rule answer.abs_invariant [OF _ _ refl assms]) (auto intro: proper_voice_step)
  assume "scoped_step cfg asked s s'"
  then show "voice_in s' i = voice_in s i \<or> voice_step cfg (asked i) (voice_in s i) (voice_in s' i)"
    using answer.steps answer.run_refines [OF refl assms] by blast
qed

lemma run_scoped:
  "run_events cfg es s = Some s' \<Longrightarrow> \<forall>i c. Arrive i c \<in> set es \<longrightarrow> c = asked i \<Longrightarrow> (scoped_step cfg asked)\<^sup>*\<^sup>* s s'"
proof (induction es arbitrary: s)
  case (Cons e es)
  then obtain t where t: "loop_step cfg e s = Some t" "run_events cfg es t = Some s'" by (auto split: option.splits)
  then have "scoped_step cfg asked s t" using Cons.prems(2) by (auto simp: scoped_step_def)
  moreover have "(scoped_step cfg asked)\<^sup>*\<^sup>* t s'" using Cons.IH [OF t(2)] Cons.prems(2) by simp
  ultimately show ?case by (rule converse_rtranclp_into_rtranclp)
qed simp

text \<open>A GET whose application sends nothing: the ceiling passes and the status line of the 504 is sent.\<close>

lemma loop_implements_protocol_witness:
  "\<exists>s. run_events sample_timeout_config [Arrive 0 get_scope, Ceiling 0, Reply 0] initial_server = Some s
    \<and> (voice_step sample_timeout_config get_scope)\<^sup>*\<^sup>* Nobody (voice_in s 0) \<and> muted (reqs s 0)"
proof -
  obtain s where s: "run_events sample_timeout_config [Arrive 0 get_scope, Ceiling 0, Reply 0] initial_server = Some s"
    and m: "muted (reqs s 0)"
    by (simp add: event_eval timeout_reply_def error_messages_def Let_def)
  have "(scoped_step sample_timeout_config (\<lambda>i. get_scope))\<^sup>*\<^sup>* initial_server s"
    by (rule run_scoped [OF s]) simp
  from loop_implements_protocol [OF this, of 0] s m show ?thesis by blast
qed

end
