(* ===== verification/Client_Memo.thy ===== *)
theory Client_Memo
  imports Clients Refinement
begin

text \<open>
  What the cache of \<open>netix_backend/http/clients.py\<close> promises its callers, as an abstract memo table whose
  steps are labelled with what each call is answered, and the proof that the factory's answers are
  those of the table.
\<close>

section \<open>The memo table\<close>

record memo =
  kept :: "cache_key \<rightharpoonup> client"
  builds :: nat

text \<open>
  What is seen of a history: a call under an identity, or without one when it does not cache, answered with
  a client or with an error; a call whose URL could not be resolved; a reset.
\<close>

datatype answer = Answered "cache_key option" "client option" | Unresolved | Forgotten

text \<open>
  An identity that has a client is answered with it. One that has none is answered with a new build, which
  is kept, or with an error. A call without an identity is answered with a new build or an error
  and keeps nothing. Only a reset forgets.
\<close>

inductive memo_step :: "memo \<Rightarrow> answer \<Rightarrow> memo \<Rightarrow> bool" where
  hit: "kept m k = Some c \<Longrightarrow> memo_step m (Answered (Some k) (Some c)) m"
| keep: "kept m k = None \<Longrightarrow> build_number c = builds m \<Longrightarrow>
    memo_step m (Answered (Some k) (Some c)) (m\<lparr>kept := (kept m)(k \<mapsto> c), builds := builds m + 1\<rparr>)"
| refused: "kept m k = None \<Longrightarrow> memo_step m (Answered (Some k) None) m"
| own: "build_number c = builds m \<Longrightarrow> memo_step m (Answered None (Some c)) (m\<lparr>builds := builds m + 1\<rparr>)"
| own_refused: "memo_step m (Answered None None) m"
| unresolved: "memo_step m Unresolved m"
| forgotten: "memo_step m Forgotten (m\<lparr>kept := Map.empty\<rparr>)"

inductive_cases memo_stepE: "memo_step m l m'"
inductive_cases memo_answerE: "memo_step m (Answered (Some k) r) m'"
inductive_cases memo_ownE: "memo_step m (Answered None r) m'"

definition empty_memo :: memo where
  "empty_memo = \<lparr>kept = Map.empty, builds = 0\<rparr>"

text \<open>
  What the answers so far say of the table: every client answered is an old build, what is kept was
  answered under its identity, and no build was answered under two.
\<close>

definition memo_log :: "answer list \<Rightarrow> memo \<Rightarrow> bool" where
  "memo_log ls m \<longleftrightarrow>
    (\<forall>k c. Answered k (Some c) \<in> set ls \<longrightarrow> build_number c < builds m) \<and>
    (\<forall>k c. kept m k = Some c \<longrightarrow> Answered (Some k) (Some c) \<in> set ls) \<and>
    (\<forall>k c l d. Answered k (Some c) \<in> set ls \<longrightarrow> Answered l (Some d) \<in> set ls \<longrightarrow>
      build_number c = build_number d \<longrightarrow> k = l \<and> c = d)"

lemma memo_logD:
  assumes "memo_log ls m"
  shows "Answered i (Some c) \<in> set ls \<Longrightarrow> build_number c < builds m"
    and "kept m k = Some c \<Longrightarrow> Answered (Some k) (Some c) \<in> set ls"
    and "Answered i (Some c) \<in> set ls \<Longrightarrow> Answered j (Some d) \<in> set ls \<Longrightarrow> build_number c = build_number d \<Longrightarrow> i = j \<and> c = d"
  using assms unfolding memo_log_def by blast+

lemma memo_log_empty: "memo_log [] empty_memo"
  by (simp add: memo_log_def empty_memo_def)

text \<open>A fresh build keeps the log, whether it is kept or not.\<close>

lemma memo_log_fresh:
  assumes "memo_log ls m" and "build_number c = builds m" and "builds m' = builds m + 1"
    and "\<And>j d. kept m' j = Some d \<Longrightarrow> kept m j = Some d \<or> k = Some j \<and> d = c"
  shows "memo_log (ls @ [Answered k (Some c)]) m'"
  unfolding memo_log_def
proof (intro conjI allI impI)
  fix j d
  assume "Answered j (Some d) \<in> set (ls @ [Answered k (Some c)])"
  then show "build_number d < builds m'" using assms(2,3) memo_logD(1) [OF assms(1)] by fastforce
next
  fix j d
  assume "kept m' j = Some d"
  then show "Answered (Some j) (Some d) \<in> set (ls @ [Answered k (Some c)])"
    using assms(1,4) memo_logD by (metis Un_iff list.set_intros(1) set_append)
next
  fix j d l d'
  assume in_log: "Answered j (Some d) \<in> set (ls @ [Answered k (Some c)])" "Answered l (Some d') \<in> set (ls @ [Answered k (Some c)])"
    and same: "build_number d = build_number d'"
  have old: "Answered i (Some e) \<in> set ls \<Longrightarrow> build_number e \<noteq> build_number c" for i e
    using assms(2) memo_logD(1) [OF assms(1)] by fastforce
  show "j = l" and "d = d'"
    using in_log same old [of j d] old [of l d'] memo_logD(3) [OF assms(1)] by auto
qed

lemma memo_log_step:
  assumes "memo_log ls m" and "memo_step m l m'"
  shows "memo_log (ls @ [l]) m'"
  using assms(2)
proof (cases rule: memo_step.cases)
  case (hit k c)
  with memo_logD(2) [OF assms(1)] have "l \<in> set ls" by simp
  then have "set (ls @ [l]) = set ls" by auto
  with assms(1) hit(2) show ?thesis unfolding memo_log_def by presburger
next
  case (keep k c)
  then have "memo_log (ls @ [Answered (Some k) (Some c)]) m'"
    by (intro memo_log_fresh [OF assms(1)]) (auto split: if_splits)
  with keep show ?thesis by simp
next
  case (own c)
  with memo_log_fresh [OF assms(1), of c m' None] show ?thesis by simp
qed (use assms(1) in \<open>auto simp: memo_log_def\<close>)

lemma builds_grow: "traced memo_step m ls m' \<Longrightarrow> builds m \<le> builds m'"
  by (induction rule: traced.induct) (auto elim!: memo_stepE)

lemma kept_until_forgotten:
  "traced memo_step m ls m' \<Longrightarrow> Forgotten \<notin> set ls \<Longrightarrow> kept m k = Some c \<Longrightarrow> kept m' k = Some c"
proof (induction rule: traced.induct)
  case (traced_next a l b ls d)
  then have "kept b k = Some c" by (auto elim!: memo_stepE)
  with traced_next show ?case by simp
qed

text \<open>An identity answered with a client is answered with that client until a reset.\<close>

lemma traced_shared:
  assumes "traced memo_step m (xs @ Answered (Some k) (Some c) # ys @ Answered (Some k) r # zs) m'"
    and "Forgotten \<notin> set ys"
  shows "r = Some c"
proof -
  from assms(1) obtain m1 m2 m3 m4 where "memo_step m1 (Answered (Some k) (Some c)) m2"
    and ys: "traced memo_step m2 ys m3" and again: "memo_step m3 (Answered (Some k) r) m4" by auto
  then have "kept m2 k = Some c" by (auto elim: memo_answerE)
  with kept_until_forgotten [OF ys assms(2)] have "kept m3 k = Some c" by simp
  with again show ?thesis by (auto elim: memo_answerE)
qed

text \<open>A build answered without an identity is new.\<close>

lemma traced_own:
  assumes "traced memo_step empty_memo (xs @ Answered None (Some c) # ys) m" and "Answered k (Some d) \<in> set xs"
  shows "build_number d < build_number c"
proof -
  from assms(1) obtain m1 m2 where xs: "traced memo_step empty_memo xs m1"
    and own: "memo_step m1 (Answered None (Some c)) m2" by auto
  have "memo_log xs m1"
    using traced_invariant [where P = memo_log and past = "[]", OF xs memo_log_empty memo_log_step] by simp
  with assms(2) own show ?thesis by (auto simp: memo_log_def elim: memo_ownE)
qed

section \<open>The factory implements it\<close>

definition memo_of :: "factory \<Rightarrow> memo" where
  "memo_of f = \<lparr>kept = dict_get (client_cache f), builds = constructions f\<rparr>"

definition result :: "client res \<Rightarrow> client option" where
  "result r = (case r of Inl e \<Rightarrow> None | Inr c \<Rightarrow> Some c)"

text \<open>What the caller of an event sees.\<close>

definition answer_of :: "factory_event \<Rightarrow> factory \<Rightarrow> answer" where
  "answer_of e f =
    (case e of
      Reset_Cache \<Rightarrow> Forgotten
    | Build w cls a \<Rightarrow>
        (case fst (client_url w a f) of
          Inl _ \<Rightarrow> Unresolved
        | Inr url \<Rightarrow> Answered (if use_cache a then Some (cache_key cls a url) else None)
            (result (fst (build_client w cls a f)))))"

definition answers :: "factory_event list \<Rightarrow> answer list" where
  "answers es = observed factory_step answer_of es fresh_factory"

lemma memo_of_fresh: "memo_of fresh_factory = empty_memo"
  by (simp add: memo_of_def empty_memo_def fresh_factory_def fun_eq_iff)

lemma memo_of_reset: "memo_of (reset_client_cache f) = (memo_of f)\<lparr>kept := Map.empty\<rparr>"
  by (simp add: memo_of_def reset_client_cache_def fun_eq_iff)

lemma memo_of_build:
  assumes "build_client w cls a f = (r, f')"
  shows "memo_step (memo_of f) (answer_of (Build w cls a) f) (memo_of f')"
  using assms
proof (cases rule: build_client_cases)
  case (failed e)
  then have same: "memo_of f' = memo_of f" by (simp add: memo_of_def)
  show ?thesis
  proof (cases "fst (client_url w a f)")
    case (Inr url)
    have "dict_get (client_cache f) (cache_key cls a url) = None" if "use_cache a"
      using build_cached [OF that Inr, of cls] failed(1) assms
      by (cases "dict_get (client_cache f) (cache_key cls a url)") auto
    with Inr failed assms same show ?thesis
      by (auto simp: answer_of_def result_def memo_of_def intro: memo_step.intros)
  qed (simp add: same answer_of_def memo_step.unresolved)
next
  case (own url c)
  then have "build_number c = builds (memo_of f)" "memo_of f' = (memo_of f)\<lparr>builds := builds (memo_of f) + 1\<rparr>"
    using construct_client_settings(2) by (auto simp: memo_of_def)
  with own assms memo_step.own show ?thesis by (simp add: answer_of_def result_def)
next
  case (hit url c)
  then have "memo_of f' = memo_of f" "kept (memo_of f) (cache_key cls a url) = Some c" by (simp_all add: memo_of_def)
  with hit assms memo_step.hit show ?thesis by (simp add: answer_of_def result_def)
next
  case (kept url c)
  then have "build_number c = builds (memo_of f)" "memo.kept (memo_of f) (cache_key cls a url) = None"
    "memo_of f' = (memo_of f)\<lparr>kept := (memo.kept (memo_of f))(cache_key cls a url \<mapsto> c),
      builds := builds (memo_of f) + 1\<rparr>"
    using construct_client_settings(2) by (auto simp: memo_of_def dict_simps fun_eq_iff simp del: split_paired_All)
  with kept assms memo_step.keep show ?thesis by (simp add: answer_of_def result_def)
qed

interpretation memo: trace_refinement factory_step answer_of memo_of memo_step
proof
  fix f e
  show "memo_step (memo_of f) (answer_of e f) (memo_of (factory_step e f))"
  proof (cases e)
    case (Build w cls a)
    with memo_of_build [of w cls a f] show ?thesis
      by (cases "build_client w cls a f") (simp add: factory_step_def)
  next
    case Reset_Cache
    then show ?thesis by (simp add: answer_of_def factory_step_def memo_of_reset memo_step.forgotten)
  qed
qed

lemma answers_traced: "traced memo_step empty_memo (answers es) (memo_of (factory_run es fresh_factory))"
  using memo.run_traced [of fresh_factory es] by (simp add: answers_def factory_run_def memo_of_fresh)

lemma answers_logged: "memo_log (answers es) (memo_of (factory_run es fresh_factory))"
  using memo.run_invariant [of memo_log fresh_factory es, OF _ memo_log_step] memo_log_empty
  by (simp add: answers_def factory_run_def memo_of_fresh)

section \<open>Properties\<close>

text \<open>
  C33. The answers of the factory to any history of calls and resets are those of a memo table of numbered
  builds. A client is never answered under two identities, nor to a call that does not cache and to any
  other call. And once an identity has been answered with a client, every call under it is answered with that
  client until a reset.
\<close>

theorem factory_implements_memo:
  "traced memo_step empty_memo (answers es) (memo_of (factory_run es fresh_factory)) \<and>
   (answers es = xs @ Answered k (Some c) # ys @ Answered l (Some d) # zs \<and> build_number c = build_number d \<longrightarrow>
      k = l \<and> k \<noteq> None \<and> c = d) \<and>
   (answers es = xs @ Answered (Some i) (Some c) # ys @ Answered (Some i) r # zs \<and> Forgotten \<notin> set ys \<longrightarrow>
      r = Some c)"
proof (intro conjI impI)
  show traced: "traced memo_step empty_memo (answers es) (memo_of (factory_run es fresh_factory))"
    by (rule answers_traced)
  {
    assume two: "answers es = xs @ Answered k (Some c) # ys @ Answered l (Some d) # zs \<and> build_number c = build_number d"
    then show same: "k = l" and "c = d" using answers_logged [of es] unfolding memo_log_def by auto
    show "k \<noteq> None"
    proof
      assume "k = None"
      with two same traced have "traced memo_step empty_memo
          ((xs @ Answered None (Some c) # ys) @ Answered None (Some d) # zs) (memo_of (factory_run es fresh_factory))"
        by simp
      from traced_own [OF this, of None c] two show False by simp
    qed
  }
  assume "answers es = xs @ Answered (Some i) (Some c) # ys @ Answered (Some i) r # zs \<and> Forgotten \<notin> set ys"
  with traced traced_shared show "r = Some c" by metis
qed

section \<open>Witnesses\<close>

text \<open>Two callers of one identity, with different retries: the second is answered with the first one's client.\<close>

lemma factory_implements_memo_witness:
  "\<exists>k c. answers [Build sample_world sample_class (sample_args (Some 2)), Build sample_world sample_class (sample_args (Some 0))] =
      [Answered (Some k) (Some c), Answered (Some k) (Some c)] \<and>
    k = cache_key sample_class (sample_args (Some 2)) ''http://x''"
proof -
  let ?two = "[Build sample_world sample_class (sample_args (Some 2)), Build sample_world sample_class (sample_args (Some 0))]"
  let ?k = "cache_key sample_class (sample_args (Some 2)) ''http://x''"
  obtain c f1 where "build_client sample_world sample_class (sample_args (Some 2)) fresh_factory = (Inr c, f1)"
    using sample_built [of 2] by auto
  then obtain r where a: "answers ?two = [Answered (Some ?k) (Some c), Answered (Some ?k) r]"
    by (simp add: answers_def answer_of_def sample_url sample_shared_key result_def)
  with factory_implements_memo [of ?two "[]" "Some ?k" c "[]" "Some ?k" c "[]" ?k r] show ?thesis by simp
qed

end
