(* ===== verification/Transports.thy ===== *)
theory Transports
  imports Clients
begin

text \<open>
  The transport classes of \<open>netix_backend/http/retry.py\<close> over the shared policy, their log lines, and
  what a generated client sends through them (\<open>http/clients.py\<close>). The transport below, httpx's own or
  an injected one, is the world the policy's loop runs against; how httpx spells a URL and how \<open>%.2f\<close>
  spells a number are arguments.
\<close>

section \<open>Log lines\<close>

record url_parts =
  url_scheme :: string
  url_userinfo :: string
  url_host :: string
  url_path :: string
  url_query :: "string option"
  url_fragment :: "string option"

definition log_target :: "(url_parts \<Rightarrow> string) \<Rightarrow> url_parts \<Rightarrow> string" where
  "log_target url_str u = url_str (u\<lparr>url_query := None, url_fragment := None\<rparr>)"

text \<open>The name of an exception's type; those the transports retry are the library's own.\<close>

definition log_status_retry ::
    "(url_parts \<Rightarrow> string) \<Rightarrow> (pyfloat \<Rightarrow> string) \<Rightarrow> url_parts \<Rightarrow> int \<Rightarrow> pyfloat \<Rightarrow> int \<Rightarrow> int \<Rightarrow> string" where
  "log_status_retry url_str fixed2 u status delay attempt budget =
    ''Request to '' @ log_target url_str u @ '' returned status '' @ int_str status @ ''; retrying in '' @ fixed2 delay @
    ''s ('' @ int_str attempt @ ''/'' @ int_str budget @ '')''"

definition log_exception_retry ::
    "(url_parts \<Rightarrow> string) \<Rightarrow> (pyfloat \<Rightarrow> string) \<Rightarrow> (exc \<Rightarrow> string) \<Rightarrow> url_parts \<Rightarrow> exc \<Rightarrow> pyfloat \<Rightarrow> int \<Rightarrow> int \<Rightarrow> string" where
  "log_exception_retry url_str fixed2 type_name u e delay attempt budget =
    ''Request to '' @ log_target url_str u @ '' failed with '' @ type_name e @ ''; retrying in '' @ fixed2 delay @
    ''s ('' @ int_str attempt @ ''/'' @ int_str budget @ '')''"

definition log_status_exhausted :: "(url_parts \<Rightarrow> string) \<Rightarrow> url_parts \<Rightarrow> int \<Rightarrow> int \<Rightarrow> string" where
  "log_status_exhausted url_str u status attempts =
    ''Request to '' @ log_target url_str u @ '' still returned status '' @ int_str status @ '' after '' @
    int_str attempts @ '' attempt(s)''"

definition log_exception_exhausted :: "(url_parts \<Rightarrow> string) \<Rightarrow> (exc \<Rightarrow> string) \<Rightarrow> url_parts \<Rightarrow> exc \<Rightarrow> int \<Rightarrow> string" where
  "log_exception_exhausted url_str type_name u e attempts =
    ''Request to '' @ log_target url_str u @ '' failed with '' @ type_name e @ '' after '' @ int_str attempts @ '' attempt(s)''"

datatype log_level = Warning | Error

text \<open>What a call writes to the log, from the events of its loop.\<close>

fun log_line ::
    "(url_parts \<Rightarrow> string) \<Rightarrow> (pyfloat \<Rightarrow> string) \<Rightarrow> (exc \<Rightarrow> string) \<Rightarrow> url_parts \<Rightarrow> event \<Rightarrow> (log_level \<times> string) list" where
  "log_line url_str fixed2 type_name u (Warn_Status s d k n) = [(Warning, log_status_retry url_str fixed2 u s d k n)]"
| "log_line url_str fixed2 type_name u (Warn_Exception e d k n) =
    [(Warning, log_exception_retry url_str fixed2 type_name u e d k n)]"
| "log_line url_str fixed2 type_name u (Error_Status s k) = [(Error, log_status_exhausted url_str u s k)]"
| "log_line url_str fixed2 type_name u (Error_Exception e k) = [(Error, log_exception_exhausted url_str type_name u e k)]"
| "log_line url_str fixed2 type_name u e = []"

definition call_log ::
    "(url_parts \<Rightarrow> string) \<Rightarrow> (pyfloat \<Rightarrow> string) \<Rightarrow> (exc \<Rightarrow> string) \<Rightarrow> url_parts \<Rightarrow> event list \<Rightarrow> (log_level \<times> string) list" where
  "call_log url_str fixed2 type_name u es = concat (map (log_line url_str fixed2 type_name u) es)"

section \<open>The transport classes\<close>

text \<open>
  A transport is its policy over the transport below: httpx's own pool for the two subclasses, an
  injected transport for the wrapper, whose \<open>close\<close> closes that one.
\<close>

datatype below = Own_Pool | Injected nat

record retry_transport =
  policy :: retry_policy
  below :: below

definition RetryTransport ::
    "environ \<Rightarrow> bound_settings \<Rightarrow> int option \<Rightarrow> pyfloat option \<Rightarrow> bool \<Rightarrow> pyfloat \<Rightarrow> retry_transport res" where
  "RetryTransport env b r f non_idem max_after =
    rbind (init_policy env b r f non_idem max_after) (\<lambda>p. Inr \<lparr>policy = p, below = Own_Pool\<rparr>)"

definition RetryTransportWrapper ::
    "environ \<Rightarrow> bound_settings \<Rightarrow> nat \<Rightarrow> int option \<Rightarrow> pyfloat option \<Rightarrow> bool \<Rightarrow> pyfloat \<Rightarrow> retry_transport res" where
  "RetryTransportWrapper env b t r f non_idem max_after =
    rbind (init_policy env b r f non_idem max_after) (\<lambda>p. Inr \<lparr>policy = p, below = Injected t\<rparr>)"

definition handle_request ::
    "retry_transport \<Rightarrow> string \<Rightarrow> (below \<Rightarrow> ('a http_response_scheme) world) \<Rightarrow> (exc + 'a http_response_scheme) \<times> event list" where
  "handle_request t m sends = send_with_retries (policy t) m (sends (below t))"

definition handle_async_request ::
    "retry_transport \<Rightarrow> string \<Rightarrow> (below \<Rightarrow> ('a http_response_scheme) world) \<Rightarrow> (exc + 'a http_response_scheme) \<times> event list" where
  "handle_async_request t m sends = asend_with_retries (policy t) m (sends (below t))"

definition close_transport :: "retry_transport \<Rightarrow> nat list \<Rightarrow> nat list" where
  "close_transport t released = (case below t of Injected i \<Rightarrow> released @ [i] | Own_Pool \<Rightarrow> released)"

text \<open>\<open>{"transport": get_retry_transport(), **extra}\<close>: an extra \<open>transport\<close> replaces the retrying one.\<close>

datatype 'v httpx_arg = Retrying retry_transport | Extra 'v

definition get_retry_transport :: "environ \<Rightarrow> bound_settings \<Rightarrow> retry_transport res" where
  "get_retry_transport env b = RetryTransport env b None None False MAX_RETRY_AFTER_SECONDS"

definition interservice_httpx_args ::
    "environ \<Rightarrow> bound_settings \<Rightarrow> (string, 'v) dict \<Rightarrow> (string, 'v httpx_arg) dict res" where
  "interservice_httpx_args env b extra =
    rbind (get_retry_transport env b) (\<lambda>t.
      Inr (dict_update [(''transport'', Retrying t)] (map (\<lambda>(k, v). (k, Extra v)) extra)))"

section \<open>What a built client sends\<close>

text \<open>A call of a generated client goes through the transport its construction was given.\<close>

definition client_request ::
    "client \<Rightarrow> string \<Rightarrow> ('a http_response_scheme) world \<Rightarrow> (exc + 'a http_response_scheme) \<times> event list" where
  "client_request c m w = send_with_retries (tr_policy (client_transport (settings c))) m w"

section \<open>Lemmas\<close>

lemma construct_client_policy:
  assumes "construct_client env bound cls n url keys a = Inr c"
  shows "init_policy env bound (retry_count a) None False MAX_RETRY_AFTER_SECONDS =
    Inr (tr_policy (client_transport (settings c)))"
  using assms by (auto simp: construct_client_def res_simps Let_def split: option.splits)

lemma log_lines_hide_query:
  "log_line url_str fixed2 type_name (u\<lparr>url_query := q, url_fragment := g\<rparr>) = log_line url_str fixed2 type_name u"
proof (rule ext)
  show "log_line url_str fixed2 type_name (u\<lparr>url_query := q, url_fragment := g\<rparr>) e = log_line url_str fixed2 type_name u e" for e
    by (cases e) (simp_all add: log_status_retry_def log_exception_retry_def log_status_exhausted_def
        log_exception_exhausted_def log_target_def)
qed

abbreviation levels :: "event list \<Rightarrow> log_level list" where
  "levels es \<equiv> concat (map (\<lambda>e. case e of Warn_Status s d k n \<Rightarrow> [Warning] | Warn_Exception x d k n \<Rightarrow> [Warning]
    | Error_Status s k \<Rightarrow> [Error] | Error_Exception x k \<Rightarrow> [Error] | _ \<Rightarrow> []) es)"

lemma call_log_levels: "map fst (call_log url_str fixed2 type_name u es) = levels es"
proof (induction es)
  case (Cons e es)
  then show ?case by (cases e) (simp_all add: call_log_def)
qed (simp add: call_log_def)

lemma turn_levels:
  "levels (turn_trace p m sleep w k) =
    (if \<not> retried p m (send w k) then [] else if int k < retries p then [Warning] else [Error])"
  by (auto simp: turn_trace_def attempt_turn_def retried_def Let_def split: sum.splits turn.splits option.splits if_splits)

lemma loop_levels:
  assumes "sane_policy p w" and "no_nan_header w" and "accepts_delays sleep"
  shows "levels (snd (retry_loop p m sleep w 0)) =
    (let n = length (attempts_of (snd (retry_loop p m sleep w 0))) - 1 in
     replicate n Warning @ (if retried p m (send w n) then [Error] else []))"
proof -
  from transport.run_first_stop [of 0 p m sleep w] obtain n r where
    before: "\<forall>i. i < n \<longrightarrow> turn_stop p m sleep w i = None" and at: "turn_stop p m sleep w n = Some r"
    and run: "retry_loop p m sleep w 0 = (r, concat (map (turn_trace p m sleep w) [0..<Suc n]))"
    by auto
  have "levels (turn_trace p m sleep w i) = [Warning]" if "i < n" for i
    using turn_goes_on [of p m sleep w i] before that by (simp add: turn_levels)
  then have "levels (concat (map (turn_trace p m sleep w) [0..<k])) = replicate k Warning" if "k \<le> n" for k
    using that by (induction k) (simp_all add: replicate_append_same)
  then have "levels (snd (retry_loop p m sleep w 0)) = replicate n Warning @ levels (turn_trace p m sleep w n)"
    by (simp add: run)
  moreover have "levels (turn_trace p m sleep w n) = (if retried p m (send w n) then [Error] else [])"
    using turn_stops_with_outcome [OF assms at] by (auto simp: turn_levels)
  moreover have "attempts_of (snd (retry_loop p m sleep w 0)) = [0..<Suc n]"
    by (simp add: run attempts_of_concat comp_def turn_attempts)
  ultimately show ?thesis by (simp add: Let_def)
qed

text \<open>A client's policy is the one of some call, which leaves non-idempotent requests alone.\<close>

lemma client_policy_origin:
  fixes w :: outside
  assumes "build_client w cls a (factory_run es fresh_factory) = (Inr c, f')"
  shows "\<exists>(w'::outside) b. init_policy (out_env w') (out_bound w') (retry_count b) None False MAX_RETRY_AFTER_SECONDS =
      Inr (tr_policy (client_transport (settings c))) \<and> (\<not> use_cache a \<longrightarrow> b = a)"
  using assms
proof (cases rule: build_client_cases)
  case (own url d)
  then show ?thesis using construct_client_policy by blast
next
  case (hit url d)
  then have "provenance es (cache_key cls a url) c"
    using cache_okD [OF cache_ok_history, of es] by simp
  then show ?thesis using construct_client_policy hit unfolding provenance_def by blast
next
  case (kept url d)
  then show ?thesis using construct_client_policy by blast
qed simp

lemma init_policy_fields:
  assumes "init_policy env b r f non_idem max_after = Inr p"
  shows "retry_non_idempotent p = non_idem" and "max_retry_after p = max_after" and "r = Some n \<Longrightarrow> retries p = n"
  using assms by (auto simp: init_policy_def res_simps split: option.splits)

section \<open>Properties\<close>

text \<open>
  C20. What a generated client sends: through a client any history of builds hands out, a call is
  attempted without gaps at most one more time than the client's retries, answers with the last
  attempt's outcome, waits at most the thirty-second cap asked by a server, and sends a request that is
  not idempotent again only after a retryable transport error; a client built outside the cache has
  the retries its own caller asked for.
\<close>

theorem client_calls_follow_policy:
  assumes "build_client w cls a (factory_run es fresh_factory) = (Inr c, f')"
    and "p = tr_policy (client_transport (settings c))" and "sane_policy p net" and "no_nan_header net"
  shows "\<exists>n. int n \<le> max 0 (retries p) \<and> fst (client_request c m net) = send net n
    \<and> attempts_of (snd (client_request c m net)) = [0..<Suc n]
    \<and> (\<not> is_idempotent_method m \<longrightarrow> (\<forall>i < n. \<exists>e. send net i = Inl e \<and> retryable_exc e))
    \<and> max_retry_after p = MAX_RETRY_AFTER_SECONDS
    \<and> (\<forall>r. \<not> use_cache a \<longrightarrow> retry_count a = Some r \<longrightarrow> retries p = r)"
proof -
  obtain w' :: outside and b where origin: "init_policy (out_env w') (out_bound w') (retry_count b) None False MAX_RETRY_AFTER_SECONDS = Inr p"
    and b: "\<not> use_cache a \<longrightarrow> b = a"
    using client_policy_origin [OF assms(1)] assms(2) by blast
  have "\<exists>e. send net i = Inl e \<and> retryable_exc e" if "retried p m (send net i)" "\<not> is_idempotent_method m" for i
    using that init_policy_fields(1) [OF origin]
    by (auto simp: retried_def should_retry_def should_retry_status_def split: sum.splits if_splits)
  then show ?thesis
    using loop_outcome [OF assms(3,4) accepts_delays_sleeps(1), of m] init_policy_fields(2,3) [OF origin] b
    by (simp add: client_request_def send_with_retries_def assms(2) [symmetric]) metis
qed

text \<open>
  The log of a call tells its retries and never the query string: every retry writes one warning, a
  call that ends on an outcome it would have retried writes one error last, and two calls of
  URLs that differ in query and fragment only write the same lines.
\<close>

theorem log_hides_query:
  assumes "sane_policy (policy t) (sends (below t))" and "no_nan_header (sends (below t))"
    and "run = handle_request t m sends \<or> run = handle_async_request t m sends"
  shows "call_log url_str fixed2 type_name (u\<lparr>url_query := q, url_fragment := g\<rparr>) (snd run) =
      call_log url_str fixed2 type_name u (snd run) \<and>
    (\<exists>n. length (attempts_of (snd run)) = Suc n \<and> fst run = send (sends (below t)) n \<and>
      map fst (call_log url_str fixed2 type_name u (snd run)) =
        replicate n Warning @ (if retried (policy t) m (fst run) then [Error] else []))"
proof -
  have "\<exists>sleep. accepts_delays sleep \<and> run = retry_loop (policy t) m sleep (sends (below t)) 0"
    using assms(3) accepts_delays_sleeps
    by (auto simp: handle_request_def handle_async_request_def send_with_retries_def asend_with_retries_def)
  then obtain sleep where s: "accepts_delays sleep" and run: "run = retry_loop (policy t) m sleep (sends (below t)) 0" by blast
  from loop_outcome [OF assms(1,2) s, of m] loop_levels [OF assms(1,2) s, of m]
  show ?thesis
    by (auto simp: run call_log_levels Let_def call_log_def [of _ _ _ "u\<lparr>url_query := q, url_fragment := g\<rparr>"]
        log_lines_hide_query call_log_def [of _ _ _ u, symmetric])
qed

text \<open>A client built from an empty cache with two retries, and a server that answers 503 once.\<close>

lemma sample_client_policy:
  assumes "build_client Clients.sample_world Clients.sample_class (sample_args (Some 2)) (factory_run [] fresh_factory) = (Inr c, f')"
  shows "tr_policy (client_transport (settings c)) = Retry.sample_policy"
proof -
  have e: "out_env Clients.sample_world BACKOFF_ENV = None \<or> True" by simp
  obtain url where "construct_client (out_env Clients.sample_world) (out_bound Clients.sample_world) Clients.sample_class
      (constructions fresh_factory) url (resolved_keys (sample_args (Some 2))) (sample_args (Some 2)) = Inr c"
    using assms by (cases rule: build_client_cases) (auto simp: factory_run_def fresh_factory_def)
  from construct_client_policy [OF this] show ?thesis
    by (auto simp: init_policy_def default_backoff_def env_float_def lookup_def BACKOFF_ENV_def text_eval float_eval
        DEFAULT_BACKOFF_FACTOR_def split: if_splits)
qed

lemma client_calls_follow_policy_witness:
  "\<exists>c f' n. build_client Clients.sample_world Clients.sample_class (sample_args (Some 2)) (factory_run [] fresh_factory) = (Inr c, f')
    \<and> int n \<le> 2 \<and> attempts_of (snd (client_request c ''GET'' (Retry.sample_world (Some ''1'')))) = [0..<Suc n]"
proof -
  obtain c f' where b: "build_client Clients.sample_world Clients.sample_class (sample_args (Some 2)) (factory_run [] fresh_factory) = (Inr c, f')"
    using sample_built [of 2] by (auto simp: factory_run_def)
  from client_calls_follow_policy [OF b sample_client_policy [OF b, symmetric] sane_sample no_nan_sample, of "''GET''"] b
  show ?thesis by auto
qed

lemma log_hides_query_witness:
  "\<forall>url_str fixed2 type_name u q g.
    call_log url_str fixed2 type_name (u\<lparr>url_query := q, url_fragment := g\<rparr>)
      (snd (handle_request \<lparr>policy = Retry.sample_policy, below = Own_Pool\<rparr> ''GET'' (\<lambda>b. Retry.sample_world (Some ''1'')))) =
    call_log url_str fixed2 type_name u
      (snd (handle_request \<lparr>policy = Retry.sample_policy, below = Own_Pool\<rparr> ''GET'' (\<lambda>b. Retry.sample_world (Some ''1''))))"
proof (intro allI)
  fix url_str fixed2 type_name u q g
  let ?t = "\<lparr>policy = Retry.sample_policy, below = Own_Pool\<rparr>" and ?net = "\<lambda>b. Retry.sample_world (Some ''1'')"
  have "sane_policy (policy ?t) (?net (below ?t))" "no_nan_header (?net (below ?t))"
    using sane_sample no_nan_sample by simp_all
  from log_hides_query [OF this disjI1 [OF refl], THEN conjunct1]
  show "call_log url_str fixed2 type_name (u\<lparr>url_query := q, url_fragment := g\<rparr>) (snd (handle_request ?t ''GET'' ?net)) =
      call_log url_str fixed2 type_name u (snd (handle_request ?t ''GET'' ?net))" .
qed

end
