(* ===== verification/Excel_Styles.thy ===== *)
theory Excel_Styles
  imports Py_Value
begin

text \<open>
  The style presets of \<open>netix_backend/django/excel.py\<close>. A style is a dictionary of dictionaries, and
  \<open>excel_style\<close> promises a private copy: that is about aliasing, so dictionaries live in an explicit
  heap, a dictionary's address is its position there, and every \<open>dict(...)\<close> and \<open>deepcopy\<close> allocates.
\<close>

section \<open>Dictionaries on a heap\<close>

datatype cell = Leaf pyval | Ref nat

type_synonym heap_dict = "(string, cell) dict"

type_synonym dict_heap = "heap_dict list"

text \<open>What a cell means: a value, or a nested dictionary. A preset is written down as one.\<close>

datatype style_tree = Plain pyval | Nested "(string \<times> style_tree) list"

text \<open>A dictionary display allocates its values in order, then itself.\<close>

fun alloc :: "style_tree \<Rightarrow> dict_heap \<Rightarrow> cell \<times> dict_heap"
  and alloc_items :: "(string \<times> style_tree) list \<Rightarrow> dict_heap \<Rightarrow> heap_dict \<times> dict_heap" where
  "alloc (Plain v) h = (Leaf v, h)"
| "alloc (Nested kts) h = (let (d, h') = alloc_items kts h in (Ref (length h'), h' @ [d]))"
| "alloc_items [] h = ([], h)"
| "alloc_items ((k, t) # kts) h =
    (let (c, h1) = alloc t h; (d, h2) = alloc_items kts h1 in ((k, c) # d, h2))"

text \<open>Reading a cell down to a depth; a dangling address or a deeper one reads as nothing.\<close>

fun read_cell :: "nat \<Rightarrow> dict_heap \<Rightarrow> cell \<Rightarrow> style_tree option"
  and read_items :: "nat \<Rightarrow> dict_heap \<Rightarrow> heap_dict \<Rightarrow> (string \<times> style_tree) list option" where
  "read_cell depth h (Leaf v) = Some (Plain v)"
| "read_cell 0 h (Ref a) = None"
| "read_cell (Suc depth) h (Ref a) =
    (if a < length h then map_option Nested (read_items depth h (h ! a)) else None)"
| "read_items depth h [] = Some []"
| "read_items depth h ((k, c) # d) =
    (case (read_cell depth h c, read_items depth h d) of
      (Some t, Some kts) \<Rightarrow> Some ((k, t) # kts)
    | _ \<Rightarrow> None)"

text \<open>
  \<open>copy.deepcopy\<close> of a nest no deeper than the heap is large: every dictionary of it is allocated anew.
\<close>

definition deepcopy :: "dict_heap \<Rightarrow> cell \<Rightarrow> (cell \<times> dict_heap) option" where
  "deepcopy h c = map_option (\<lambda>t. alloc t h) (read_cell (length h) h c)"

section \<open>Presets\<close>

definition BORDER_SIDE :: "(string \<times> style_tree) list" where
  "BORDER_SIDE = [(''border_style'', Plain (VStr ''thin'')), (''color'', Plain (VStr ''FF000000''))]"

definition WRAP_ALIGNMENT :: "(string \<times> style_tree) list" where
  "WRAP_ALIGNMENT = [(''horizontal'', Plain (VStr ''left'')), (''vertical'', Plain (VStr ''center'')),
    (''wrapText'', Plain (VBool True)), (''shrink_to_fit'', Plain (VBool True))]"

definition preset :: "string \<Rightarrow> int \<Rightarrow> int \<Rightarrow> style_tree" where
  "preset font header_size body_size = Nested
    [(''column_header'', Nested
        [(''height'', Plain (VInt 25)),
         (''style'', Nested
            [(''border_side'', Nested BORDER_SIDE),
             (''font'', Nested [(''name'', Plain (VStr font)), (''size'', Plain (VInt header_size)),
                (''bold'', Plain (VBool True)), (''color'', Plain (VStr ''FF000000''))])])]),
     (''body'', Nested
        [(''height'', Plain (VInt 40)),
         (''style'', Nested
            [(''border_side'', Nested BORDER_SIDE),
             (''font'', Nested [(''name'', Plain (VStr font)), (''size'', Plain (VInt body_size)),
                (''bold'', Plain (VBool False)), (''color'', Plain (VStr ''FF000000''))])])])]"

definition EXCEL_STYLE_ARIAL :: style_tree where "EXCEL_STYLE_ARIAL = preset ''Arial'' 14 14"
definition EXCEL_STYLE_APTOS :: style_tree where "EXCEL_STYLE_APTOS = preset ''Aptos Narrow'' 14 11"

section \<open>A private copy\<close>

text \<open>\<open>d[k]\<close> where \<open>d\<close> and the value are dictionaries.\<close>

definition item :: "dict_heap \<Rightarrow> cell \<Rightarrow> string \<Rightarrow> cell res" where
  "item h c k =
    (case c of
      Leaf v \<Rightarrow> Inl (Type_Error ''not subscriptable'')
    | Ref a \<Rightarrow>
        if a < length h
        then (case dict_get (h ! a) k of None \<Rightarrow> Inl (Key_Error k) | Some c' \<Rightarrow> Inr c')
        else Inl (Type_Error ''not subscriptable''))"

definition set_item :: "dict_heap \<Rightarrow> cell \<Rightarrow> string \<Rightarrow> cell \<Rightarrow> dict_heap res" where
  "set_item h c k v =
    (case c of
      Leaf x \<Rightarrow> Inl (Type_Error ''does not support item assignment'')
    | Ref a \<Rightarrow>
        if a < length h then Inr (h[a := dict_set k v (h ! a)])
        else Inl (Type_Error ''does not support item assignment''))"

definition excel_style :: "dict_heap \<Rightarrow> cell \<Rightarrow> bool \<Rightarrow> (cell \<times> dict_heap) res" where
  "excel_style h c wrap =
    (case deepcopy h c of
      None \<Rightarrow> Inl (Type_Error ''not a mapping'')
    | Some (style, h1) \<Rightarrow>
        if \<not> wrap then Inr (style, h1)
        else rbind (item h1 style ''body'') (\<lambda>body.
             rbind (item h1 body ''style'') (\<lambda>target.
               let (alignment, h2) = alloc (Nested WRAP_ALIGNMENT) h1
               in rbind (set_item h2 target ''alignment'' alignment) (\<lambda>h3. Inr (style, h3)))))"

section \<open>Allocation\<close>

text \<open>A heap from some address on refers to nothing below it.\<close>

fun fresh_cell :: "nat \<Rightarrow> cell \<Rightarrow> bool" where
  "fresh_cell n (Leaf v) = True"
| "fresh_cell n (Ref a) = (n \<le> a)"

definition closed_from :: "nat \<Rightarrow> dict_heap \<Rightarrow> bool" where
  "closed_from n h \<longleftrightarrow> (\<forall>a. n \<le> a \<longrightarrow> a < length h \<longrightarrow> (\<forall>(k, c) \<in> set (h ! a). fresh_cell n c))"

lemma fresh_cell_mono: "fresh_cell n c \<Longrightarrow> m \<le> n \<Longrightarrow> fresh_cell m c"
  by (cases c) auto

lemma closed_from_mono:
  "closed_from n h \<Longrightarrow> m \<le> n \<Longrightarrow> (\<And>a. m \<le> a \<Longrightarrow> a < n \<Longrightarrow> a < length h \<Longrightarrow> \<forall>(k, c) \<in> set (h ! a). fresh_cell m c) \<Longrightarrow> closed_from m h"
  unfolding closed_from_def using fresh_cell_mono by (metis (no_types, lifting) case_prodD case_prodI2 leI)

lemma alloc_fresh:
  "alloc t h = (c, h') \<Longrightarrow> \<exists>g. h' = h @ g \<and> fresh_cell (length h) c \<and> closed_from (length h) h'"
  "alloc_items kts h = (d, h') \<Longrightarrow>
    \<exists>g. h' = h @ g \<and> (\<forall>(k, c) \<in> set d. fresh_cell (length h) c) \<and> closed_from (length h) h'"
proof (induction t h and kts h arbitrary: c h' and d h' rule: alloc_alloc_items.induct)
  case (2 kts h)
  obtain d h1 where a: "alloc_items kts h = (d, h1)" by force
  from "2.IH" [OF a] obtain g where g: "h1 = h @ g" "\<forall>(k, c) \<in> set d. fresh_cell (length h) c" "closed_from (length h) h1" by blast
  from "2.prems" a have "c = Ref (length h1)" "h' = h1 @ [d]" by auto
  with g show ?case
    by (auto simp: closed_from_def nth_append less_Suc_eq)
next
  case (4 k t kts h)
  obtain c1 h1 where a: "alloc t h = (c1, h1)" by force
  obtain d2 h2 where b: "alloc_items kts h1 = (d2, h2)" by force
  from "4.IH"(1) [OF a] obtain g where g: "h1 = h @ g" "fresh_cell (length h) c1" "closed_from (length h) h1" by blast
  from "4.IH"(2) [OF a [symmetric] refl b] obtain g2 where g2: "h2 = h1 @ g2" "\<forall>(k, c) \<in> set d2. fresh_cell (length h1) c"
    "closed_from (length h1) h2" by blast
  have "length h \<le> length h1" using g(1) by simp
  moreover have "closed_from (length h) h2"
    by (rule closed_from_mono [OF g2(3)]) (use g g2(1) in \<open>auto simp: closed_from_def nth_append\<close>)
  moreover have "d = (k, c1) # d2" "h' = h2" using "4.prems" a b by auto
  ultimately show ?case using g g2 fresh_cell_mono by fastforce
qed (auto simp: closed_from_def)

text \<open>A dictionary is allocated after the dictionaries it holds.\<close>

definition descending_from :: "nat \<Rightarrow> dict_heap \<Rightarrow> bool" where
  "descending_from n h \<longleftrightarrow> (\<forall>a. n \<le> a \<longrightarrow> a < length h \<longrightarrow> (\<forall>k b. (k, Ref b) \<in> set (h ! a) \<longrightarrow> b < a))"

lemma alloc_descending:
  "alloc t h = (c, h') \<Longrightarrow> descending_from (length h) h' \<and> (\<forall>a. c = Ref a \<longrightarrow> a < length h')"
  "alloc_items kts h = (d, h') \<Longrightarrow> descending_from (length h) h' \<and> (\<forall>k a. (k, Ref a) \<in> set d \<longrightarrow> a < length h')"
proof (induction t h and kts h arbitrary: c h' and d h' rule: alloc_alloc_items.induct)
  case (2 kts h)
  obtain d h1 where a: "alloc_items kts h = (d, h1)" by force
  with "2.prems" have "c = Ref (length h1)" "h' = h1 @ [d]" by auto
  with "2.IH" [OF a] show ?case by (auto simp: descending_from_def nth_append less_Suc_eq)
next
  case (4 k t kts h)
  obtain c1 h1 where a: "alloc t h = (c1, h1)" by force
  obtain d2 h2 where b: "alloc_items kts h1 = (d2, h2)" by force
  note first = "4.IH"(1) [OF a] and rest = "4.IH"(2) [OF a [symmetric] refl b]
  obtain g where g: "h2 = h1 @ g" using alloc_fresh(2) [OF b] by blast
  have "descending_from (length h) h2"
    using first rest g by (auto simp: descending_from_def nth_append not_less)
  moreover have "d = (k, c1) # d2" "h' = h2" using "4.prems" a b by auto
  ultimately show ?case using first rest g by fastforce
qed (auto simp: descending_from_def)

section \<open>Reading\<close>

text \<open>A reading that succeeds only looks at addresses there are, so it is the same wherever those agree.\<close>

lemma read_agree:
  "read_cell depth h c = Some t \<Longrightarrow> length h \<le> length h' \<Longrightarrow> (\<forall>a < length h. h' ! a = h ! a) \<Longrightarrow> read_cell depth h' c = Some t"
  "read_items depth h d = Some kts \<Longrightarrow> length h \<le> length h' \<Longrightarrow> (\<forall>a < length h. h' ! a = h ! a) \<Longrightarrow> read_items depth h' d = Some kts"
proof (induction depth h c and depth h d arbitrary: t and kts rule: read_cell_read_items.induct)
  case (3 depth h a)
  then show ?case by (auto split: if_splits)
next
  case (5 depth h k c d)
  then show ?case by (auto split: option.splits)
qed auto

text \<open>From fresh cells on, readings do not look below.\<close>

lemma read_fresh:
  "fresh_cell n c \<Longrightarrow> closed_from n h \<Longrightarrow> length h' = length h \<Longrightarrow> (\<forall>a \<ge> n. h' ! a = h ! a) \<Longrightarrow>
    read_cell depth h' c = read_cell depth h c"
  "(\<forall>(k, c) \<in> set d. fresh_cell n c) \<Longrightarrow> closed_from n h \<Longrightarrow> length h' = length h \<Longrightarrow> (\<forall>a \<ge> n. h' ! a = h ! a) \<Longrightarrow>
    read_items depth h' d = read_items depth h d"
proof (induction depth h c and depth h d rule: read_cell_read_items.induct)
  case (3 depth h a)
  show ?case
  proof (cases "a < length h")
    case True
    with 3 have "\<forall>(k, c) \<in> set (h ! a). fresh_cell n c" by (simp add: closed_from_def)
    with 3 True show ?thesis by simp
  qed (use 3 in simp)
qed auto

fun depth_of :: "style_tree \<Rightarrow> nat"
  and depth_items :: "(string \<times> style_tree) list \<Rightarrow> nat" where
  "depth_of (Plain v) = 0"
| "depth_of (Nested kts) = Suc (depth_items kts)"
| "depth_items [] = 0"
| "depth_items ((k, t) # kts) = max (depth_of t) (depth_items kts)"

lemma read_alloc:
  "alloc t h = (c, h') \<Longrightarrow> depth_of t \<le> depth \<Longrightarrow> read_cell depth h' c = Some t"
  "alloc_items kts h = (d, h') \<Longrightarrow> depth_items kts \<le> depth \<Longrightarrow> read_items depth h' d = Some kts"
proof (induction t h and kts h arbitrary: c h' depth and d h' depth rule: alloc_alloc_items.induct)
  case (2 kts h)
  obtain d h1 where a: "alloc_items kts h = (d, h1)" by force
  obtain n where n: "depth = Suc n" "depth_items kts \<le> n" using "2.prems"(2) by (cases depth) auto
  have "read_items n (h1 @ [d]) d = Some kts"
    by (rule read_agree(2) [OF "2.IH" [OF a n(2)]]) (auto simp: nth_append)
  with "2.prems"(1) a n show ?case by auto
next
  case (4 k t kts h)
  obtain c1 h1 where a: "alloc t h = (c1, h1)" by force
  obtain d2 h2 where b: "alloc_items kts h1 = (d2, h2)" by force
  obtain g where g: "h2 = h1 @ g" using alloc_fresh(2) [OF b] by blast
  have "read_cell depth h2 c1 = Some t"
    by (rule read_agree(1) [OF "4.IH"(1) [OF a]]) (use "4.prems"(2) g in \<open>auto simp: nth_append\<close>)
  moreover have "read_items depth h2 d2 = Some kts"
    using "4.IH"(2) [OF a [symmetric] refl b] "4.prems"(2) by simp
  ultimately show ?case using "4.prems"(1) a b by auto
qed auto

section \<open>What a copy can reach\<close>

inductive reaches :: "dict_heap \<Rightarrow> cell \<Rightarrow> nat \<Rightarrow> bool" for h where
  here: "a < length h \<Longrightarrow> reaches h (Ref a) a"
| inside: "a < length h \<Longrightarrow> (k, c) \<in> set (h ! a) \<Longrightarrow> reaches h c b \<Longrightarrow> reaches h (Ref a) b"

lemma reaches_bound: "reaches h c a \<Longrightarrow> a < length h"
  by (induction rule: reaches.induct)

lemma closed_fromD: "closed_from n h \<Longrightarrow> n \<le> a \<Longrightarrow> a < length h \<Longrightarrow> (k, c) \<in> set (h ! a) \<Longrightarrow> fresh_cell n c"
  unfolding closed_from_def by blast

lemma reaches_fresh: "reaches h c a \<Longrightarrow> closed_from n h \<Longrightarrow> fresh_cell n c \<Longrightarrow> n \<le> a"
proof (induction rule: reaches.induct)
  case (inside a k c b)
  then have "fresh_cell n c" using closed_fromD [of n h a k c] by simp
  with inside show ?case by simp
qed simp

lemma item_fresh:
  assumes "item h c k = Inr c'" and "closed_from n h" and "fresh_cell n c"
  shows "fresh_cell n c'"
  using assms closed_fromD [of n h _ k c']
  by (auto simp: item_def dict_get_def split: cell.splits if_splits option.splits dest: map_of_SomeD)

lemma set_dict_set: "(k, c) \<in> set (dict_set j v d) \<Longrightarrow> (k, c) = (j, v) \<or> (k, c) \<in> set d"
  unfolding dict_set_def by (induction d) (auto split: if_splits)

lemma set_item_fresh:
  assumes "set_item h c k v = Inr h'" and "closed_from n h" and "fresh_cell n c" and "fresh_cell n v"
  shows "length h' = length h \<and> (\<forall>a < n. h' ! a = h ! a) \<and> closed_from n h'"
proof -
  obtain a where a: "c = Ref a" "a < length h" "h' = h[a := dict_set k v (h ! a)]" "n \<le> a"
    using assms(1,3) by (auto simp: set_item_def split: cell.splits if_splits)
  have "fresh_cell n c'" if "n \<le> b" "b < length h" "(j, c') \<in> set (h' ! b)" for b j c'
    using that a assms(4) set_dict_set [of j c' k v "h ! a"] closed_fromD [OF assms(2), of b j c']
    by (cases "b = a") auto
  with a show ?thesis by (auto simp: closed_from_def)
qed

text \<open>The heap after a style was made: the old dictionaries are as they were, the style reaches new ones only.\<close>

lemma excel_style_heap:
  assumes "excel_style h c wrap = Inr (style, h')"
  shows "length h \<le> length h' \<and> (\<forall>a < length h. h' ! a = h ! a) \<and> fresh_cell (length h) style \<and> closed_from (length h) h'"
proof -
  obtain t h1 where t: "read_cell (length h) h c = Some t" and a: "alloc t h = (style, h1)"
    using assms by (auto simp: excel_style_def deepcopy_def Let_def res_simps split: option.splits if_splits prod.splits)
  obtain g where g: "h1 = h @ g" "fresh_cell (length h) style" "closed_from (length h) h1"
    using alloc_fresh(1) [OF a] by blast
  show ?thesis
  proof (cases wrap)
    case False
    with assms t a g show ?thesis by (auto simp: excel_style_def deepcopy_def nth_append)
  next
    case True
    obtain body target al h2 where i: "item h1 style ''body'' = Inr body" "item h1 body ''style'' = Inr target"
      "alloc (Nested WRAP_ALIGNMENT) h1 = (al, h2)" "set_item h2 target ''alignment'' al = Inr h'"
      using assms t a True
      by (auto simp: excel_style_def deepcopy_def Let_def res_simps split: option.splits if_splits prod.splits)
    note fresh = item_fresh [OF i(2) g(3) item_fresh [OF i(1) g(3,2)]]
    obtain g2 where g2: "h2 = h1 @ g2" "fresh_cell (length h1) al" "closed_from (length h1) h2"
      using alloc_fresh(1) [OF i(3)] by blast
    have "closed_from (length h) h2"
      by (rule closed_from_mono [OF g2(3)]) (use g g2(1) in \<open>auto simp: closed_from_def nth_append\<close>)
    moreover have "fresh_cell (length h) al" using g2(2) g(1) fresh_cell_mono by fastforce
    ultimately show ?thesis
      using set_item_fresh [OF i(4) _ fresh] g g2(1) by (auto simp: nth_append)
  qed
qed

text \<open>The dictionary the alignment goes into lies below the body and the style, so these still lead to it.\<close>

lemma item_below:
  assumes "item h (Ref a) k = Inr (Ref b)" and "descending_from n h" and "n \<le> a"
  shows "b < a"
  using assms by (auto simp: item_def dict_get_def descending_from_def split: if_splits option.splits dest!: map_of_SomeD)

lemma item_cong: "a < length h \<Longrightarrow> length h \<le> length h' \<Longrightarrow> h' ! a = h ! a \<Longrightarrow> item h' (Ref a) k = item h (Ref a) k"
  by (simp add: item_def)

lemma excel_style_aligned:
  assumes "excel_style h c True = Inr (style, h')"
  shows "\<exists>body target al. item h' style ''body'' = Inr body \<and> item h' body ''style'' = Inr target
    \<and> item h' target ''alignment'' = Inr al \<and> read_cell 1 h' al = Some (Nested WRAP_ALIGNMENT)"
proof -
  obtain t h1 where t: "read_cell (length h) h c = Some t" and a: "alloc t h = (style, h1)"
    using assms by (auto simp: excel_style_def deepcopy_def Let_def res_simps split: option.splits if_splits prod.splits)
  obtain body target al h2 where i: "item h1 style ''body'' = Inr body" "item h1 body ''style'' = Inr target"
    "alloc (Nested WRAP_ALIGNMENT) h1 = (al, h2)" "set_item h2 target ''alignment'' al = Inr h'"
    using assms t a
    by (auto simp: excel_style_def deepcopy_def Let_def res_simps split: option.splits if_splits prod.splits)
  obtain g where g: "h1 = h @ g" "fresh_cell (length h) style" "closed_from (length h) h1" using alloc_fresh(1) [OF a] by blast
  obtain g2 where g2: "h2 = h1 @ g2" "fresh_cell (length h1) al" "closed_from (length h1) h2" using alloc_fresh(1) [OF i(3)] by blast
  obtain s b where r: "style = Ref s" "body = Ref b" using i(1,2) by (auto simp: item_def split: cell.splits)
  obtain q where q: "target = Ref q" "q < length h2" "h' = h2[q := dict_set ''alignment'' al (h2 ! q)]"
    using i(4) by (auto simp: set_item_def split: cell.splits if_splits)
  have bound: "s < length h1" "b < length h1" using i(1,2) r by (auto simp: item_def split: if_splits)
  have low: "length h \<le> s" "length h \<le> b" using g(2) item_fresh [OF i(1) g(3,2)] r by simp_all
  have below: "b < s" "q < b"
    using item_below [of h1 s "''body''" b] item_below [of h1 b "''style''" q] i(1,2) r q(1) alloc_descending(1) [OF a] low by auto
  have "item h' style ''body'' = Inr body" "item h' body ''style'' = Inr target"
    using i(1,2) item_cong [of s h1 h'] item_cong [of b h1 h'] bound below g2(1) q(3) r by (simp_all add: nth_append)
  moreover have "item h' target ''alignment'' = Inr al" using q by (simp add: item_def dict_simps)
  moreover have "read_cell 1 h' al = read_cell 1 h2 al"
    by (rule read_fresh(1) [OF g2(2,3)]) (use bound below q(3) in auto)
  moreover have "read_cell 1 h2 al = Some (Nested WRAP_ALIGNMENT)"
    by (rule read_alloc(1) [OF i(3)]) (simp add: WRAP_ALIGNMENT_def)
  ultimately show ?thesis by (intro exI [of _ body] exI [of _ target] exI [of _ al]) simp
qed

section \<open>Properties\<close>

text \<open>
  A style is a private copy of its preset: making one leaves the preset as it was, what the style
  says is what the preset says, with the wrapping alignment in its body's style when asked for, and
  whatever is later done to any dictionary the style reaches does not show in the preset, nor
  anything done to the preset's dictionaries in the style.
\<close>

theorem excel_style_private:
  assumes "excel_style h c wrap = Inr (style, h')" and "read_cell (length h) h c = Some t"
  shows "read_cell (length h) h' c = Some t
    \<and> (\<not> wrap \<longrightarrow> read_cell (depth_of t) h' style = Some t)
    \<and> (wrap \<longrightarrow> (\<exists>body target al. item h' style ''body'' = Inr body \<and> item h' body ''style'' = Inr target
        \<and> item h' target ''alignment'' = Inr al \<and> read_cell 1 h' al = Some (Nested WRAP_ALIGNMENT)))
    \<and> (\<forall>a d. reaches h' style a \<longrightarrow> read_cell (length h) (h'[a := d]) c = Some t)
    \<and> (\<forall>a d n. reaches h c a \<longrightarrow> read_cell n (h'[a := d]) style = read_cell n h' style)"
proof (intro conjI impI allI)
  note heap = excel_style_heap [OF assms(1)]
  show "read_cell (length h) h' c = Some t"
    by (rule read_agree(1) [OF assms(2)]) (use heap in auto)
  show "read_cell (depth_of t) h' style = Some t" if "\<not> wrap"
    using assms that read_alloc(1) [of t h style h' "depth_of t"]
    by (simp add: excel_style_def deepcopy_def)
  show "\<exists>body target al. item h' style ''body'' = Inr body \<and> item h' body ''style'' = Inr target
        \<and> item h' target ''alignment'' = Inr al \<and> read_cell 1 h' al = Some (Nested WRAP_ALIGNMENT)" if wrap
    using excel_style_aligned assms(1) that by simp
  show "read_cell (length h) (h'[a := d]) c = Some t" if "reaches h' style a" for a d
  proof (rule read_agree(1) [OF assms(2)])
    show "\<forall>b < length h. h'[a := d] ! b = h ! b"
      using heap reaches_fresh [OF that, of "length h"] by auto
  qed (use heap in simp)
  show "read_cell n (h'[a := d]) style = read_cell n h' style" if "reaches h c a" for a d n
    by (rule read_fresh(1)) (use heap reaches_bound [OF that] in auto)
qed

text \<open>The Arial preset on an empty heap, copied with wrapping.\<close>

lemma excel_style_private_witness:
  "\<exists>c h style h'. alloc EXCEL_STYLE_ARIAL [] = (c, h) \<and> excel_style h c True = Inr (style, h') \<and>
    read_cell (length h) h' c = Some EXCEL_STYLE_ARIAL"
proof -
  obtain c h where a: "alloc EXCEL_STYLE_ARIAL [] = (c, h)" by force
  then have h: "length h = 9" "read_cell (length h) h c = Some EXCEL_STYLE_ARIAL"
    using read_alloc(1) [OF a, of "length h"]
    by (auto simp: EXCEL_STYLE_ARIAL_def preset_def BORDER_SIDE_def Let_def)
  obtain style h' where e: "excel_style h c True = Inr (style, h')"
    unfolding excel_style_def deepcopy_def h(2) using a
    by (auto simp: EXCEL_STYLE_ARIAL_def preset_def BORDER_SIDE_def WRAP_ALIGNMENT_def Let_def item_def set_item_def)
  from excel_style_private [OF e h(2)] a e show ?thesis by blast
qed

end
