(* ===== verification/Api_Shapes.thy ===== *)
theory Api_Shapes
  imports Org_Scope Change_History
begin

text \<open>
  What the package advertises of its query parameters and the field lists it hands out:
  \<open>netix_backend/django/change_history_schema.py\<close>, \<open>org_scope_schema.py\<close>, \<open>include_deleted_schema\<close>
  of \<open>views.py\<close>, and the lists of \<open>serializers.py\<close> and \<open>filters.py\<close>. drf-spectacular's parameter is the
  record of what it is given, its view decorator the table from actions to parameters.
\<close>

section \<open>Advertised parameters\<close>

datatype param_type = Boolean_Param | String_Param | Integer_Param

record open_api_parameter =
  param_name :: string
  param_type :: param_type
  param_location :: string
  param_required :: bool
  param_default :: "pyval option"
  param_description :: string

definition query_parameter :: "string \<Rightarrow> param_type \<Rightarrow> pyval option \<Rightarrow> string \<Rightarrow> open_api_parameter" where
  "query_parameter name t dflt description =
    \<lparr>param_name = name, param_type = t, param_location = ''query'', param_required = False,
     param_default = dflt, param_description = description\<rparr>"

definition HISTORY_DESCRIPTION :: string where
  "HISTORY_DESCRIPTION =
    ''Include the record's change_history (who changed what, when). Omitted from the response by default to keep list payloads small.''"

definition REASON_DESCRIPTION :: string where
  "REASON_DESCRIPTION =
    ''Why this record is being deleted. Recorded as `reason` on the change_history entry. Sent as a query parameter because the request carries no body.''"

definition INCLUDE_DELETED_DESCRIPTION :: string where
  "INCLUDE_DELETED_DESCRIPTION =
    ''Include soft-deleted rows. Honoured on the read actions and on the object lookup of update/partial_update, so a retired row can be restored with PATCH {\"is_deleted\": false}. Organization scoping is unchanged.''"

definition history_parameter :: "string \<Rightarrow> string \<Rightarrow> open_api_parameter" where
  "history_parameter description name = query_parameter name Boolean_Param None description"

definition HISTORY_PARAMETER :: open_api_parameter where
  "HISTORY_PARAMETER = history_parameter HISTORY_DESCRIPTION HISTORY_QUERY_PARAM"

definition reason_parameter :: "string \<Rightarrow> string \<Rightarrow> open_api_parameter" where
  "reason_parameter description name = query_parameter name String_Param None description"

definition REASON_PARAMETER :: open_api_parameter where
  "REASON_PARAMETER = reason_parameter REASON_DESCRIPTION REASON_FIELD"

definition superuser_org_scope_parameter :: "string \<Rightarrow> string \<Rightarrow> open_api_parameter" where
  "superuser_org_scope_parameter description name = query_parameter name Integer_Param None description"

text \<open>A class decorator: the parameters it adds to each action, \<open>dict.fromkeys\<close> over the actions.\<close>

type_synonym schema_view = "(string, open_api_parameter list) dict"

definition from_keys :: "string list \<Rightarrow> 'v \<Rightarrow> (string, 'v) dict" where
  "from_keys ks v = dict_update [] (map (\<lambda>k. (k, v)) ks)"

definition superuser_org_scope_schema :: "string list \<Rightarrow> string \<Rightarrow> string \<Rightarrow> schema_view" where
  "superuser_org_scope_schema actions description name =
    from_keys (if actions = [] then SUPERUSER_ORG_SCOPE_ACTIONS else actions) [superuser_org_scope_parameter description name]"

definition superuser_org_scope_autoschema :: "string \<Rightarrow> string \<Rightarrow> open_api_parameter list \<Rightarrow> open_api_parameter list" where
  "superuser_org_scope_autoschema description name parent = parent @ [superuser_org_scope_parameter description name]"

definition include_deleted_schema :: "string list \<Rightarrow> schema_view" where
  "include_deleted_schema actions =
    from_keys (if actions = [] then INCLUDE_DELETED_ACTIONS else actions)
      [query_parameter INCLUDE_DELETED_PARAM Boolean_Param (Some (VBool False)) INCLUDE_DELETED_DESCRIPTION]"

section \<open>Field lists\<close>

definition BASE_FIELDS :: "string list" where "BASE_FIELDS = [''id'', ''created_on'', ''updated_on'']"

definition NAMED_BASE_FIELDS :: "string list" where
  "NAMED_BASE_FIELDS = BASE_FIELDS @ [''name'', ''display_name'', ''description'', ''is_archived'']"

definition base_fields :: "string list \<Rightarrow> string list" where "base_fields extra = BASE_FIELDS @ extra"
definition named_base_fields :: "string list \<Rightarrow> string list" where "named_base_fields extra = NAMED_BASE_FIELDS @ extra"

definition BASE_FILTERS :: "string list" where "BASE_FILTERS = [''id'', ''created_on'']"

definition NAMED_BASE_FILTERS :: "string list" where
  "NAMED_BASE_FILTERS = BASE_FILTERS @ [''name'', ''display_name'', ''is_archived'']"

definition base_filters :: "string list \<Rightarrow> string list" where "base_filters extra = BASE_FILTERS @ extra"
definition named_base_filters :: "string list \<Rightarrow> string list" where "named_base_filters extra = NAMED_BASE_FILTERS @ extra"

section \<open>Lemmas\<close>

lemma map_of_const: "map_of (map (\<lambda>k. (k, v)) ks) a = (if a \<in> set ks then Some v else None)"
  by (induction ks) auto

lemma from_keys_get: "dict_get (from_keys ks v) a = (if a \<in> set ks then Some v else None)"
  by (simp add: from_keys_def dict_get_update map_of_const rev_map)

text \<open>Every filter field of the named shapes is one of its serialized fields.\<close>

lemma filters_are_fields: "set (base_filters extra) \<subseteq> set (base_fields extra)"
  "set (named_base_filters extra) \<subseteq> set (named_base_fields extra)"
  by (auto simp: base_filters_def base_fields_def named_base_filters_def named_base_fields_def BASE_FILTERS_def
      BASE_FIELDS_def NAMED_BASE_FILTERS_def NAMED_BASE_FIELDS_def)

section \<open>Properties\<close>

text \<open>
  What is advertised is what is read: whether history or deleted rows are asked for, which reason is
  stated and which organization a superuser targets depends on the query parameters under the
  advertised names only, a request that leaves them out asks for none of them, and the actions
  that advertise deleted rows by default are those that honour them by default.
\<close>

theorem advertised_parameters_are_read:
  assumes "envoy r = envoy r'" and "user r = user r'"
    and "\<And>name. name \<in> {param_name HISTORY_PARAMETER, param_name REASON_PARAMETER,
        param_name (superuser_org_scope_parameter d (superuser_org_query_param v))} \<Longrightarrow>
      dict_get (query_params r) name = dict_get (query_params r') name"
  shows "history_requested (Some (query_params r)) = history_requested (Some (query_params r')) \<and>
    reason_from_query (Some (query_params r)) = reason_from_query (Some (query_params r')) \<and>
    superuser_target_organization_id v (Some r) = superuser_target_organization_id v (Some r') \<and>
    \<not> history_requested (Some []) \<and> reason_from_query (Some []) = [] \<and>
    superuser_target_organization_id v (Some (r\<lparr>query_params := []\<rparr>)) = Inr None \<and>
    dict_keys (include_deleted_schema []) = INCLUDE_DELETED_ACTIONS"
proof -
  have names: "param_name HISTORY_PARAMETER = HISTORY_QUERY_PARAM" "param_name REASON_PARAMETER = REASON_FIELD"
    "param_name (superuser_org_scope_parameter d n) = n" for n
    by (simp_all add: HISTORY_PARAMETER_def history_parameter_def REASON_PARAMETER_def reason_parameter_def
        superuser_org_scope_parameter_def query_parameter_def)
  have same: "dict_get (query_params r) n = dict_get (query_params r') n"
    if "n = HISTORY_QUERY_PARAM \<or> n = REASON_FIELD \<or> n = superuser_org_query_param v" for n
    using assms(3) [of n] that unfolding names by blast
  have "is_superuser r = is_superuser r'" using assms(1,2) by (simp add: is_superuser_def)
  then show ?thesis
    using same [of HISTORY_QUERY_PARAM] same [of REASON_FIELD] same [of "superuser_org_query_param v"]
    by (simp add: history_requested_def reason_from_query_def superuser_target_organization_id_def normalize_reason_def
        TRUTHY_PARAM_VALUES_def text_eval include_deleted_schema_def from_keys_def INCLUDE_DELETED_ACTIONS_def
        dict_update_def dict_set_def dict_keys_def
        cong: option.case_cong if_cong)
qed

end
