(* ===== verification/Ceiling_Contract.thy ===== *)
theory Ceiling_Contract
  imports Voices Test_Settings
begin

text \<open>
  The contract suite of \<open>netix_backend/asgi/testing.py\<close>, which every service subclasses: the request
  driver and the application that answers after a delay, over the event loop of the ceiling. Time enters
  as the moments at which an application acts, compared with the ceiling.
\<close>

section \<open>The driver\<close>

text \<open>
  An application under test: the moments, counted from its call, at which it sends, in order, and the
  one at which it sets \<open>finished\<close> and returns.
\<close>

record app_script =
  outputs :: "(real \<times> message) list"
  ends_at :: real

definition slow_app :: "real \<Rightarrow> app_script" where
  "slow_app delay =
    \<lparr>outputs = [(delay, Response_Start 200 []), (delay, Response_Body ''ok'')], ends_at = delay\<rparr>"

text \<open>\<open>reply_finished\<close> is \<open>finished.is_set()\<close> when the driver returns.\<close>

record reply =
  reply_status :: int
  reply_headers :: "string \<rightharpoonup> string"
  reply_body :: string
  reply_finished :: bool

definition drive_scope :: "string \<Rightarrow> header list \<Rightarrow> conn" where
  "drive_scope http_method headers =
    \<lparr>scope_type = ''http'', scope_method = Some http_method, scope_path = ''/'', scope_headers = headers\<rparr>"

text \<open>The ceiling's timer is set before the application starts, so at the same moment it fires first.\<close>

definition in_time :: "timeout_config \<Rightarrow> real \<Rightarrow> bool" where
  "in_time cfg moment \<longleftrightarrow> flt_less (Fin moment) (ceiling cfg)"

definition sends :: "nat \<Rightarrow> (real \<times> message) list \<Rightarrow> loop_event list" where
  "sends i out = map (\<lambda>(t, m). App_Sends i m) out"

text \<open>
  What the event loop runs until the middleware returns, and what the application still does after
  that: nothing, unless it was abandoned.
\<close>

definition drive_events :: "timeout_config \<Rightarrow> nat \<Rightarrow> conn \<Rightarrow> app_script \<Rightarrow> server \<Rightarrow> loop_event list \<times> loop_event list" where
  "drive_events cfg i c sc s =
    (let early = filter (\<lambda>(t, m). in_time cfg t) (outputs sc);
         late = filter (\<lambda>(t, m). \<not> in_time cfg t) (outputs sc)
     in case handler (reqs (arrive cfg i c s) i) of
       Replying ms \<Rightarrow> (Arrive i c # map (\<lambda>m. Reply i) ms, [])
     | Watching \<Rightarrow>
         if in_time cfg (ends_at sc) then (Arrive i c # sends i (outputs sc) @ [App_Ends i], [])
         else if list_ex (\<lambda>(t, m). is_start m) early
         then (Arrive i c # sends i early @ Ceiling i # sends i late @ [App_Ends i], [])
         else (Arrive i c # sends i early @ Ceiling i # map (\<lambda>m. Reply i) (timeout_reply cfg c),
               sends i late @ [App_Ends i, Late i])
     | _ \<Rightarrow> (Arrive i c # sends i (outputs sc) @ [App_Ends i], []))"

fun body_part :: "message \<Rightarrow> string" where
  "body_part (Response_Start status headers) = []"
| "body_part (Response_Body b) = b"

text \<open>\<open>next\<close> over the status lines raises when there is none; \<open>dict\<close> keeps a header's last value.\<close>

definition collect :: "message list \<Rightarrow> bool \<Rightarrow> reply option" where
  "collect sent fin =
    (case find is_start sent of
      Some (Response_Start status headers) \<Rightarrow>
        Some \<lparr>reply_status = status, reply_headers = map_of (rev headers),
              reply_body = concat (map body_part sent), reply_finished = fin\<rparr>
    | _ \<Rightarrow> None)"

text \<open>The reply, the state of the middleware, and the events of an abandoned application.\<close>

definition drive :: "timeout_config \<Rightarrow> nat \<Rightarrow> app_script \<Rightarrow> string \<Rightarrow> header list \<Rightarrow> server \<Rightarrow>
    (reply \<times> server \<times> loop_event list) option" where
  "drive cfg i sc http_method headers s =
    (case drive_events cfg i (drive_scope http_method headers) sc s of (es, later) \<Rightarrow>
      (case run_events cfg es s of
        None \<Rightarrow> None
      | Some s' \<Rightarrow> map_option (\<lambda>r. (r, s', later)) (collect (wire_of i s') (app (reqs s' i) = Ended))))"

section \<open>What one driven request does\<close>

lemma run_events_append:
  "run_events cfg (es @ es') s = Option.bind (run_events cfg es s) (run_events cfg es')"
  by (induction es arbitrary: s) (auto split: option.splits)

lemma watched_drive [simp]: "watched cfg (drive_scope m hs) \<longleftrightarrow> is_capped cfg (Some m)"
  by (simp add: watched_def drive_scope_def)

lemma sheddable_drive [simp]: "sheddable cfg (drive_scope m hs) \<longleftrightarrow> m \<notin> set (never_shed cfg)"
  by (simp add: sheddable_def drive_scope_def)

text \<open>The middleware's own replies, sent in full.\<close>

lemma own_reply:
  assumes "error_renderer (error_body cfg)"
  obtains hs b hs' b' where
    "timeout_reply cfg c = [Response_Start 504 hs, Response_Body b]"
    "overloaded_reply cfg c = [Response_Start 503 hs', Response_Body b']"
proof -
  from error_renderer.render_start [OF assms] error_renderer.render_body [OF assms]
  obtain hs b hs' b' where
    "error_body cfg 504 (timeout_message cfg) c None = (Response_Start 504 hs, Response_Body b)"
    "error_body cfg 503 (overloaded_message cfg) c (retry_after cfg) = (Response_Start 503 hs', Response_Body b')"
    by (metis prod.collapse)
  then show ?thesis by (intro that) (simp_all add: timeout_reply_def overloaded_reply_def)
qed

lemma wire_unseen: "server_inv cfg s \<Longrightarrow> handler (reqs s i) = Unseen \<Longrightarrow> wire_of i s = []"
  by (auto simp: server_inv_def request_inv_def speaks_app_def dest!: spec [of _ i])

text \<open>An application that is not watched, or is quicker than the ceiling, gives the reply itself.\<close>

abbreviation app_reply :: reply where
  "app_reply \<equiv> \<lparr>reply_status = 200, reply_headers = Map.empty, reply_body = ''ok'', reply_finished = True\<rparr>"

lemma drive_passes:
  assumes "server_inv cfg s" and "handler (reqs s i) = Unseen"
    and "\<not> is_capped cfg (Some m) \<or> (m \<in> set (never_shed cfg) \<or> \<not> over_limit cfg (abandoned s)) \<and> in_time cfg delay"
  shows "\<exists>s'. drive cfg i (slow_app delay) m hs s = Some (app_reply, s', []) \<and> abandoned s' = abandoned s"
  using assms wire_unseen [OF assms(1,2)]
  by (auto simp: drive_def drive_events_def slow_app_def sends_def arrive_def fresh_request_def app_sends_def
      app_ends_def asgi_order_def collect_def Let_def)

lemma drive_shed:
  assumes "server_inv cfg s" and "handler (reqs s i) = Unseen" and "error_renderer (error_body cfg)"
    and "is_capped cfg (Some m)" and "m \<notin> set (never_shed cfg)" and "over_limit cfg (abandoned s)"
  shows "\<exists>r s'. drive cfg i sc m hs s = Some (r, s', []) \<and> reply_status r = 503
    \<and> collect (overloaded_reply cfg (drive_scope m hs)) False = Some r
    \<and> app (reqs s' i) = Idle \<and> abandoned s' = abandoned s"
proof -
  obtain h b where o: "overloaded_reply cfg (drive_scope m hs) = [Response_Start 503 h, Response_Body b]"
    using own_reply [OF assms(3)] by metis
  show ?thesis
    using assms wire_unseen [OF assms(1,2)]
    by (auto simp: drive_def drive_events_def o arrive_def fresh_request_def send_reply_def collect_def Let_def)
qed

lemma drive_over:
  assumes "server_inv cfg s" and "handler (reqs s i) = Unseen" and "error_renderer (error_body cfg)"
    and "is_capped cfg (Some m)" and "m \<in> set (never_shed cfg) \<or> \<not> over_limit cfg (abandoned s)"
    and "\<not> in_time cfg delay"
  shows "\<exists>r s' later s''. drive cfg i (slow_app delay) m hs s = Some (r, s', later) \<and> reply_status r = 504
    \<and> collect (timeout_reply cfg (drive_scope m hs)) False = Some r
    \<and> abandoned s' = abandoned s @ [i]
    \<and> run_events cfg later s' = Some s'' \<and> app (reqs s'' i) = Ended \<and> wire_of i s'' = wire_of i s'
    \<and> abandoned s'' = abandoned s"
proof -
  obtain h b where o: "timeout_reply cfg (drive_scope m hs) = [Response_Start 504 h, Response_Body b]"
    using own_reply [OF assms(3)] by metis
  have i: "i \<notin> set (abandoned s)"
    using not_muted_not_abandoned [OF assms(1)] unseen_not_muted [OF assms(1,2)] by blast
  show ?thesis
    using assms wire_unseen [OF assms(1,2)] i
    by (auto simp: drive_def drive_events_def o slow_app_def sends_def arrive_def fresh_request_def app_sends_def
        app_ends_def asgi_order_def ceiling_passes_def send_reply_def log_late_finish_def collect_def Let_def)
qed

section \<open>Two requests in a row\<close>

lemma run_frame:
  "run_events cfg es s = Some s' \<Longrightarrow> list_all (\<lambda>e. event_request e \<noteq> j) es \<Longrightarrow> reqs s' j = reqs s j"
proof (induction es arbitrary: s)
  case (Cons e es)
  then obtain t where t: "loop_step cfg e s = Some t" "run_events cfg es t = Some s'" by (auto split: option.splits)
  with Cons loop_step_frame [OF t(1), of j] show ?case by simp
qed simp

lemma drive_events_request:
  "drive_events cfg i c sc s = (es, later) \<Longrightarrow> list_all (\<lambda>e. event_request e = i) (es @ later)"
  by (auto simp: drive_events_def Let_def sends_def list_all_iff split: handler_state.splits if_splits)

lemma drive_then:
  assumes "drive cfg i sc m hs s = Some (r, s', later)" and "reachable cfg (\<lambda>s. True) s"
  shows "server_inv cfg s'" and "j \<noteq> i \<Longrightarrow> reqs s' j = reqs s j"
    and "run_events cfg later s' = Some s'' \<Longrightarrow> server_inv cfg s''"
    and "run_events cfg later s' = Some s'' \<Longrightarrow> j \<noteq> i \<Longrightarrow> reqs s'' j = reqs s j"
proof -
  obtain es where ev: "drive_events cfg i (drive_scope m hs) sc s = (es, later)" and run: "run_events cfg es s = Some s'"
    using assms(1) by (auto simp: drive_def split: prod.splits option.splits)
  have other: "list_all (\<lambda>e. event_request e \<noteq> j) es \<and> list_all (\<lambda>e. event_request e \<noteq> j) later" if "j \<noteq> i" for j
    using drive_events_request [OF ev] that by (auto simp: list_all_iff)
  have reach: "reachable cfg (\<lambda>s. True) s'" by (rule run_reachable [OF run assms(2)])
  then show "server_inv cfg s'" by (rule reachable_inv)
  show "reqs s' j = reqs s j" if "j \<noteq> i" using run_frame [OF run] other [OF that] by simp
  show "server_inv cfg s''" if "run_events cfg later s' = Some s''"
    using reachable_inv [OF run_reachable [OF that reach]] .
  show "reqs s'' j = reqs s j" if "run_events cfg later s' = Some s''" "j \<noteq> i"
    using run_frame [OF that(1), of j] run_frame [OF run, of j] other [OF that(2)] by simp
qed

lemma initial_unseen [simp]: "handler (reqs initial_server i) = Unseen" "abandoned initial_server = []"
  by (simp_all add: initial_server_def fresh_request_def)

section \<open>Properties\<close>

text \<open>
  C25. What one request through the ceiling comes to, at any point of any history: refused with the 503
  and its application never called, when the method is capped, may be shed and the pool is full; the
  application's own reply, when the method is not capped or the application is quicker than the ceiling;
  else the 504, with one more request abandoned, whose application nevertheless runs to its end, unheard,
  and leaves the pool as it was.
\<close>

theorem driven_request_outcome:
  assumes "reachable cfg enforced s" and "handler (reqs s i) = Unseen" and "error_renderer (error_body cfg)"
  shows "\<exists>r s' later. drive cfg i (slow_app delay) m hs s = Some (r, s', later) \<and>
    (if is_capped cfg (Some m) \<and> m \<notin> set (never_shed cfg) \<and> over_limit cfg (abandoned s)
     then reply_status r = 503 \<and> collect (overloaded_reply cfg (drive_scope m hs)) False = Some r
       \<and> app (reqs s' i) = Idle \<and> abandoned s' = abandoned s \<and> later = []
     else if \<not> is_capped cfg (Some m) \<or> in_time cfg delay
     then r = app_reply \<and> abandoned s' = abandoned s \<and> later = []
     else reply_status r = 504 \<and> collect (timeout_reply cfg (drive_scope m hs)) False = Some r
       \<and> abandoned s' = abandoned s @ [i]
       \<and> (\<exists>s''. run_events cfg later s' = Some s'' \<and> app (reqs s'' i) = Ended
            \<and> wire_of i s'' = wire_of i s' \<and> abandoned s'' = abandoned s))"
proof -
  note inv = reachable_inv [OF assms(1)]
  consider (shed) "is_capped cfg (Some m)" "m \<notin> set (never_shed cfg)" "over_limit cfg (abandoned s)"
    | (passes) "\<not> is_capped cfg (Some m) \<or> (m \<in> set (never_shed cfg) \<or> \<not> over_limit cfg (abandoned s)) \<and> in_time cfg delay"
    | (over) "is_capped cfg (Some m)" "m \<in> set (never_shed cfg) \<or> \<not> over_limit cfg (abandoned s)" "\<not> in_time cfg delay"
    by blast
  then show ?thesis
  proof cases
    case shed
    with drive_shed [OF inv assms(2,3) shed, of "slow_app delay" hs] show ?thesis by simp
  next
    case passes
    with drive_passes [OF inv assms(2) passes, of hs] show ?thesis by auto
  next
    case over
    with drive_over [OF inv assms(2,3) over, of hs] show ?thesis by auto
  qed
qed

lemma driven_request_outcome_witness:
  "\<exists>r s later. drive sample_timeout_config 0 (slow_app 121) ''GET'' [] initial_server = Some (r, s, later)
    \<and> reply_status r = 504 \<and> abandoned s = [0]"
  using driven_request_outcome [OF reachable.start [of sample_timeout_config "\<lambda>s. True"] initial_unseen(1),
      of 0 121 "''GET''" "[]"] json_errors.error_renderer_axioms [of unconfigured]
  by (auto simp: is_capped_def SAFE_METHODS_CAPPED_def NEVER_SHED_def over_limit_def flt_le_def in_time_def)

end
