(* ===== verification/Ceiling_Suite.thy ===== *)
theory Ceiling_Suite
  imports Ceiling_Contract
begin

text \<open>
  The checks of \<open>RequestTimeoutContract\<close> in \<open>netix_backend/asgi/testing.py\<close>, as executable predicates over
  the driver; every middleware configured as the knobs of a service say passes them.
\<close>

section \<open>The checks\<close>

text \<open>
  The class attributes of the suite, and its \<open>build\<close>: what it makes of the module's own ceiling, the
  settings in force, the timeout and the number of abandoned requests allowed (\<open>None\<close> where the check
  names none; the module allows 50 unless the environment says otherwise).
\<close>

record contract =
  contract_safe_methods :: "string list"
  contract_unsafe_methods :: "string list"
  never_shed_method :: string
  contract_ceiling :: real
  contract_timeout_message :: string
  contract_overloaded_message :: string
  contract_retry_after :: int
  contract_origin :: string
  forbid_middleware_entry :: bool
  db_statement_timeout_ms :: "pyfloat option"
  construct :: "pyfloat \<Rightarrow> cors_settings \<Rightarrow> real option \<Rightarrow> nat option \<Rightarrow> timeout_config"

text \<open>The module's ceiling is two minutes unless the environment says otherwise.\<close>

definition REQUEST_TIMEOUT_SECONDS :: real where
  "REQUEST_TIMEOUT_SECONDS = 120"

abbreviation build :: "contract \<Rightarrow> cors_settings \<Rightarrow> real \<Rightarrow> nat option \<Rightarrow> timeout_config" where
  "build k dj timeout n \<equiv> construct k (Fin REQUEST_TIMEOUT_SECONDS) dj (Some timeout) n"

type_synonym driven = "(reply \<times> server \<times> loop_event list) option"

definition run_request :: "contract \<Rightarrow> cors_settings \<Rightarrow> string \<Rightarrow> real \<Rightarrow> header list \<Rightarrow> real \<Rightarrow> driven" where
  "run_request k dj http_method delay headers timeout =
    drive (build k dj timeout None) 0 (slow_app delay) http_method headers initial_server"

definition reply_is :: "(reply \<Rightarrow> bool) \<Rightarrow> driven \<Rightarrow> bool" where
  "reply_is P d \<longleftrightarrow> (case d of None \<Rightarrow> False | Some (r, s, later) \<Rightarrow> P r)"

definition safe_methods_over_the_ceiling_return_504 :: "contract \<Rightarrow> bool" where
  "safe_methods_over_the_ceiling_return_504 k \<longleftrightarrow>
    list_all (\<lambda>m. reply_is (\<lambda>r. reply_status r = 504) (run_request k unconfigured m 1 [] (1/20))) (contract_safe_methods k)"

text \<open>The application's remaining events are run and \<open>finished\<close> is then set.\<close>

definition timed_out_request_is_abandoned_not_cancelled :: "contract \<Rightarrow> bool" where
  "timed_out_request_is_abandoned_not_cancelled k \<longleftrightarrow>
    list_all (\<lambda>m. let cfg = build k unconfigured (1/20) None in
      case drive cfg 0 (slow_app (1/5)) m [] initial_server of
        None \<Rightarrow> False
      | Some (r, s, later) \<Rightarrow> reply_status r = 504 \<and>
          (case run_events cfg later s of None \<Rightarrow> False | Some s' \<Rightarrow> app (reqs s' 0) = Ended)) (contract_safe_methods k)"

definition unsafe_methods_are_never_cut_short :: "contract \<Rightarrow> bool" where
  "unsafe_methods_are_never_cut_short k \<longleftrightarrow>
    list_all (\<lambda>m. reply_is (\<lambda>r. reply_status r = 200 \<and> reply_finished r)
      (run_request k unconfigured m (1/5) [] (1/20))) (contract_unsafe_methods k)"

definition safe_method_under_the_ceiling_passes_through :: "contract \<Rightarrow> bool" where
  "safe_method_under_the_ceiling_passes_through k \<longleftrightarrow>
    reply_is (\<lambda>r. reply_status r = 200 \<and> reply_finished r) (run_request k unconfigured ''GET'' 0 [] (1/20))"

definition started_app :: app_script where
  "started_app = \<lparr>outputs = [(0, Response_Start 200 []), (1/5, Response_Body ''ok'')], ends_at = 1/5\<rparr>"

definition a_started_response_is_never_replaced_with_a_504 :: "contract \<Rightarrow> bool" where
  "a_started_response_is_never_replaced_with_a_504 k \<longleftrightarrow>
    reply_is (\<lambda>r. reply_status r = 200 \<and> reply_finished r)
      (drive (build k unconfigured (1/20) None) 0 started_app ''GET'' [] initial_server)"

text \<open>\<open>json.loads\<close> of a body equals the envelope; the order of its members does not matter.\<close>

definition envelope_is :: "string \<Rightarrow> int \<Rightarrow> string \<Rightarrow> bool" where
  "envelope_is body st messages \<longleftrightarrow>
    (case json_object body of
      None \<Rightarrow> False
    | Some d \<Rightarrow> set d = {(''status_code'', JInt st), (''messages'', JStr messages)})"

definition timeout_reply_uses_the_error_envelope :: "contract \<Rightarrow> bool" where
  "timeout_reply_uses_the_error_envelope k \<longleftrightarrow>
    reply_is (\<lambda>r. reply_headers r ''content-type'' = Some ''application/json''
      \<and> reply_headers r ''content-length'' = Some (nat_str (length (reply_body r)))
      \<and> envelope_is (reply_body r) 504 (contract_timeout_message k))
      (run_request k unconfigured ''GET'' (1/5) [] (1/20))"

definition timeout_reply_carries_cors_headers :: "contract \<Rightarrow> bool" where
  "timeout_reply_carries_cors_headers k \<longleftrightarrow>
    reply_is (\<lambda>r. reply_status r = 504
      \<and> reply_headers r ''access-control-allow-origin'' = Some (contract_origin k)
      \<and> reply_headers r ''access-control-allow-credentials'' = Some ''true''
      \<and> reply_headers r ''vary'' = Some ''Origin'')
      (run_request k \<lparr>allow_all_origins = False, allowed_origins = [contract_origin k], allow_credentials = True\<rparr>
        ''GET'' (1/5) [(''origin'', contract_origin k)] (1/20))"
text \<open>The credentials setting is the project's own in this check.\<close>

definition unlisted_origin_gets_no_cors_headers :: "contract \<Rightarrow> bool \<Rightarrow> bool" where
  "unlisted_origin_gets_no_cors_headers k credentials \<longleftrightarrow>
    reply_is (\<lambda>r. reply_headers r ''access-control-allow-origin'' = None)
      (run_request k \<lparr>allow_all_origins = False, allowed_origins = [contract_origin k], allow_credentials = credentials\<rparr>
        ''GET'' (1/5) [(''origin'', ''https://elsewhere.example'')] (1/20))"

definition allow_all_origins_answers_with_a_wildcard :: "contract \<Rightarrow> string list \<Rightarrow> bool" where
  "allow_all_origins_answers_with_a_wildcard k listed \<longleftrightarrow>
    reply_is (\<lambda>r. reply_headers r ''access-control-allow-origin'' = Some ''*''
      \<and> reply_headers r ''access-control-allow-credentials'' = None)
      (run_request k \<lparr>allow_all_origins = True, allowed_origins = listed, allow_credentials = False\<rparr>
        ''GET'' (1/5) [(''origin'', ''https://anywhere.example'')] (1/20))"

definition request_without_an_origin_gets_no_cors_headers :: "contract \<Rightarrow> cors_settings \<Rightarrow> bool" where
  "request_without_an_origin_gets_no_cors_headers k dj \<longleftrightarrow>
    reply_is (\<lambda>r. reply_headers r ''access-control-allow-origin'' = None) (run_request k dj ''GET'' (1/5) [] (1/20))"

text \<open>The second request arrives while the first is abandoned.\<close>

definition worker_sheds_once_the_abandoned_pool_is_full :: "contract \<Rightarrow> bool" where
  "worker_sheds_once_the_abandoned_pool_is_full k \<longleftrightarrow>
    (let cfg = build k unconfigured (1/20) (Some 1) in
     case drive cfg 0 (slow_app 2) ''GET'' [] initial_server of
       None \<Rightarrow> False
     | Some (r, s, later) \<Rightarrow> reply_status r = 504 \<and>
         reply_is (\<lambda>r. reply_status r = 503 \<and> reply_headers r ''retry-after'' = Some (int_str (contract_retry_after k))
             \<and> envelope_is (reply_body r) 503 (contract_overloaded_message k))
           (drive cfg 1 (slow_app 2) ''GET'' [] s))"

definition preflights_are_never_shed :: "contract \<Rightarrow> bool" where
  "preflights_are_never_shed k \<longleftrightarrow>
    reply_is (\<lambda>r. reply_status r = 200)
      (drive (build k unconfigured (1/20) (Some 0)) 0 (slow_app 0) (never_shed_method k) [] initial_server)"

text \<open>The two delays are popped by the two requests; between them the first application finishes.\<close>

definition shedding_stops_once_the_abandoned_work_drains :: "contract \<Rightarrow> bool" where
  "shedding_stops_once_the_abandoned_work_drains k \<longleftrightarrow>
    (let cfg = build k unconfigured (1/20) (Some 1) in
     case drive cfg 0 (slow_app (1/5)) ''GET'' [] initial_server of
       None \<Rightarrow> False
     | Some (r, s, later) \<Rightarrow> reply_status r = 504 \<and>
         (case run_events cfg later s of
           None \<Rightarrow> False
         | Some s' \<Rightarrow> reply_is (\<lambda>r. reply_status r = 200) (drive cfg 1 (slow_app 0) ''GET'' [] s')))"

text \<open>The module's ceiling is patched before the middleware is built without one of its own.\<close>

definition ceiling_defaults_to_the_module_setting :: "contract \<Rightarrow> bool" where
  "ceiling_defaults_to_the_module_setting k \<longleftrightarrow> ceiling (construct k (Fin (3/2)) unconfigured None None) = Fin (3/2)"

text \<open>The two opt-in checks are skipped, which is no failure, unless their knob is set.\<close>

definition assert_no_timeout_middleware_entry :: "string \<Rightarrow> string list \<Rightarrow> bool" where
  "assert_no_timeout_middleware_entry needle middleware \<longleftrightarrow>
    \<not> list_ex (\<lambda>entry. contains needle (lower entry)) middleware"

definition no_request_timeout_middleware_installed :: "contract \<Rightarrow> string list \<Rightarrow> bool" where
  "no_request_timeout_middleware_installed k middleware \<longleftrightarrow>
    (if forbid_middleware_entry k then assert_no_timeout_middleware_entry ''timeout'' middleware else True)"

definition assert_ceiling_clears_statement_timeout :: "real \<Rightarrow> pyfloat \<Rightarrow> bool" where
  "assert_ceiling_clears_statement_timeout ceiling_seconds statement_timeout_ms \<longleftrightarrow>
    (case int_of_float statement_timeout_ms of Inl e \<Rightarrow> False | Inr ms \<Rightarrow> assert_timeout_invariant ceiling_seconds ms)"

definition ceiling_clears_the_statement_timeout :: "contract \<Rightarrow> bool" where
  "ceiling_clears_the_statement_timeout k \<longleftrightarrow>
    (case db_statement_timeout_ms k of
      None \<Rightarrow> True
    | Some ms \<Rightarrow> assert_ceiling_clears_statement_timeout (contract_ceiling k) ms)"

definition contract_holds :: "contract \<Rightarrow> string list \<Rightarrow> bool" where
  "contract_holds k middleware \<longleftrightarrow>
    safe_methods_over_the_ceiling_return_504 k \<and> timed_out_request_is_abandoned_not_cancelled k
    \<and> unsafe_methods_are_never_cut_short k \<and> safe_method_under_the_ceiling_passes_through k
    \<and> a_started_response_is_never_replaced_with_a_504 k \<and> timeout_reply_uses_the_error_envelope k
    \<and> timeout_reply_carries_cors_headers k \<and> (\<forall>b. unlisted_origin_gets_no_cors_headers k b)
    \<and> (\<forall>os. allow_all_origins_answers_with_a_wildcard k os)
    \<and> (\<forall>dj. request_without_an_origin_gets_no_cors_headers k dj)
    \<and> worker_sheds_once_the_abandoned_pool_is_full k \<and> preflights_are_never_shed k
    \<and> shedding_stops_once_the_abandoned_work_drains k \<and> ceiling_defaults_to_the_module_setting k
    \<and> no_request_timeout_middleware_installed k middleware \<and> ceiling_clears_the_statement_timeout k"

text \<open>A middleware and its knobs that fit together, and knobs that fit the project.\<close>

definition fits :: "contract \<Rightarrow> bool" where
  "fits k \<longleftrightarrow>
    (\<forall>own dj t n. let cfg = construct k own dj t n in
      ceiling cfg = (case t of None \<Rightarrow> own | Some s \<Rightarrow> Fin s) \<and> max_abandoned cfg = Fin (real (the_default 50 n)) \<and> error_body cfg = error_messages dj
      \<and> retry_after cfg = Some (contract_retry_after k)
      \<and> timeout_message cfg = contract_timeout_message k \<and> overloaded_message cfg = contract_overloaded_message k
      \<and> list_all (\<lambda>m. is_capped cfg (Some m)) (''GET'' # contract_safe_methods k)
      \<and> list_all (\<lambda>m. \<not> is_capped cfg (Some m)) (contract_unsafe_methods k)
      \<and> never_shed_method k \<in> set (never_shed cfg) \<and> ''GET'' \<notin> set (never_shed cfg))
    \<and> contract_origin k \<noteq> [] \<and> contract_origin k \<noteq> ''https://elsewhere.example''"

section \<open>Every fitting middleware passes\<close>

lemma renderer_json: "error_body cfg = error_messages dj \<Longrightarrow> error_renderer (error_body cfg)"
  using json_errors.error_renderer_axioms by simp

lemma fitsD:
  assumes "fits k"
  shows "ceiling (build k dj t n) = Fin t" "max_abandoned (build k dj t n) = Fin (real (the_default 50 n))"
    "error_body (build k dj t n) = error_messages dj" "retry_after (build k dj t n) = Some (contract_retry_after k)"
    "m \<in> set (''GET'' # contract_safe_methods k) \<Longrightarrow> is_capped (build k dj t n) (Some m)"
    "m \<in> set (contract_unsafe_methods k) \<Longrightarrow> \<not> is_capped (build k dj t n) (Some m)"
    "never_shed_method k \<in> set (never_shed (build k dj t n))" "''GET'' \<notin> set (never_shed (build k dj t n))"
    "timeout_message (build k dj t n) = contract_timeout_message k"
    "overloaded_message (build k dj t n) = contract_overloaded_message k"
    "contract_origin k \<noteq> []" "contract_origin k \<noteq> ''https://elsewhere.example''"
proof -
  have "ceiling (build k dj t n) = Fin t \<and> max_abandoned (build k dj t n) = Fin (real (the_default 50 n))
    \<and> error_body (build k dj t n) = error_messages dj \<and> retry_after (build k dj t n) = Some (contract_retry_after k)
    \<and> timeout_message (build k dj t n) = contract_timeout_message k
    \<and> overloaded_message (build k dj t n) = contract_overloaded_message k
    \<and> list_all (\<lambda>m. is_capped (build k dj t n) (Some m)) (''GET'' # contract_safe_methods k)
    \<and> list_all (\<lambda>m. \<not> is_capped (build k dj t n) (Some m)) (contract_unsafe_methods k)
    \<and> never_shed_method k \<in> set (never_shed (build k dj t n)) \<and> ''GET'' \<notin> set (never_shed (build k dj t n))"
    using assms [unfolded fits_def, THEN conjunct1, THEN spec, THEN spec, THEN spec, THEN spec,
        of "Fin REQUEST_TIMEOUT_SECONDS" dj "Some t" n] unfolding Let_def option.case .
  moreover have "contract_origin k \<noteq> [] \<and> contract_origin k \<noteq> ''https://elsewhere.example''"
    using assms [unfolded fits_def] by (rule conjunct2)
  ultimately show "ceiling (build k dj t n) = Fin t" "max_abandoned (build k dj t n) = Fin (real (the_default 50 n))"
    "error_body (build k dj t n) = error_messages dj" "retry_after (build k dj t n) = Some (contract_retry_after k)"
    "m \<in> set (''GET'' # contract_safe_methods k) \<Longrightarrow> is_capped (build k dj t n) (Some m)"
    "m \<in> set (contract_unsafe_methods k) \<Longrightarrow> \<not> is_capped (build k dj t n) (Some m)"
    "never_shed_method k \<in> set (never_shed (build k dj t n))" "''GET'' \<notin> set (never_shed (build k dj t n))"
    "timeout_message (build k dj t n) = contract_timeout_message k"
    "overloaded_message (build k dj t n) = contract_overloaded_message k"
    "contract_origin k \<noteq> []" "contract_origin k \<noteq> ''https://elsewhere.example''"
    unfolding list_all_iff by blast+
qed

lemma fits_time [simp]: "fits k \<Longrightarrow> in_time (build k dj t n) d \<longleftrightarrow> d < t"
  by (simp add: in_time_def fitsD)

lemma fits_limit [simp]: "fits k \<Longrightarrow> over_limit (build k dj t n) ab \<longleftrightarrow> the_default 50 n \<le> length ab"
  by (auto simp: over_limit_def fitsD flt_le_def)

text \<open>The reply to a capped method over the ceiling on a fresh server, header by header.\<close>

lemma fits_over:
  assumes "fits k" and "m \<in> set (''GET'' # contract_safe_methods k)" and "t \<le> d" and "0 < the_default 50 n"
  shows "\<exists>r s later s'. drive (build k dj t n) 0 (slow_app d) m hs initial_server = Some (r, s, later)
    \<and> reply_status r = 504 \<and> collect (timeout_reply (build k dj t n) (drive_scope m hs)) False = Some r
    \<and> abandoned s = [0] \<and> run_events (build k dj t n) later s = Some s' \<and> app (reqs s' 0) = Ended \<and> abandoned s' = []"
proof -
  let ?cfg = "build k dj t n"
  have "m \<in> set (never_shed ?cfg) \<or> \<not> over_limit ?cfg (abandoned initial_server)" "\<not> in_time ?cfg d"
    using assms by auto
  from drive_over [OF initial_inv initial_unseen(1) renderer_json [OF fitsD(3) [OF assms(1)]]
      fitsD(5) [OF assms(1,2)] this, of 0 hs]
  show ?thesis by auto
qed

lemma timeout_reply_json:
  assumes "error_body cfg = error_messages dj"
  shows "collect (timeout_reply cfg c) fin =
    (let body = error_body_text 504 (timeout_message cfg) in
     Some \<lparr>reply_status = 504, reply_headers = map_of (rev ([(''content-type'', ''application/json''),
       (''content-length'', nat_str (length body))] @ cors_headers dj c)), reply_body = body, reply_finished = fin\<rparr>)"
  by (simp add: timeout_reply_def assms error_messages_def retry_after_header_def collect_def Let_def)

lemma fits_over_headers:
  assumes "fits k"
  shows "reply_is P (run_request k dj ''GET'' (1/5) hs (1/20)) \<longleftrightarrow>
    P (the (collect (timeout_reply (build k dj (1/20) None) (drive_scope ''GET'' hs)) False))"
  using fits_over [OF assms, of "''GET''" "1/20" "1/5" None dj hs] by (auto simp: run_request_def reply_is_def)

lemma envelope_read: "st \<in> {503, 504} \<Longrightarrow> envelope_is (error_body_text st t) st' t' \<longleftrightarrow> st' = st \<and> t' = t"
proof -
  assume "st \<in> {503, 504}"
  then have "st = 503 \<or> st = 504" by simp
  then have "prints st" by (elim disjE) (simp_all add: nat_str.simps max_str_digits_def)
  moreover have "''status_code'' \<noteq> ''messages''" by simp
  ultimately show ?thesis by (auto simp: envelope_is_def error_body_reads doubleton_eq_iff simp del: list.inject char.inject)
qed

text \<open>One lemma per group of checks.\<close>

lemma checks_over:
  assumes "fits k"
  shows "safe_methods_over_the_ceiling_return_504 k" "timed_out_request_is_abandoned_not_cancelled k"
proof -
  have over: "\<exists>r s later s'. drive (build k unconfigured (1/20) None) 0 (slow_app d) m [] initial_server = Some (r, s, later)
      \<and> reply_status r = 504 \<and> run_events (build k unconfigured (1/20) None) later s = Some s' \<and> app (reqs s' 0) = Ended"
    if "m \<in> set (contract_safe_methods k)" "1/20 \<le> d" for m d
    using fits_over [OF assms, of m "1/20" d None unconfigured "[]"] that by auto
  show "safe_methods_over_the_ceiling_return_504 k"
    unfolding safe_methods_over_the_ceiling_return_504_def list_all_iff run_request_def reply_is_def
    using over [of _ 1] by fastforce
  show "timed_out_request_is_abandoned_not_cancelled k"
    unfolding timed_out_request_is_abandoned_not_cancelled_def list_all_iff Let_def
    using over [of _ "1/5"] by fastforce
qed

lemma checks_under:
  assumes "fits k"
  shows "unsafe_methods_are_never_cut_short k" "safe_method_under_the_ceiling_passes_through k"
    "preflights_are_never_shed k"
proof -
  have pass: "reply_is (\<lambda>r. r = app_reply) (drive (build k unconfigured t n) 0 (slow_app d) m [] initial_server)"
    if "\<not> is_capped (build k unconfigured t n) (Some m)
      \<or> (m \<in> set (never_shed (build k unconfigured t n)) \<or> 0 < the_default 50 n) \<and> d < t" for m d t n
  proof -
    let ?cfg = "build k unconfigured t n"
    have "\<not> is_capped ?cfg (Some m)
        \<or> (m \<in> set (never_shed ?cfg) \<or> \<not> over_limit ?cfg (abandoned initial_server)) \<and> in_time ?cfg d"
      using that assms by auto
    from drive_passes [OF initial_inv initial_unseen(1) this, of 0 "[]"] show ?thesis by (auto simp: reply_is_def)
  qed
  have reply: "reply_is P d" if "reply_is (\<lambda>r. r = app_reply) d" "P app_reply" for P d
    using that by (auto simp: reply_is_def split: option.splits)
  show "unsafe_methods_are_never_cut_short k"
    unfolding unsafe_methods_are_never_cut_short_def list_all_iff run_request_def
    by (auto intro!: reply [OF pass] simp: fitsD [OF assms])
  show "safe_method_under_the_ceiling_passes_through k"
    unfolding safe_method_under_the_ceiling_passes_through_def run_request_def by (rule reply [OF pass]) simp_all
  show "preflights_are_never_shed k"
    unfolding preflights_are_never_shed_def by (rule reply [OF pass]) (simp_all add: fitsD [OF assms])
qed

lemma check_started:
  assumes "fits k"
  shows "a_started_response_is_never_replaced_with_a_504 k"
  using assms fitsD(5) [OF assms, of "''GET''" unconfigured "1/20" None]
  by (simp add: a_started_response_is_never_replaced_with_a_504_def reply_is_def drive_def drive_events_def
      started_app_def sends_def arrive_def fresh_request_def app_sends_def app_ends_def asgi_order_def
      ceiling_passes_def collect_def Let_def wire_of_def initial_server_def transmit_def put_request_def)

lemma checks_headers:
  assumes "fits k"
  shows "timeout_reply_uses_the_error_envelope k" "timeout_reply_carries_cors_headers k" "unlisted_origin_gets_no_cors_headers k b"
    "allow_all_origins_answers_with_a_wildcard k os" "request_without_an_origin_gets_no_cors_headers k dj"
  using fitsD [OF assms]
  by (simp_all add: timeout_reply_uses_the_error_envelope_def timeout_reply_carries_cors_headers_def
      unlisted_origin_gets_no_cors_headers_def allow_all_origins_answers_with_a_wildcard_def
      request_without_an_origin_gets_no_cors_headers_def fits_over_headers [OF assms] timeout_reply_json
      envelope_read
      cors_headers_def request_origin_def drive_scope_def unconfigured_def Let_def)

lemma check_shed:
  assumes "fits k"
  shows "worker_sheds_once_the_abandoned_pool_is_full k"
proof -
  let ?cfg = "build k unconfigured (1/20) (Some 1)"
  obtain r s later where first: "drive ?cfg 0 (slow_app 2) ''GET'' [] initial_server = Some (r, s, later)"
    "reply_status r = 504" "abandoned s = [0]"
    using fits_over [OF assms, of "''GET''" "1/20" 2 "Some 1" unconfigured "[]"] by auto
  have u: "handler (reqs s 1) = Unseen"
    using drive_then(2) [OF first(1) reachable.start, of 1] by simp
  have full: "over_limit ?cfg (abandoned s)" using assms first(3) by simp
  have get: "is_capped ?cfg (Some ''GET'')" using fitsD(5) [OF assms] by simp
  from drive_shed [OF drive_then(1) [OF first(1) reachable.start] u renderer_json [OF fitsD(3) [OF assms]]
      get fitsD(8) [OF assms] full, of "slow_app 2" "[]"]
  obtain r' s' where second: "drive ?cfg 1 (slow_app 2) ''GET'' [] s = Some (r', s', [])" "reply_status r' = 503"
    "collect (overloaded_reply ?cfg (drive_scope ''GET'' [])) False = Some r'"
    by auto
  from second(3) have "reply_headers r' ''retry-after'' = Some (int_str (contract_retry_after k))
      \<and> envelope_is (reply_body r') 503 (contract_overloaded_message k)"
    using fitsD(3,4,10) [OF assms]
    by (auto simp: envelope_read overloaded_reply_def error_messages_def retry_after_header_def cors_headers_def request_origin_def
        drive_scope_def collect_def Let_def)
  with first second show ?thesis
    by (simp add: worker_sheds_once_the_abandoned_pool_is_full_def reply_is_def)
qed

lemma check_drains:
  assumes "fits k"
  shows "shedding_stops_once_the_abandoned_work_drains k"
proof -
  let ?cfg = "build k unconfigured (1/20) (Some 1)"
  obtain r s later s' where first: "drive ?cfg 0 (slow_app (1/5)) ''GET'' [] initial_server = Some (r, s, later)"
    "reply_status r = 504" "run_events ?cfg later s = Some s'" "abandoned s' = []"
    using fits_over [OF assms, of "''GET''" "1/20" "1/5" "Some 1" unconfigured "[]"] by auto
  have u: "handler (reqs s' 1) = Unseen"
    using drive_then(4) [OF first(1) reachable.start first(3), of 1] by simp
  have free: "\<not> is_capped ?cfg (Some ''GET'')
      \<or> (''GET'' \<in> set (never_shed ?cfg) \<or> \<not> over_limit ?cfg (abandoned s')) \<and> in_time ?cfg 0"
    using assms first(4) by simp
  from drive_passes [OF drive_then(3) [OF first(1) reachable.start first(3)] u free, of "[]"] first show ?thesis
    by (auto simp: shedding_stops_once_the_abandoned_work_drains_def reply_is_def)
qed

text \<open>What the two opt-in checks ask of the project.\<close>

definition project_fits :: "contract \<Rightarrow> string list \<Rightarrow> bool" where
  "project_fits k middleware \<longleftrightarrow>
    (forbid_middleware_entry k \<longrightarrow> list_all (\<lambda>entry. \<not> contains ''timeout'' (lower entry)) middleware)
    \<and> (case db_statement_timeout_ms k of None \<Rightarrow> True | Some ms \<Rightarrow> \<exists>x. ms = Fin x \<and> 0 \<le> x \<and> x < 1000 * contract_ceiling k)"

lemma checks_project:
  assumes "project_fits k middleware"
  shows "no_request_timeout_middleware_installed k middleware" "ceiling_clears_the_statement_timeout k"
proof -
  show "no_request_timeout_middleware_installed k middleware"
    using assms by (auto simp: project_fits_def no_request_timeout_middleware_installed_def
        assert_no_timeout_middleware_entry_def list_all_iff list_ex_iff)
  have "of_int \<lfloor>x\<rfloor> / 1000 < c" if "x < 1000 * c" for x c :: real
    using that of_int_floor_le [of x] by linarith
  with assms show "ceiling_clears_the_statement_timeout k"
    by (auto simp: project_fits_def ceiling_clears_the_statement_timeout_def assert_ceiling_clears_statement_timeout_def
        assert_timeout_invariant_def int_of_float_def split: option.splits)
qed

lemma check_default: "fits k \<Longrightarrow> ceiling_defaults_to_the_module_setting k"
  by (simp add: fits_def ceiling_defaults_to_the_module_setting_def Let_def)

section \<open>Properties\<close>

text \<open>
  Every middleware whose construction fits the knobs a service sets passes the suite it subclasses, with
  any CORS settings where a check leaves them open and the bodies compared as parsed JSON. The shipped one
  fits the shipped knobs.
\<close>

theorem fitting_middleware_passes:
  assumes "fits k" and "project_fits k middleware"
  shows "contract_holds k middleware"
  using checks_over [OF assms(1)] checks_under [OF assms(1)] check_started [OF assms(1)] checks_headers [OF assms(1)]
    check_shed [OF assms(1)] check_drains [OF assms(1)] check_default [OF assms(1)] checks_project [OF assms(2)]
  by (simp add: contract_holds_def)

definition UNSAFE_METHODS :: "string list" where
  "UNSAFE_METHODS = [''POST'', ''PUT'', ''PATCH'', ''DELETE'']"

definition ALLOWED_ORIGIN :: string where
  "ALLOWED_ORIGIN = ''https://cafm.netixai.dev''"

definition default_construct :: "pyfloat \<Rightarrow> cors_settings \<Rightarrow> real option \<Rightarrow> nat option \<Rightarrow> timeout_config" where
  "default_construct own dj t n =
    \<lparr>ceiling = init_timeout own (map_option Fin t) None (\<lambda>name. None), max_abandoned = Fin (real (the_default 50 n)),
     safe_methods = Some SAFE_METHODS_CAPPED, never_shed = NEVER_SHED, retry_after = Some RETRY_AFTER_SECONDS,
     error_body = error_messages dj, timeout_message = TIMEOUT_MESSAGE, overloaded_message = OVERLOADED_MESSAGE\<rparr>"

definition shipped_contract :: contract where
  "shipped_contract =
    \<lparr>contract_safe_methods = SAFE_METHODS_CAPPED, contract_unsafe_methods = UNSAFE_METHODS,
     never_shed_method = ''OPTIONS'', contract_ceiling = REQUEST_TIMEOUT_SECONDS,
     contract_timeout_message = TIMEOUT_MESSAGE, contract_overloaded_message = OVERLOADED_MESSAGE,
     contract_retry_after = RETRY_AFTER_SECONDS, contract_origin = ALLOWED_ORIGIN, forbid_middleware_entry = False,
     db_statement_timeout_ms = None, construct = default_construct\<rparr>"

lemma shipped_fits: "fits shipped_contract"
  by (simp add: fits_def shipped_contract_def default_construct_def init_timeout_def is_capped_def SAFE_METHODS_CAPPED_def
      UNSAFE_METHODS_def NEVER_SHED_def ALLOWED_ORIGIN_def Let_def split: option.split)

lemma fitting_middleware_passes_witness:
  "contract_holds (shipped_contract\<lparr>forbid_middleware_entry := True, db_statement_timeout_ms := Some (Fin 30000)\<rparr>)
    [ENVOY_MIDDLEWARE_PATH, TEST_MIDDLEWARE_PATH]"
proof (rule fitting_middleware_passes)
  show "fits (shipped_contract\<lparr>forbid_middleware_entry := True, db_statement_timeout_ms := Some (Fin 30000)\<rparr>)"
    using shipped_fits by (simp add: fits_def)
  have "list_all (\<lambda>entry. \<not> contains ''timeout'' (lower entry)) [ENVOY_MIDDLEWARE_PATH, TEST_MIDDLEWARE_PATH]"
    by code_simp
  then show "project_fits (shipped_contract\<lparr>forbid_middleware_entry := True, db_statement_timeout_ms := Some (Fin 30000)\<rparr>)
      [ENVOY_MIDDLEWARE_PATH, TEST_MIDDLEWARE_PATH]"
    by (simp add: project_fits_def shipped_contract_def REQUEST_TIMEOUT_SECONDS_def)
qed

end
