(* ===== verification/Refusals.thy ===== *)
theory Refusals
  imports Org_Scope Exceptions
begin

text \<open>
  The views of \<open>netix_backend/django/views.py\<close>, \<open>views_aio.py\<close> and \<open>org_scope.py\<close> together with the
  exception handler of \<open>exceptions.py\<close>: what a caller is answered when a view refuses. Django REST
  framework stands between them: it turns the constructor's arguments into an error detail and knows a
  status for its exceptions. Both are arguments, with what its documentation says of them as a contract.
\<close>

section \<open>The framework between\<close>

record drf =
  raised_as :: "exc \<Rightarrow> api_error"
  drf_status :: "api_error \<Rightarrow> int option"

text \<open>
  \<open>PermissionDenied(m)\<close>, \<open>ValidationError({field: m})\<close>, \<open>ValidationError(m)\<close> and Django's \<open>Http404\<close>;
  the texts of a detail are of the framework's own subclass of \<open>str\<close>.
\<close>

definition drf_contract :: "drf \<Rightarrow> bool" where
  "drf_contract d \<longleftrightarrow>
    (\<forall>m. \<exists>r. let e = raised_as d (Permission_Denied m) in
      error_kind e = Other_Kind \<and> error_detail e = VStrSub m r \<and> drf_status d e = Some 403)
    \<and> (\<forall>f m. \<exists>r. let e = raised_as d (Validation_Error (Some f) m) in
      error_kind e = Drf_Validation \<and> error_args e = [VDict [(VStr f, VStr m)]]
      \<and> error_detail e = VDict [(VStr f, VStrSub m r)] \<and> drf_status d e = Some 400)
    \<and> (\<forall>m. \<exists>r. let e = raised_as d (Validation_Error None m) in
      error_kind e = Drf_Validation \<and> error_args e = [VStr m] \<and> error_detail e = VList [VStrSub m r]
      \<and> drf_status d e = Some 400)
    \<and> (let e = raised_as d Http404 in error_kind e = Not_Found \<and> drf_status d e = Some 404)"

text \<open>What leaves the service: a plain status, an envelope, or the exception, which becomes a 500.\<close>

datatype outgoing = Plain int | Envelope int pyval | Uncaught exc

definition answer_of :: "error_settings \<Rightarrow> drf \<Rightarrow> int res \<Rightarrow> outgoing" where
  "answer_of st d result =
    (case result of
      Inr status \<Rightarrow> Plain status
    | Inl e \<Rightarrow>
        (case custom_exception_handler st (drf_status d) (raised_as d e) of
          Inr (Some r) \<Rightarrow> Envelope (response_status r) (response_messages r)
        | Inr None \<Rightarrow> Uncaught e
        | Inl e' \<Rightarrow> Uncaught e'))"

section \<open>The envelope of each refusal\<close>

lemma generic_text [simp]: "generic_key (VStr f) \<longleftrightarrow> f = ''detail'' \<or> f = ''message''"
  by (simp add: generic_key_def eq_text_def)

definition single_message :: "error_settings \<Rightarrow> bool \<Rightarrow> pyval \<Rightarrow> pyval" where
  "single_message st as_list m =
    (if set_consistent_envelope st then VList [VStr (py_str m)]
     else if \<not> as_list then m
     else if set_stringified st then VStr (py_str (VList [m])) else VList [m])"

lemma answer_permission:
  assumes "drf_contract d" and "m \<noteq> []"
  shows "answer_of st d (Inl (Permission_Denied m)) = Envelope 403 (single_message st (set_non_validation_as_list st) (VStr m))"
proof -
  obtain r where "error_kind (raised_as d (Permission_Denied m)) = Other_Kind"
    "error_detail (raised_as d (Permission_Denied m)) = VStrSub m r"
    "drf_status d (raised_as d (Permission_Denied m)) = Some 403"
    using assms(1) unfolding drf_contract_def Let_def by blast
  with assms(2) show ?thesis
    by (simp add: answer_of_def custom_exception_handler_def consistent_messages_def detail_of_def leaf_messages_def
        build_messages_def render_messages_def as_list_for_def single_message_def Let_def)
qed

lemma answer_not_found:
  assumes "drf_contract d"
  shows "answer_of st d (Inl Http404) = Envelope 404 (single_message st (set_http404_as_list st) (VStr HTTP404_MESSAGE))"
  using assms
  by (simp add: drf_contract_def Let_def answer_of_def custom_exception_handler_def consistent_messages_def
      build_messages_def render_messages_def as_list_for_def single_message_def)

lemma answer_field_error:
  assumes "drf_contract d" and "m \<noteq> []" and "f \<noteq> []" and "set_consistent_envelope st"
  shows "answer_of st d (Inl (Validation_Error (Some f) m)) =
    Envelope 400 (VList [VStr (if f = ''detail'' \<or> f = ''message'' then m else f @ '': '' @ m)])"
proof -
  obtain r where "error_kind (raised_as d (Validation_Error (Some f) m)) = Drf_Validation"
    "error_detail (raised_as d (Validation_Error (Some f) m)) = VDict [(VStr f, VStrSub m r)]"
    "drf_status d (raised_as d (Validation_Error (Some f) m)) = Some 400"
    using assms(1) unfolding drf_contract_def Let_def by blast
  with assms(2-4) show ?thesis
    by (simp add: answer_of_def custom_exception_handler_def consistent_messages_def detail_of_def leaf_messages_def
        key_path_def Let_def)
qed

lemma answer_list_error:
  assumes "drf_contract d" and "m \<noteq> []" and "set_consistent_envelope st"
  shows "answer_of st d (Inl (Validation_Error None m)) = Envelope 400 (VList [VStr m])"
proof -
  obtain r where "error_kind (raised_as d (Validation_Error None m)) = Drf_Validation"
    "error_detail (raised_as d (Validation_Error None m)) = VList [VStrSub m r]"
    "drf_status d (raised_as d (Validation_Error None m)) = Some 400"
    using assms(1) unfolding drf_contract_def Let_def by blast
  with assms(2,3) show ?thesis
    by (simp add: answer_of_def custom_exception_handler_def consistent_messages_def detail_of_def leaf_messages_def
        index_path_def Let_def)
qed

section \<open>A contract that holds\<close>

definition sample_drf :: drf where
  "sample_drf =
    \<lparr>raised_as = (\<lambda>e. case e of
        Permission_Denied m \<Rightarrow> \<lparr>error_kind = Other_Kind, error_args = [VStr m], error_detail = VStrSub m m,
          error_message = VNone, error_str = m\<rparr>
      | Validation_Error None m \<Rightarrow> \<lparr>error_kind = Drf_Validation, error_args = [VStr m],
          error_detail = VList [VStrSub m m], error_message = VNone, error_str = m\<rparr>
      | Validation_Error (Some f) m \<Rightarrow> \<lparr>error_kind = Drf_Validation, error_args = [VDict [(VStr f, VStr m)]],
          error_detail = VDict [(VStr f, VStrSub m m)], error_message = VNone, error_str = m\<rparr>
      | Http404 \<Rightarrow> \<lparr>error_kind = Not_Found, error_args = [], error_detail = VNone, error_message = VNone, error_str = []\<rparr>
      | _ \<Rightarrow> \<lparr>error_kind = Other_Kind, error_args = [], error_detail = VNone, error_message = VNone, error_str = []\<rparr>),
     drf_status = (\<lambda>e. case error_kind e of
        Drf_Validation \<Rightarrow> Some 400
      | Not_Found \<Rightarrow> Some 404
      | Other_Kind \<Rightarrow> if error_detail e = VNone then None else Some 403
      | Database \<Rightarrow> None)\<rparr>"

lemma sample_drf_contract: "drf_contract sample_drf"
  by (auto simp: drf_contract_def sample_drf_def Let_def)

section \<open>Properties\<close>

text \<open>
  C9. A tenant that names another organization on a rejecting view is told so and nothing is written: once
  the body validates, create (of one row or a list) and update (of the row, or of a list) raise before
  any save, and the caller gets a 403 whose only message is the refusal's own text, in the shape the
  settings ask for.
\<close>

theorem foreign_write_refused:
  assumes "drf_contract d"
    and "bound_request w = Some r" and "tenant_organization_id r = Inr (Some organization)"
    and "tenant_write_scope w = Scope_Pin_And_Reject"
    and "\<forall>a. action w = Some a \<longrightarrow> a \<notin> set (tenant_write_exempt_actions w)"
    and "probe_model_field m (tenant_write_scope_field w)"
    and "pinned_body w (Some m) data = Inr data'"
    and "\<And>target. validate data' (is_list_body data) target = Inr rows"
    and "list_ex (\<lambda>row. foreign_owner (get_val row (tenant_write_scope_field w)) organization) rows"
  shows "(let refused = Envelope 403 (single_message st (set_non_validation_as_list st)
        (VStr ''Cannot write records for another organization.''))
    in answer_of st d (map_sum id fst (create_view w (Some m) validate data)) = refused
      \<and> (is_list_body data \<or> (\<exists>i. get_object = Inr i) \<longrightarrow>
          answer_of st d (map_sum id fst (update_view w (Some m) validate get_object partial data)) = refused))"
proof -
  let ?e = "Permission_Denied ''Cannot write records for another organization.'' :: exc"
  have "view_organization_id w = Inr (Some organization)"
    using assms(2-5) by (auto simp: view_organization_id_Some)
  then have pinned: "tenant_save_kwargs w \<lparr>ser_model = Some m, validated = rows, ser_instance = target\<rparr> =
      Inr [(tenant_write_scope_field w, organization)]" for target
    using assms(6) by (intro tenant_save_kwargs_pinned) simp_all
  have hooks: "perform_create w \<lparr>ser_model = Some m, validated = rows, ser_instance = target\<rparr> = Inl ?e"
    "perform_update w \<lparr>ser_model = Some m, validated = rows, ser_instance = target\<rparr> = Inl ?e" for target
    using pinned assms(4,9) by (simp_all add: perform_create_def perform_update_def reject_foreign_body_def)
  have "create_view w (Some m) validate data = Inl ?e"
    by (simp add: create_view_def assms(7,8) hooks)
  moreover have "is_list_body data \<or> (\<exists>i. get_object = Inr i) \<longrightarrow>
      update_view w (Some m) validate get_object partial data = Inl ?e"
    by (auto simp: update_view_def assms(7,8) hooks)
  ultimately show ?thesis
    using answer_permission [OF assms(1), of "''Cannot write records for another organization.''" st] by (simp add: Let_def)
qed

lemma foreign_write_refused_witness:
  "answer_of default_error_settings sample_drf (map_sum id fst (create_view (pinning_view Scope_Pin_And_Reject)
      (Some [''id'', ''organization'']) (\<lambda>d many target. Inr [[(''organization_id'', VInt 9)]]) (Body_Map [])))
    = Envelope 403 (VStr ''Cannot write records for another organization.'')"
proof -
  let ?w = "pinning_view Scope_Pin_And_Reject" and ?rows = "[[(''organization_id'', VInt 9)]]"
  have "pinned_body ?w (Some [''id'', ''organization'']) (Body_Map []) = Inr (Body_Map [])"
    by (simp add: pinned_body_def get_serializer_data_def)
  moreover have "list_ex (\<lambda>row. foreign_owner (get_val row (tenant_write_scope_field ?w)) 7) ?rows"
    by code_simp
  ultimately show ?thesis
    using foreign_write_refused [OF sample_drf_contract _ tenant_request_organization, of ?w
        "[''id'', ''organization'']" "Body_Map []" "Body_Map []" "\<lambda>d many target. Inr ?rows" ?rows default_error_settings]
      organization_column
    by (simp add: Let_def single_message_def default_error_settings_def)
qed

text \<open>
  Asking for a row that is not there or, on a view that keeps \<open>soft_delete_404_on_repeat\<close>, is retired already.
\<close>

definition gone :: "soft_delete_view \<Rightarrow> int \<Rightarrow> store \<Rightarrow> bool" where
  "gone v p s \<longleftrightarrow>
    (case s p of None \<Rightarrow> True | Some old \<Rightarrow> soft_delete_404_on_repeat v \<and> truthy (get_val old (soft_delete_field v)))"

text \<open>
  C10. \<open>DELETE\<close> of a row that is not there is a 404 on both handlers, whatever the settings and the view, and so
  is \<open>DELETE\<close> of a retired row where the view answers repeats with 404, as it does by default; it changes
  nothing, and carries the handler's envelope exactly when the service opted in to the consistent one. Any
  other row is answered 204 by both once the soft delete accepts it, a retired row too where the view opted out.
\<close>

theorem missing_row_answered:
  assumes "drf_contract d" and "consistent_envelope v = set_consistent_envelope st"
  defines "answered \<equiv> if set_consistent_envelope st then Envelope 404 (VList [VStr HTTP404_MESSAGE]) else Plain 404"
  shows "if gone v p s
    then answer_of st d (fst (destroy v c (find_object p) s)) = answered \<and> snd (destroy v c (find_object p) s) = s
      \<and> answer_of st d (fst (adestroy v c (find_object p) s)) = answered \<and> snd (adestroy v c (find_object p) s) = s
    else (\<exists>old. s p = Some old \<and>
      (\<forall>i' s'. soft_delete_instance v c \<lparr>pk = p, columns = old\<rparr> s = (i', s', None) \<longrightarrow>
        answer_of st d (fst (destroy v c (find_object p) s)) = Plain 204 \<and> snd (destroy v c (find_object p) s) = s'
        \<and> answer_of st d (fst (adestroy v c (find_object p) s)) = Plain 204 \<and> snd (adestroy v c (find_object p) s) = s'))"
proof (cases "gone v p s")
  case True
  then have raised: "(case find_object p s of Inl e \<Rightarrow> e = Http404
      | Inr i \<Rightarrow> soft_delete_instance v c i s = (i, s, Some Http404))"
    by (auto simp: gone_def find_object_def soft_delete_instance_def split: option.splits)
  have out: "destroy v c (find_object p) s = (if consistent_envelope v then Inl Http404 else Inr 404, s)"
    "adestroy v c (find_object p) s = (if consistent_envelope v then Inl Http404 else Inr 404, s)"
    using raised
    by (auto simp: destroy_def destroy_body_def adestroy_def atomic_soft_delete_def atomically_def split: sum.splits)
  show ?thesis
    using answer_not_found [OF assms(1), of st] True
    by (simp add: out assms(2) single_message_def answered_def) (simp add: answer_of_def)
next
  case False
  then obtain old where old: "s p = Some old" by (auto simp: gone_def split: option.splits)
  then have "find_object p s = Inr \<lparr>pk = p, columns = old\<rparr>" by (simp add: find_object_def)
  with old False show ?thesis
    by (auto simp: destroy_def destroy_body_def adestroy_def atomic_soft_delete_def atomically_def answer_of_def)
qed

lemma missing_row_answered_witness:
  "answer_of default_error_settings sample_drf (fst (destroy retiring_view plain_class (find_object 5) [5 \<mapsto> retired_pump])) = Plain 404
    \<and> answer_of (default_error_settings\<lparr>set_consistent_envelope := True\<rparr>) sample_drf
        (fst (adestroy (retiring_view\<lparr>consistent_envelope := True\<rparr>) plain_class (find_object 6) [5 \<mapsto> retired_pump])) =
      Envelope 404 (VList [VStr HTTP404_MESSAGE])
    \<and> answer_of default_error_settings sample_drf
        (fst (adestroy (retiring_view\<lparr>soft_delete_404_on_repeat := False\<rparr>) plain_class (find_object 5) [5 \<mapsto> retired_pump])) = Plain 204"
proof -
  have gone: "gone retiring_view 5 [5 \<mapsto> retired_pump]" "gone (retiring_view\<lparr>consistent_envelope := True\<rparr>) 6 [5 \<mapsto> retired_pump]"
    "\<not> gone (retiring_view\<lparr>soft_delete_404_on_repeat := False\<rparr>) 5 [5 \<mapsto> retired_pump]"
    by (simp_all add: gone_def get_val_def)
  have accepted: "soft_delete_instance (retiring_view\<lparr>soft_delete_404_on_repeat := False\<rparr>) plain_class \<lparr>pk = 5, columns = retired_pump\<rparr> [5 \<mapsto> retired_pump]
      = (\<lparr>pk = 5, columns = retired_pump\<rparr>, [5 \<mapsto> retired_pump], None)"
    by (simp add: soft_delete_instance_def sample_save_def set_column_def dict_set_def dict_keys_def
        soft_delete_update_fields_def probe_model_field_def ends_with_def get_val_def)
  note plain = missing_row_answered [OF sample_drf_contract, of retiring_view default_error_settings 5 "[5 \<mapsto> retired_pump]" plain_class]
  note enveloped = missing_row_answered [OF sample_drf_contract, of "retiring_view\<lparr>consistent_envelope := True\<rparr>"
      "default_error_settings\<lparr>set_consistent_envelope := True\<rparr>" 6 "[5 \<mapsto> retired_pump]" plain_class]
  note opted_out = missing_row_answered [OF sample_drf_contract, of "retiring_view\<lparr>soft_delete_404_on_repeat := False\<rparr>"
      default_error_settings 5 "[5 \<mapsto> retired_pump]" plain_class]
  show ?thesis
    using plain enveloped opted_out unfolding if_P [OF gone(1)] if_P [OF gone(2)] if_not_P [OF gone(3)]
    by (simp add: default_error_settings_def accepted [simplified])
qed

text \<open>
  Malformed input is a 400 with one readable message: an organization parameter that is no number names
  the parameter, and a value error while listing or filtering says that the query is invalid.
\<close>

theorem malformed_input_answered:
  assumes "drf_contract d" and "set_consistent_envelope st"
    and "dict_get (query_params r) (superuser_org_query_param v) = Some raw" and "py_int raw = None"
    and "\<not> (superuser_org_blank_is_absent v \<and> raw = [])"
    and "superuser_org_query_param v \<notin> {[], ''detail'', ''message''}" and "superuser_org_invalid_message v \<noteq> []"
  shows "answer_of st d (map_sum id (\<lambda>t. 200) (superuser_target_organization_id v (Some r))) =
      Envelope 400 (VList [VStr (superuser_org_query_param v @ '': '' @ superuser_org_invalid_message v)])
    \<and> answer_of st d (list_view list_error_map (\<lambda>q. Inl (Value_Error text')) q) = Envelope 400 (VList [VStr ''Invalid query''])"
  using answer_field_error [OF assms(1) assms(7) _ assms(2), of "superuser_org_query_param v"]
    answer_list_error [OF assms(1) _ assms(2), of "''Invalid query''"] assms(3-6)
  by (auto simp: superuser_target_organization_id_def list_view_def mapped_list_errors_def list_error_map_def)

lemma malformed_input_answered_witness:
  "answer_of (default_error_settings\<lparr>set_consistent_envelope := True\<rparr>) sample_drf
    (map_sum id (\<lambda>t. 200) (superuser_target_organization_id org_scope_defaults
      (Some (tenant_request\<lparr>query_params := [(ORGANIZATION_QUERY_PARAM, ''x'')]\<rparr>)))) =
    Envelope 400 (VList [VStr (ORGANIZATION_QUERY_PARAM @ '': '' @ INVALID_ORGANIZATION)])"
proof -
  have "py_int ''x'' = None" by code_simp
  then show ?thesis
    using malformed_input_answered [OF sample_drf_contract, of "default_error_settings\<lparr>set_consistent_envelope := True\<rparr>"
        "tenant_request\<lparr>query_params := [(ORGANIZATION_QUERY_PARAM, ''x'')]\<rparr>" org_scope_defaults "''x''" "[]" "()",
        THEN conjunct1]
    by (simp add: org_scope_defaults_def ORGANIZATION_QUERY_PARAM_def INVALID_ORGANIZATION_def)
qed

end
