(* ===== verification/Static_Calls.thy ===== *)
theory Static_Calls
  imports Static_Files
begin

text \<open>
  The helpers of \<open>netix_backend/http/static.py\<close> as they are called: the settings they read, the form
  they send, and the httpx client they borrow or build, use and close. Clients are handles into a pool
  that records which of them are open.
\<close>

section \<open>The client of one call\<close>

record client_pool =
  next_client :: nat
  open_clients :: "nat set"

definition pool_ok :: "client_pool \<Rightarrow> bool" where
  "pool_ok p \<longleftrightarrow> (\<forall>c \<in> open_clients p. c < next_client p)"

definition open_new :: "client_pool \<Rightarrow> nat \<times> client_pool" where
  "open_new p = (next_client p, \<lparr>next_client = Suc (next_client p), open_clients = insert (next_client p) (open_clients p)\<rparr>)"

definition close_client :: "nat \<Rightarrow> client_pool \<Rightarrow> client_pool" where
  "close_client c p = p\<lparr>open_clients := open_clients p - {c}\<rparr>"

text \<open>
  The context manager: a given client is used as it is; else one is built, which may raise before
  anything is open, and closed whatever the block does.
\<close>

definition client_context ::
    "nat option \<Rightarrow> static_client res \<Rightarrow> (nat \<Rightarrow> client_pool \<Rightarrow> 'a res \<times> 'e list \<times> client_pool) \<Rightarrow>
      client_pool \<Rightarrow> 'a res \<times> 'e list \<times> client_pool" where
  "client_context client build block p =
    (case client of
      Some c \<Rightarrow> block c p
    | None \<Rightarrow>
        (case build of
          Inl e \<Rightarrow> (Inl e, [], p)
        | Inr settings \<Rightarrow>
            (let (c, p1) = open_new p; (result, es, p2) = block c p1 in (result, es, close_client c p2))))"

section \<open>What is sent\<close>

text \<open>A date or datetime is sent in its ISO form, a string as it is.\<close>

datatype retention = Iso_Text string | Iso_Date string
  \<comment> \<open>the string itself, or the date's \<open>isoformat\<close>\<close>

fun iso :: "retention \<Rightarrow> string" where
  "iso (Iso_Text t) = t"
| "iso (Iso_Date t) = t"

definition upload_form :: "string \<Rightarrow> string \<Rightarrow> retention \<Rightarrow> string option \<Rightarrow> (string, string) dict" where
  "upload_form name mime retention_date description =
    [(''name'', name), (''mime'', mime), (''retention_date'', iso retention_date)]
    @ (case description of None \<Rightarrow> [] | Some d \<Rightarrow> [(''description'', d)])"

text \<open>A request of a helper: the client it goes through, the path, the form and the file's parts.\<close>

record static_request =
  through :: nat
  req_path :: string
  req_form :: "(string, string) dict"
  req_file :: "(string \<times> string \<times> string) option"

text \<open>The block of either helper: its attempt loop, every attempt of which sends the same request.\<close>

definition send_all ::
    "(nat \<Rightarrow> static_request) \<Rightarrow> 'a res \<times> static_event list \<Rightarrow> nat \<Rightarrow> client_pool \<Rightarrow>
      'a res \<times> static_request list \<times> client_pool" where
  "send_all request run c p = (fst run, map (\<lambda>k. request c) (calls_of (snd run)), p)"

definition upload_call ::
    "environ \<Rightarrow> bound_settings \<Rightarrow> snapshot \<Rightarrow> string \<Rightarrow> string \<Rightarrow> string \<Rightarrow> retention \<Rightarrow> string option \<Rightarrow>
      pyfloat option \<Rightarrow> int option \<Rightarrow> nat option \<Rightarrow> bool \<Rightarrow> static_world \<Rightarrow> client_pool \<Rightarrow>
      row res \<times> static_request list \<times> client_pool" where
  "upload_call env bound snap name content mime retention_date description timeout retries' client given_transport w p =
    (let form = upload_form name mime retention_date description; files = (name, content, mime) in
     case static_attempts env bound retries' of
       Inl e \<Rightarrow> (Inl e, [], p)
     | Inr attempts \<Rightarrow>
         (case default_backoff env bound of
           Inl e \<Rightarrow> (Inl e, [], p)
         | Inr backoff \<Rightarrow>
             client_context client (build_static_client env snap timeout given_transport)
               (send_all (\<lambda>c. \<lparr>through = c, req_path = UPLOAD_PATH, req_form = form, req_file = Some files\<rparr>)
                 (static_upload w attempts backoff)) p))"

definition fetch_call ::
    "environ \<Rightarrow> bound_settings \<Rightarrow> snapshot \<Rightarrow> string \<Rightarrow> pyfloat option \<Rightarrow> int option \<Rightarrow> nat option \<Rightarrow> bool \<Rightarrow>
      static_world \<Rightarrow> client_pool \<Rightarrow> static_response res \<times> static_request list \<times> client_pool" where
  "fetch_call env bound snap link timeout retries' client given_transport w p =
    (case static_attempts env bound retries' of
       Inl e \<Rightarrow> (Inl e, [], p)
     | Inr attempts \<Rightarrow>
         (case default_backoff env bound of
           Inl e \<Rightarrow> (Inl e, [], p)
         | Inr backoff \<Rightarrow>
             client_context client (build_static_client env snap timeout given_transport)
               (send_all (\<lambda>c. \<lparr>through = c, req_path = link, req_form = [], req_file = None\<rparr>)
                 (static_download link w attempts backoff)) p))"

section \<open>Lemmas\<close>

text \<open>
  What the context makes of such a block: no client is left open, the borrowed one is not touched, and
  the requests go through the given client or the one built for them.
\<close>

lemma client_context_sends:
  assumes "pool_ok p" and "client_context client build (send_all request run) p = (result, reqs, p')"
  shows "open_clients p' = open_clients p \<and> pool_ok p' \<and> (client \<noteq> None \<longrightarrow> p' = p)
    \<and> (\<forall>r \<in> set reqs. r = request (the_default (next_client p) client))
    \<and> (result = fst run \<and> reqs = map (\<lambda>k. request (the_default (next_client p) client)) (calls_of (snd run))
       \<or> client = None \<and> reqs = [] \<and> (\<exists>e. build = Inl e \<and> result = Inl e))"
proof -
  have "next_client p \<notin> open_clients p" using assms(1) by (auto simp: pool_ok_def)
  with assms show ?thesis
    by (auto simp: client_context_def send_all_def open_new_def close_client_def pool_ok_def less_Suc_eq
        split: option.splits sum.splits)
qed

section \<open>No client is leaked\<close>

text \<open>
  However a helper ends, with an answer, a service error, a setting that does not parse or a client that
  cannot be built, the clients open afterwards are those open before; a borrowed client is left as it
  is. Every request it made went through one client, the given or the built one, and all are alike: a
  retried upload sends the same form and file again.
\<close>

theorem no_client_leaked:
  assumes "pool_ok p"
  shows "(case upload_call env bound snap name content mime retention_date description timeout retries' client given w p of
      (result, reqs, p') \<Rightarrow> open_clients p' = open_clients p \<and> pool_ok p' \<and> (client \<noteq> None \<longrightarrow> p' = p)
        \<and> (\<forall>r \<in> set reqs. r = \<lparr>through = the_default (next_client p) client, req_path = UPLOAD_PATH,
             req_form = upload_form name mime retention_date description, req_file = Some (name, content, mime)\<rparr>))
    \<and> (case fetch_call env bound snap link timeout retries' client given w p of
      (result, reqs, p') \<Rightarrow> open_clients p' = open_clients p \<and> pool_ok p' \<and> (client \<noteq> None \<longrightarrow> p' = p)
        \<and> (\<forall>r \<in> set reqs. r = \<lparr>through = the_default (next_client p) client, req_path = link, req_form = [], req_file = None\<rparr>))"
  unfolding upload_call_def fetch_call_def Let_def
  using assms
  by (auto dest!: client_context_sends [OF assms] split: sum.splits)

lemma no_client_leaked_witness:
  "(case fetch_call Map.empty [] empty_snapshot ''/f'' (Some NaN) (Some 0) None False sample_static_world
      \<lparr>next_client = 1, open_clients = {0}\<rparr> of (result, reqs, p') \<Rightarrow> open_clients p' = {0})"
proof -
  have "pool_ok \<lparr>next_client = 1, open_clients = {0}\<rparr>" by (simp add: pool_ok_def)
  from no_client_leaked [OF this, where env = Map.empty and bound = "[]" and snap = empty_snapshot and link = "''/f''"
      and timeout = "Some NaN" and retries' = "Some 0" and client = None and given = False and w = sample_static_world]
  show ?thesis by (auto split: prod.splits)
qed

section \<open>Properties\<close>

text \<open>
  C34. An upload or a download, with settings that parse and a client at hand or built for it, sends one and
  the same request at most as often as it has attempts, through that client alone; it ends with the
  first answer that is not transient, or with the last attempt's error when all were; and the clients
  open afterwards are those open before, a borrowed one untouched.
\<close>

theorem static_call_outcome:
  assumes "pool_ok p" and "client \<noteq> None \<or> (\<exists>b. build_static_client env snap timeout given = Inr b)"
    and "static_attempts env bound retries' = Inr attempts" and "0 \<le> attempts"
    and "default_backoff env bound = Inr backoff" and "accepted_pauses w backoff"
  shows "(case upload_call env bound snap name content mime retention_date description timeout retries' client given w p of
      (result, reqs, p') \<Rightarrow> open_clients p' = open_clients p \<and> (client \<noteq> None \<longrightarrow> p' = p)
        \<and> (\<exists>es. ends_with_first_final ''upload'' upload_verdict w attempts (result, es)
            \<and> reqs = map (\<lambda>k. \<lparr>through = the_default (next_client p) client, req_path = UPLOAD_PATH,
                req_form = upload_form name mime retention_date description, req_file = Some (name, content, mime)\<rparr>)
                (calls_of es)))
    \<and> (case fetch_call env bound snap link timeout retries' client given w p of
      (result, reqs, p') \<Rightarrow> open_clients p' = open_clients p \<and> (client \<noteq> None \<longrightarrow> p' = p)
        \<and> (\<exists>es. ends_with_first_final ''download'' (fetch_verdict link) w attempts (result, es)
            \<and> reqs = map (\<lambda>k. \<lparr>through = the_default (next_client p) client, req_path = link, req_form = [],
                req_file = None\<rparr>) (calls_of es)))"
proof -
  note ends = static_loop_ends [OF assms(6,4)]
  have up: "ends_with_first_final ''upload'' upload_verdict w attempts
      (fst (static_upload w attempts backoff), snd (static_upload w attempts backoff))"
    using ends by (simp add: static_upload_def)
  have down: "ends_with_first_final ''download'' (fetch_verdict link) w attempts
      (fst (static_download link w attempts backoff), snd (static_download link w attempts backoff))"
    using ends by (simp add: static_download_def)
  show ?thesis
    unfolding upload_call_def fetch_call_def Let_def assms(3,5)
    using assms(2) by (auto dest!: client_context_sends [OF assms(1)] intro: up down)
qed

lemma static_call_outcome_witness:
  "(case upload_call Map.empty [] empty_snapshot ''a'' ''x'' ''text/plain'' (Iso_Date ''2026-01-01'') None None (Some 2) (Some 0) True
      sample_static_world \<lparr>next_client = 1, open_clients = {0}\<rparr> of
    (result, reqs, p') \<Rightarrow> p' = \<lparr>next_client = 1, open_clients = {0}\<rparr>
      \<and> (\<forall>r \<in> set reqs. through r = 0))"
proof -
  have ok: "pool_ok \<lparr>next_client = 1, open_clients = {0}\<rparr>" by (simp add: pool_ok_def)
  have attempts: "static_attempts Map.empty [] (Some 2) = Inr 3" by (simp add: static_attempts_def)
  have backoff: "default_backoff Map.empty [] = Inr DEFAULT_BACKOFF_FACTOR"
    by (simp add: default_backoff_def env_float_def lookup_def)
  have given: "Some 0 \<noteq> (None :: nat option) \<or> (\<exists>b. build_static_client Map.empty empty_snapshot None True = Inr b)" by simp
  from static_call_outcome [OF ok given attempts _ backoff sample_pauses,
      where name = "''a''" and content = "''x''" and mime = "''text/plain''" and retention_date = "Iso_Date ''2026-01-01''"
        and description = None, THEN conjunct1]
  show ?thesis by (auto split: prod.splits)
qed

end
