(* ===== verification/Class_Order.thy ===== *)
theory Class_Order
  imports Prelude "HOL-Library.Sublist"
begin

text \<open>
  How Python resolves a method in a class built from several bases: the C3 linearization of the language,
  and attribute look-up, with and without \<open>super\<close>, along it. The package's classes are combined this way
  and no other, so what a viewset does is decided here.
\<close>

section \<open>Linearization\<close>

text \<open>
  Merging linearizations: the first head that is in no tail comes next and is taken off every list; without
  one the class statement raises TypeError, here \<open>None\<close>.
\<close>

definition good_head :: "'c list list \<Rightarrow> 'c \<Rightarrow> bool" where
  "good_head seqs h \<longleftrightarrow> list_all (\<lambda>s. h \<notin> set (tl s)) seqs"

definition take_head :: "'c \<Rightarrow> 'c list \<Rightarrow> 'c list" where
  "take_head h s = (case s of [] \<Rightarrow> [] | x # xs \<Rightarrow> if x = h then xs else s)"

definition next_head :: "'c list list \<Rightarrow> 'c option" where
  "next_head seqs = find (good_head seqs) (map hd (filter (\<lambda>s. s \<noteq> []) seqs))"

lemma next_head_in:
  assumes "next_head seqs = Some h"
  obtains s where "s \<in> set seqs" "s \<noteq> []" "hd s = h"
proof -
  have "h \<in> set (map hd (filter (\<lambda>s. s \<noteq> []) seqs))"
    using assms unfolding next_head_def find_Some_iff by (metis nth_mem)
  with that show ?thesis by auto
qed

lemma next_head_good: "next_head seqs = Some h \<Longrightarrow> s \<in> set seqs \<Longrightarrow> h \<notin> set (tl s)"
  by (auto simp: next_head_def find_Some_iff good_head_def list_all_iff)

lemma length_take_head: "length (take_head h s) \<le> length s"
  by (cases s) (simp_all add: take_head_def)

lemma take_head_less:
  assumes "next_head seqs = Some h"
  shows "sum_list (map (length \<circ> take_head h) seqs) < sum_list (map length seqs)"
proof -
  obtain s where s: "s \<in> set seqs" "s \<noteq> []" "hd s = h" using next_head_in [OF assms] .
  then obtain xs ys where seqs: "seqs = xs @ s # ys" using split_list by metis
  have le: "sum_list (map (length \<circ> take_head h) zs) \<le> sum_list (map length zs)" for zs
    by (induction zs) (simp_all add: add_mono length_take_head)
  have "length (take_head h s) < length s" using s(2,3) by (cases s) (simp_all add: take_head_def)
  with le [of xs] le [of ys] show ?thesis by (simp add: seqs)
qed

function c3_merge :: "'c list list \<Rightarrow> 'c list option" where
  "c3_merge seqs =
    (if list_all (\<lambda>s. s = []) seqs then Some []
     else case next_head seqs of
       None \<Rightarrow> None
     | Some h \<Rightarrow> map_option ((#) h) (c3_merge (map (take_head h) seqs)))"
  by pat_completeness auto
termination
  by (relation "measure (\<lambda>seqs. sum_list (map length seqs))") (simp_all add: take_head_less)

declare c3_merge.simps [simp del]

text \<open>
  A class statement: the class object it makes, its bases in order, and the attributes its body defines.
  The classes known so far have a linearization each; those not under \<open>src\<close> come with theirs.
\<close>

record 'c py_class =
  cls_id :: 'c
  cls_bases :: "'c list"
  cls_attrs :: "string list"

type_synonym 'c linearizations = "'c \<rightharpoonup> 'c list"

definition class_mro :: "'c linearizations \<Rightarrow> 'c py_class \<Rightarrow> 'c list option" where
  "class_mro known c =
    (case those (map known (cls_bases c)) of
      None \<Rightarrow> None
    | Some orders \<Rightarrow> map_option ((#) (cls_id c)) (c3_merge (orders @ [cls_bases c])))"

text \<open>The statements of a module, in order; a failing one ends it.\<close>

fun class_statements :: "'c py_class list \<Rightarrow> 'c linearizations \<Rightarrow> 'c linearizations option" where
  "class_statements [] known = Some known"
| "class_statements (c # cs) known =
    (case class_mro known c of None \<Rightarrow> None | Some m \<Rightarrow> class_statements cs (known(cls_id c \<mapsto> m)))"

text \<open>
  Attribute look-up: the first class in order that defines the name, and from within a class the first
  after it.
\<close>

definition resolve :: "('c \<Rightarrow> string list) \<Rightarrow> 'c list \<Rightarrow> string \<Rightarrow> 'c option" where
  "resolve attrs order name = find (\<lambda>c. name \<in> set (attrs c)) order"

definition resolve_super :: "('c \<Rightarrow> string list) \<Rightarrow> 'c list \<Rightarrow> 'c \<Rightarrow> string \<Rightarrow> 'c option" where
  "resolve_super attrs order cls name = resolve attrs (tl (dropWhile (\<lambda>c. c \<noteq> cls) order)) name"

lemma resolve_Cons [simp]:
  "resolve attrs (c # cs) n = (if n \<in> set (attrs c) then Some c else resolve attrs cs n)"
  by (simp add: resolve_def)

section \<open>The laws of the order\<close>

text \<open>Every list merged keeps its own order, and nothing is added or repeated.\<close>

lemma subseq_take_head: "subseq (take_head h s) l \<Longrightarrow> subseq s (h # l)"
  by (cases s) (auto simp: take_head_def intro: subseq_Cons')

lemma set_take_head: "set s \<subseteq> insert h (set (take_head h s))"
  by (cases s) (auto simp: take_head_def)

lemma set_take_head_sub: "set (take_head h s) \<subseteq> set s"
  by (cases s) (auto simp: take_head_def)

lemma not_in_take_head: "distinct s \<Longrightarrow> h \<notin> set (tl s) \<Longrightarrow> h \<notin> set (take_head h s)"
  by (cases s) (auto simp: take_head_def)

lemma distinct_take_head: "distinct s \<Longrightarrow> distinct (take_head h s)"
  by (cases s) (auto simp: take_head_def)

lemma c3_merge_laws:
  assumes "c3_merge seqs = Some l" and "\<forall>s \<in> set seqs. distinct s"
  shows "(\<forall>s \<in> set seqs. subseq s l) \<and> set l = (\<Union>s \<in> set seqs. set s) \<and> distinct l"
  using assms
proof (induction seqs arbitrary: l rule: c3_merge.induct)
  case (1 seqs)
  show ?case
  proof (cases "list_all (\<lambda>s. s = []) seqs")
    case True
    with 1(2) show ?thesis by (subst (asm) c3_merge.simps) (auto simp: list_all_iff)
  next
    case False
    from 1(2) False obtain h l' where h: "next_head seqs = Some h" and l': "c3_merge (map (take_head h) seqs) = Some l'"
      and l: "l = h # l'"
      by (subst (asm) c3_merge.simps) (auto split: option.splits)
    from 1(1) [OF False h l'] 1(3) have ih: "\<forall>s \<in> set seqs. subseq (take_head h s) l'"
      "set l' = (\<Union>s \<in> set seqs. set (take_head h s))" "distinct l'"
      by (auto simp: distinct_take_head)
    obtain s0 where s0: "s0 \<in> set seqs" "s0 \<noteq> []" "hd s0 = h" using next_head_in [OF h] .
    then have hin: "h \<in> set s0" by (cases s0) auto
    have "h \<notin> set (take_head h s)" if "s \<in> set seqs" for s
      using not_in_take_head [of s h] next_head_good [OF h that] 1(3) that by blast
    then have "h \<notin> set l'" using ih(2) by blast
    moreover have "set l = (\<Union>s \<in> set seqs. set s)"
    proof
      show "set l \<subseteq> (\<Union>s \<in> set seqs. set s)" using s0(1) hin ih(2) set_take_head_sub [of h] by (auto simp: l)
      show "(\<Union>s \<in> set seqs. set s) \<subseteq> set l" using ih(2) set_take_head [of _ h] by (auto simp: l)
    qed
    ultimately show ?thesis using ih by (auto simp: l subseq_take_head)
  qed
qed

text \<open>
  Conversely, an order that every list follows, and of which every two neighbours stand in this order in
  some list, is the one that comes out.
\<close>

lemma subseq_set: "subseq xs ys \<Longrightarrow> set xs \<subseteq> set ys"
  by (auto dest: list_emb_set)

lemma subseq_head:
  assumes "subseq s (x # l)" and "distinct (x # l)"
  shows "subseq (take_head x s) l" "x \<notin> set (tl s)"
proof -
  show t: "subseq (take_head x s) l" using assms by (cases s) (auto simp: take_head_def dest: subseq_Cons2_neq)
  have "set (tl s) \<subseteq> set (take_head x s)" by (cases s) (auto simp: take_head_def)
  with subseq_set [OF t] assms(2) show "x \<notin> set (tl s)" by auto
qed

lemma pair_tail: "subseq [p, h] s \<Longrightarrow> h \<in> set (tl s)"
  by (cases s) (auto simp: subseq_singleton_left split: if_splits dest: subseq_Cons2' dest!: subseq_set)

lemma chained_pair:
  assumes "successively P (x # l)" and "h \<in> set l"
  shows "\<exists>p. P p h"
  using assms by (induction l arbitrary: x) auto

lemma c3_merge_chained:
  assumes "\<forall>s \<in> set seqs. subseq s l" and "distinct l" and "set l \<subseteq> (\<Union>s \<in> set seqs. set s)"
    and "successively (\<lambda>p h. \<exists>s \<in> set seqs. subseq [p, h] s) l"
  shows "c3_merge seqs = Some l"
  using assms
proof (induction l arbitrary: seqs)
  case Nil
  then show ?case by (subst c3_merge.simps) (auto simp: list_all_iff)
next
  case (Cons x l)
  note follows = subseq_head [OF _ Cons.prems(2)]
  have bad: "\<not> good_head seqs h" if "h \<in> set l" for h
    using chained_pair [OF Cons.prems(4) that] pair_tail by (fastforce simp: good_head_def list_all_iff)
  have good: "good_head seqs x" using Cons.prems(1) follows(2) by (auto simp: good_head_def list_all_iff)
  have heads: "hd s \<in> set (x # l)" if "s \<in> set seqs" "s \<noteq> []" for s
    using subseq_set [OF bspec [OF Cons.prems(1) that(1)]] hd_in_set [OF that(2)] by (rule subsetD)
  obtain s0 where s0: "s0 \<in> set seqs" "x \<in> set s0" using Cons.prems(3) by auto
  have "x \<notin> set (tl s0)" using follows(2) Cons.prems(1) s0(1) by simp
  with s0(2) have hd0: "s0 \<noteq> []" "hd s0 = x" by (cases s0; simp)+
  have "next_head seqs = Some x"
  proof (cases "next_head seqs")
    case None
    then have "\<not> good_head seqs (hd s0)" using s0(1) hd0(1) by (auto simp: next_head_def find_None_iff)
    with good hd0 show ?thesis by simp
  next
    case (Some h)
    then obtain s where "s \<in> set seqs" "s \<noteq> []" "hd s = h" by (rule next_head_in)
    then have "h = x \<or> h \<in> set l" using heads by auto
    moreover have "good_head seqs h" using Some by (auto simp: next_head_def find_Some_iff)
    ultimately show ?thesis using Some bad by auto
  qed
  moreover have "c3_merge (map (take_head x) seqs) = Some l"
  proof (rule Cons.IH)
    show "\<forall>s \<in> set (map (take_head x) seqs). subseq s l" using Cons.prems(1) follows(1) by auto
    show "distinct l" using Cons.prems(2) by simp
    show "set l \<subseteq> (\<Union>s \<in> set (map (take_head x) seqs). set s)"
    proof
      fix y assume y: "y \<in> set l"
      then obtain s where "s \<in> set seqs" "y \<in> set s" "y \<noteq> x" using Cons.prems(2,3) by auto
      then show "y \<in> (\<Union>s \<in> set (map (take_head x) seqs). set s)" using set_take_head [of s x] by auto
    qed
    have "subseq [p, h] (take_head x s)" if "subseq [p, h] s" "p \<noteq> x" for p h s
      using that by (cases s) (auto simp: take_head_def)
    note kept = this
    have "successively (\<lambda>p h. \<exists>s \<in> set seqs. subseq [p, h] s) l" using Cons.prems(4) by (cases l) simp_all
    then show "successively (\<lambda>p h. \<exists>s \<in> set (map (take_head x) seqs). subseq [p, h] s) l"
    proof (rule successively_mono)
      fix p h assume "p \<in> set l" and "\<exists>s \<in> set seqs. subseq [p, h] s"
      then obtain s where "s \<in> set seqs" "subseq [p, h] s" "p \<noteq> x" using Cons.prems(2) by auto
      with kept show "\<exists>s \<in> set (map (take_head x) seqs). subseq [p, h] s" by (auto intro!: bexI [of _ s])
    qed
  qed
  ultimately show ?case
    using s0(1) hd0(1) by (subst c3_merge.simps) (auto simp: list_all_iff)
qed

section \<open>The shapes the package uses\<close>

lemma c3_take:
  "next_head seqs = Some h \<Longrightarrow> c3_merge seqs = map_option ((#) h) (c3_merge (map (take_head h) seqs))"
  by (subst c3_merge.simps) (auto simp: next_head_def list_all_iff filter_empty_conv)

lemma next_head_found:
  assumes "good_head seqs h" and "seqs = xs @ s # ys" and "s \<noteq> []" and "hd s = h"
    and "\<forall>s \<in> set xs. s \<noteq> [] \<longrightarrow> \<not> good_head seqs (hd s)"
  shows "next_head seqs = Some h"
proof -
  have "find (good_head seqs) (map hd (filter (\<lambda>s. s \<noteq> []) xs)) = None"
    using assms(5) by (auto simp: find_None_iff)
  then have "find (good_head seqs) (map hd (filter (\<lambda>s. s \<noteq> []) xs) @ h # zs) = Some h" for zs
    using assms(1) by (induction xs) (auto split: if_splits)
  with assms(2-4) show ?thesis by (simp add: next_head_def)
qed

text \<open>A list that all others follow comes out as it is.\<close>

lemma own_order: "successively (\<lambda>p h. subseq [p, h] l) l"
proof (induction l rule: induct_list012)
  case (3 x y l)
  from 3(2) have "successively (\<lambda>p h. subseq [p, h] (x # y # l)) (y # l)"
    by (rule successively_mono) (meson list_emb_Cons)
  then show ?case by simp
qed simp_all

lemma c3_longest:
  assumes "l \<in> set seqs" and "distinct l" and "\<forall>s \<in> set seqs. subseq s l"
  shows "c3_merge seqs = Some l"
proof (rule c3_merge_chained)
  show "set l \<subseteq> (\<Union>s \<in> set seqs. set s)" using assms(1) by blast
  show "successively (\<lambda>p h. \<exists>s \<in> set seqs. subseq [p, h] s) l"
    using own_order [of l] by (rule successively_mono) (use assms(1) in blast)
qed (use assms in auto)

text \<open>
  Bases that share nothing but the root \<open>o\<close>, in front of one more: their orders, less the root, are put one
  after the other. \<open>xs\<close> is what is left of the first, and \<open>n\<close> of them are done.
\<close>

lemma take_head_id: "x \<notin> set s \<Longrightarrow> take_head x s = s"
  by (cases s) (auto simp: take_head_def)

lemma take_head_hit [simp]: "take_head x (x # s) = s"
  by (simp add: take_head_def)

lemma tl_sub: "x \<in> set (tl s) \<Longrightarrow> x \<in> set s"
  by (cases s) auto

lemma c3_stack_step:
  assumes "x \<noteq> o'" and "x \<notin> set xs" and "\<forall>s \<in> set others. x \<notin> set (tl s)"
  shows "c3_merge (replicate n [o'] @ ((x # xs) @ [o']) # others)
    = map_option ((#) x) (c3_merge (replicate n [o'] @ (xs @ [o']) # map (take_head x) others))"
proof -
  let ?seqs = "replicate n [o'] @ ((x # xs) @ [o']) # others"
  have "next_head ?seqs = Some x"
    using assms by (intro next_head_found [where xs = "replicate n [o']" and s = "(x # xs) @ [o']"])
      (auto simp: good_head_def list_all_iff)
  from c3_take [OF this] show ?thesis
    using assms(1) by (simp add: take_head_id)
qed

lemma heads_in: "[] \<notin> set bs \<Longrightarrow> set (map hd bs) \<subseteq> set (concat bs)"
proof (induction bs)
  case (Cons b bs)
  then show ?case by (cases b) auto
qed simp

lemma c3_stack:
  assumes "distinct (xs @ concat bs @ v # rest @ [o'])" and "[] \<notin> set bs"
  shows "c3_merge (replicate n [o'] @ (xs @ [o']) # map (\<lambda>b. b @ [o']) bs @ [v # rest @ [o'], map hd bs @ [v]])
    = Some (xs @ concat bs @ v # rest @ [o'])"
  using assms
proof (induction bs arbitrary: n xs)
  case Nil
  show ?case using Nil(1)
  proof (induction xs)
    case Nil
    then show ?case by (intro c3_longest) (auto simp: subseq_singleton_left)
  next
    case (Cons x xs)
    then have "map (take_head x) [v # rest @ [o'], [v]] = [v # rest @ [o'], [v]]" by (auto intro!: take_head_id)
    moreover have "x \<noteq> o'" "x \<notin> set xs" "\<forall>s \<in> set [v # rest @ [o'], [v]]. x \<notin> set (tl s)" using Cons(2) by auto
    ultimately show ?case using c3_stack_step [of x o' xs "[v # rest @ [o'], [v]]" n] Cons by simp
  qed
next
  case (Cons b bs)
  then obtain y ys where b: "b = y # ys" by (cases b) auto
  have heads: "set (map hd bs) \<subseteq> set (concat bs)" using heads_in [of bs] Cons.prems(2) by simp
  show ?case using Cons.prems(1)
  proof (induction xs)
    case Nil
    let ?others = "map (\<lambda>b. b @ [o']) bs @ [v # rest @ [o'], map hd (b # bs) @ [v]]"
    have taken: "map (take_head y) ?others = map (\<lambda>b. b @ [o']) bs @ [v # rest @ [o'], map hd bs @ [v]]"
      using Nil by (auto simp: b intro!: take_head_id)
    have y: "y \<noteq> o'" "y \<notin> set ys" "\<forall>s \<in> set ?others. y \<notin> set (tl s)"
      using Nil heads by (auto simp: b dest: tl_sub)
    have "distinct (ys @ concat bs @ v # rest @ [o'])" "[] \<notin> set bs" using Nil Cons.prems(2) by (simp_all add: b)
    note c3_stack_step [OF y, of "Suc n", unfolded taken Cons.IH [OF this, of "Suc n"]]
    then show ?case by (simp add: b replicate_app_Cons_same)
  next
    case (Cons x xs)
    let ?others = "map (\<lambda>b. b @ [o']) (b # bs) @ [v # rest @ [o'], map hd (b # bs) @ [v]]"
    have "x \<notin> set (concat bs)" using Cons(2) by simp
    with heads have "x \<notin> set (map hd bs)" by (rule contra_subsetD)
    then have free: "x \<notin> set s" if "s \<in> set ?others" for s using that Cons(2) by (auto simp: b)
    have kept: "map (take_head x) ?others = ?others" by (rule map_idI) (rule take_head_id, erule free)
    have tails: "\<forall>s \<in> set ?others. x \<notin> set (tl s)"
    proof
      fix s assume "s \<in> set ?others"
      from free [OF this] tl_sub [of x s] show "x \<notin> set (tl s)" by (rule contrapos_nn)
    qed
    have x: "x \<noteq> o'" "x \<notin> set xs" using Cons(2) by simp_all
    have "distinct (xs @ concat (b # bs) @ v # rest @ [o'])" using Cons(2) by simp
    note c3_stack_step [OF x tails, of n, unfolded kept Cons(1) [OF this]]
    then show ?case by simp
  qed
qed

text \<open>A last base that shares the root only comes after everything of the first.\<close>

lemma c3_last:
  assumes "distinct (x # xs @ [m, o'])"
  shows "c3_merge [x # xs @ [o'], [m, o'], [x, m]] = Some (x # xs @ [m, o'])"
proof -
  have "c3_merge [xs @ [o'], [m, o'], [m]] = Some (xs @ [m, o'])"
    using assms
  proof (induction xs)
    case Nil
    then show ?case by (intro c3_longest) auto
  next
    case (Cons y xs)
    then have "map (take_head y) [[m, o'], [m]] = [[m, o'], [m]]" "y \<noteq> o'" "y \<notin> set xs"
      "\<forall>s \<in> set [[m, o'], [m]]. y \<notin> set (tl s)"
      by (auto simp: take_head_def)
    with c3_stack_step [of y o' xs "[[m, o'], [m]]" 0] Cons show ?case by simp
  qed
  moreover have "map (take_head x) [[m, o'], [x, m]] = [[m, o'], [m]]" "x \<noteq> o'" "x \<notin> set xs"
      "\<forall>s \<in> set [[m, o'], [x, m]]. x \<notin> set (tl s)"
    using assms by (auto simp: take_head_def)
  ultimately show ?thesis using c3_stack_step [of x o' xs "[[m, o'], [x, m]]" 0] by simp
qed

text \<open>What a class statement over such bases gives.\<close>

lemma stacked_class:
  assumes "map known (cls_bases c) = map (\<lambda>b. Some (b @ [o'])) bs @ [Some (v # rest @ [o'])]"
    and "cls_bases c = map hd bs @ [v]" and "distinct (concat bs @ v # rest @ [o'])" and "[] \<notin> set bs"
  shows "class_mro known c = Some (cls_id c # concat bs @ v # rest @ [o'])"
proof -
  have "those (map Some ys @ [Some y]) = Some (ys @ [y])" for ys and y :: "'a list" by (induction ys) simp_all
  from this [of "map (\<lambda>b. b @ [o']) bs"] assms(1)
  have orders: "those (map known (cls_bases c)) = Some (map (\<lambda>b. b @ [o']) bs @ [v # rest @ [o']])"
    by (simp add: o_def)
  have "c3_merge (map (\<lambda>b. b @ [o']) bs @ [v # rest @ [o'], map hd bs @ [v]]) = Some (concat bs @ v # rest @ [o'])"
  proof (cases bs)
    case Nil
    with assms(3) show ?thesis by (auto intro!: c3_longest)
  next
    case (Cons b bs')
    then obtain x xs where b: "b = x # xs" using assms(4) by (cases b) auto
    have heads: "set (map hd bs') \<subseteq> set (concat bs')" using heads_in [of bs'] Cons assms(4) by simp
    let ?others = "map (\<lambda>b. b @ [o']) bs' @ [v # rest @ [o'], map hd bs @ [v]]"
    have x: "x \<noteq> o'" "x \<notin> set xs" "\<forall>s \<in> set ?others. x \<notin> set (tl s)"
      using assms(3) heads by (auto simp: b Cons dest: tl_sub)
    have "map (take_head x) ?others = map (\<lambda>b. b @ [o']) bs' @ [v # rest @ [o'], map hd bs' @ [v]]"
      using assms(3) heads by (auto simp: b Cons intro!: take_head_id)
    moreover have "distinct (xs @ concat bs' @ v # rest @ [o'])" "[] \<notin> set bs'" using assms(3,4) by (simp_all add: b Cons)
    note c3_stack [OF this, of 0]
    ultimately show ?thesis using c3_stack_step [OF x, of 0] by (simp add: b Cons del: map_append)
  qed
  with orders assms(2) show ?thesis by (simp add: class_mro_def)
qed

text \<open>
  A module's statements build a given table, when every class has there the order its own statement gives
  it from that table, and no statement names a class before it is there.
\<close>

fun declared_before :: "'c py_class list \<Rightarrow> bool" where
  "declared_before [] = True"
| "declared_before (c # cs) \<longleftrightarrow>
    list_all (\<lambda>b. b \<notin> set (map cls_id (c # cs))) (cls_bases c) \<and> declared_before cs"

lemma class_mro_cong: "\<forall>b \<in> set (cls_bases c). known b = env b \<Longrightarrow> class_mro known c = class_mro env c"
  by (simp add: class_mro_def cong: map_cong)

lemma statements_build:
  assumes "\<forall>n. n \<notin> set (map cls_id cs) \<longrightarrow> known n = env n" and "declared_before cs"
    and "\<forall>c \<in> set cs. env (cls_id c) \<noteq> None \<and> class_mro env c = env (cls_id c)"
  shows "class_statements cs known = Some env"
  using assms
proof (induction cs arbitrary: known)
  case Nil
  then show ?case by auto
next
  case (Cons c cs)
  then obtain m where m: "env (cls_id c) = Some m" "class_mro env c = Some m" by fastforce
  have "class_mro known c = class_mro env c"
    using Cons.prems(1,2) by (intro class_mro_cong) (auto simp: list_all_iff)
  moreover have "class_statements cs (known(cls_id c \<mapsto> m)) = Some env"
    using Cons.prems m(1) by (intro Cons.IH) auto
  ultimately show ?case using m by simp
qed

section \<open>Look-up along the order\<close>

text \<open>Of two classes in this order, look-up never stops at the second when the first has the name.\<close>

lemma find_not_second:
  assumes "subseq [p, d] m" and "distinct m" and "P p"
  shows "find P m \<noteq> Some d"
proof
  assume "find P m = Some d"
  then obtain i where i: "i < length m" "d = m ! i" "\<forall>j < i. \<not> P (m ! j)" by (auto simp: find_Some_iff)
  from list_emb_ConsD [OF assms(1)] obtain xs ys where m: "m = xs @ p # ys" "d \<in> set ys"
    by (auto simp: subseq_singleton_left)
  have "d \<notin> set (xs @ [p])" using assms(2) m by auto
  moreover have "m ! i \<in> set (xs @ [p])" if "i \<le> length xs"
    using that m(1) by (cases "i = length xs") (simp_all add: nth_append)
  ultimately have "i > length xs" using i(2) by force
  with i(3) m(1) assms(3) show False by (auto dest!: spec [of _ "length xs"])
qed

lemma package_before_framework:
  assumes "subseq (ps @ fr) m" and "distinct m" and "p \<in> set ps" and "n \<in> set (attrs p)"
  shows "\<exists>d. resolve attrs m n = Some d \<and> d \<notin> set fr"
proof (cases "resolve attrs m n")
  case None
  have "p \<in> set m" using assms(1,3) subseq_set by fastforce
  with None assms(4) show ?thesis by (auto simp: resolve_def find_None_iff)
next
  case (Some d)
  have "d \<notin> set fr"
  proof
    assume "d \<in> set fr"
    then have "subseq [p, d] (ps @ fr)"
      using assms(3) list_emb_append_mono [of "(=)" "[p]" ps "[d]" fr] by (simp add: subseq_singleton_left)
    then have "subseq [p, d] m" using assms(1) by (rule subseq_order.order_trans)
    from find_not_second [OF this assms(2), of "\<lambda>c. n \<in> set (attrs c)"] assms(4) Some show False
      by (simp add: resolve_def)
  qed
  with Some show ?thesis by simp
qed

text \<open>What a class statement over known classes gives: its own name, then an order that all its bases keep.\<close>

lemma class_mro_laws:
  assumes "class_mro env c = Some m" and "\<forall>b \<in> set (cls_bases c). \<forall>l. env b = Some l \<longrightarrow> distinct l"
    and "distinct (cls_bases c)" and "b \<in> set (cls_bases c)" and "env b = Some l"
  obtains m' where "m = cls_id c # m'" "distinct m'" "subseq l m'"
proof -
  obtain orders m' where orders: "those (map env (cls_bases c)) = Some orders"
    and m: "c3_merge (orders @ [cls_bases c]) = Some m'" "m = cls_id c # m'"
    using assms(1) by (auto simp: class_mro_def split: option.splits)
  have map: "map env bs = map Some os" if "those (map env bs) = Some os" for bs os
    using that by (induction bs arbitrary: os) (auto split: option.splits)
  have members: "(\<exists>b \<in> set (cls_bases c). env b = Some l) \<longleftrightarrow> l \<in> set orders" for l
    using map [OF orders] by (metis (no_types, lifting) image_iff image_set list.set_map option.inject)
  have "\<forall>s \<in> set (orders @ [cls_bases c]). distinct s" using members assms(2,3) by auto
  from c3_merge_laws [OF m(1) this] members assms(4,5) m(2) that show thesis by auto
qed

lemma own_class_first: "m = cls # m' \<Longrightarrow> resolve_super attrs m cls n = resolve attrs m' n"
  by (simp add: resolve_super_def)

section \<open>The package's class objects\<close>

text \<open>\<open>object\<close>, the view classes of the package, and all others by name.\<close>

datatype package_class =
    EnvoyScopedQuerysetMixin | TenantWriteScopeMixin | SoftDeleteMixin | AtomicWriteMixin | EnvoyPermissionMixin
  | ListErrorMappingMixin | CreateListModelMixin | UpdateListModelMixin | IncludeDeletedMixin
  | SuperuserOrgScopeMixin | ExcelExportMixin | BaseViewSet | AsyncSoftDeleteMixin | AsyncBaseViewSet
  | ExcelExportViewSet | DocumentedExcelViewSet | ScopedExcelViewSet | AsyncExcelViewSet

datatype class_object = Object | Package package_class | Other string

end
