(* ===== verification/Async_Writes.thy ===== *)
theory Async_Writes
  imports Viewsets Class_Order
begin

text \<open>
  Writes through the synchronous and the asynchronous viewsets, with what they leave in the database:
  the write hooks of \<open>netix_backend/django/views.py\<close> and \<open>views_aio.py\<close> down to the serializer's save,
  under the dispatch that makes synchronous handlers atomic. What a save writes, and how far it gets
  before it raises, is an argument.
\<close>

section \<open>Saving\<close>

text \<open>
  A serializer's \<open>save(**kwargs)\<close>, and its \<open>asave()\<close> where it has one, as transformers of the stored
  rows; an error may leave rows behind that were written before it.
\<close>

record serializer_saver =
  ser_save :: "serializer \<Rightarrow> save_kwargs \<Rightarrow> store \<Rightarrow> unit res \<times> store"
  ser_asave :: "(serializer \<Rightarrow> store \<Rightarrow> unit res \<times> store) option"

text \<open>Saving asynchronously is saving, with no arguments.\<close>

definition asave_contract :: "serializer_saver \<Rightarrow> bool" where
  "asave_contract sv \<longleftrightarrow> (\<forall>f. ser_asave sv = Some f \<longrightarrow> f = (\<lambda>ser. ser_save sv ser []))"

definition asave_through :: "serializer_saver \<Rightarrow> serializer \<Rightarrow> store \<Rightarrow> unit res \<times> store" where
  "asave_through sv ser =
    (case ser_asave sv of Some asave \<Rightarrow> asave ser | None \<Rightarrow> ser_save sv ser [])"

text \<open>A synchronous hook and its effect: it raises before any save, or saves with its arguments.\<close>

definition hook_effect ::
    "(serializer \<Rightarrow> save_kwargs res) \<Rightarrow> serializer_saver \<Rightarrow> serializer \<Rightarrow> store \<Rightarrow> unit res \<times> store" where
  "hook_effect hook sv ser s = (case hook ser of Inl e \<Rightarrow> (Inl e, s) | Inr kw \<Rightarrow> ser_save sv ser kw s)"

text \<open>
  Whether a hook is overridden: the class's own is neither of the stock ones. A hook is told by the class
  that defines it.
\<close>

definition has_sync_override :: "class_object \<Rightarrow> class_object list \<Rightarrow> bool" where
  "has_sync_override defined_in baselines \<longleftrightarrow> defined_in \<notin> set baselines"

definition CREATE_BASELINES :: "class_object list" where
  "CREATE_BASELINES = [Other ''CreateModelMixin'', Package TenantWriteScopeMixin]"

definition UPDATE_BASELINES :: "class_object list" where
  "UPDATE_BASELINES = [Other ''UpdateModelMixin'', Package TenantWriteScopeMixin]"

text \<open>The asynchronous hooks: the call they settle on, carried out.\<close>

definition acall_effect ::
    "save_call res \<Rightarrow> serializer_saver \<Rightarrow> serializer \<Rightarrow> store \<Rightarrow> unit res \<times> store" where
  "acall_effect settled sv ser s =
    (case settled of
      Inl e \<Rightarrow> (Inl e, s)
    | Inr (Hook_Save kw) \<Rightarrow> ser_save sv ser kw s
    | Inr Plain_Save \<Rightarrow> asave_through sv ser s)"

definition acreate_effect ::
    "class_object \<Rightarrow> (serializer \<Rightarrow> save_kwargs res) \<Rightarrow> write_scope \<Rightarrow> serializer_saver \<Rightarrow> serializer \<Rightarrow> store \<Rightarrow> unit res \<times> store" where
  "acreate_effect defined_in hook w sv ser s =
    acall_effect (perform_acreate (has_sync_override defined_in CREATE_BASELINES) hook w ser) sv ser s"

definition aupdate_effect ::
    "class_object \<Rightarrow> (serializer \<Rightarrow> save_kwargs res) \<Rightarrow> write_scope \<Rightarrow> serializer_saver \<Rightarrow> serializer \<Rightarrow> store \<Rightarrow> unit res \<times> store" where
  "aupdate_effect defined_in hook w sv ser s =
    acall_effect (perform_aupdate (has_sync_override defined_in UPDATE_BASELINES) hook w ser) sv ser s"

section \<open>Handlers around a hook\<close>

text \<open>
  A handler of the framework: it prepares the serializer, reading only (the object, the pinned body,
  validation), calls the hook, and answers its status.
\<close>

definition write_through ::
    "(store \<Rightarrow> serializer res) \<Rightarrow> (serializer \<Rightarrow> store \<Rightarrow> unit res \<times> store) \<Rightarrow> int \<Rightarrow> store \<Rightarrow> int res \<times> store" where
  "write_through prepare effect status s =
    (case prepare s of
      Inl e \<Rightarrow> (Inl e, s)
    | Inr ser \<Rightarrow> map_prod (map_sum id (\<lambda>u. status)) id (effect ser s))"

text \<open>What a request runs: the handler its method resolves to, as dispatch leaves it.\<close>

definition dispatched :: "string \<Rightarrow> string \<Rightarrow> handler \<Rightarrow> store \<Rightarrow> int res \<times> store" where
  "dispatched http_method act h =
    (case dispatch_handler ATOMIC_ACTIONS [(lower http_method, act)] [(lower http_method, h)] http_method of
      Some h' \<Rightarrow> run_handler h'
    | None \<Rightarrow> (\<lambda>s. (Inl (Other_Exception ''Method Not Allowed''), s)))"

section \<open>Lemmas\<close>

lemma dispatched_sync: "act \<in> set ATOMIC_ACTIONS \<Longrightarrow> dispatched meth act \<lparr>is_coroutine = False, run_handler = b\<rparr> = atomically b"
  by (simp add: dispatched_def dispatch_handler_def Let_def)

lemma dispatched_coroutine: "dispatched meth act \<lparr>is_coroutine = True, run_handler = b\<rparr> = b"
  by (simp add: dispatched_def dispatch_handler_def Let_def)

lemma atomically_cases:
  "atomically b s = (fst (b s), case fst (b s) of Inl e \<Rightarrow> s | Inr x \<Rightarrow> snd (b s))"
  by (auto simp: atomically_def split: prod.split sum.split)

text \<open>An overridden hook runs as it is; the stock one has the same effect asynchronously.\<close>

lemma overridden_effect:
  assumes "has_sync_override d CREATE_BASELINES"
  shows "acreate_effect d hook w sv = hook_effect hook sv"
  using assms by (simp add: fun_eq_iff acreate_effect_def acall_effect_def hook_effect_def perform_acreate_def split: sum.split)

lemma overridden_update_effect:
  assumes "has_sync_override d UPDATE_BASELINES"
  shows "aupdate_effect d hook w sv = hook_effect hook sv"
  using assms by (simp add: fun_eq_iff aupdate_effect_def acall_effect_def hook_effect_def perform_aupdate_def split: sum.split)

lemma nothing_pinned:
  assumes "tenant_save_kwargs w ser = Inr []"
  shows "perform_create w ser = Inr []" "perform_update w ser = Inr []"
  using assms by (simp_all add: perform_create_def perform_update_def)

lemma stock_effect:
  assumes "asave_contract sv"
  shows "acreate_effect d (perform_create w) w sv = hook_effect (perform_create w) sv"
    "aupdate_effect d (perform_update w) w sv = hook_effect (perform_update w) sv"
proof -
  have "acreate_effect d (perform_create w) w sv ser s = hook_effect (perform_create w) sv ser s
      \<and> aupdate_effect d (perform_update w) w sv ser s = hook_effect (perform_update w) sv ser s" for ser s
  proof (cases "tenant_save_kwargs w ser")
    case (Inl e)
    then show ?thesis
      by (simp add: acreate_effect_def aupdate_effect_def acall_effect_def hook_effect_def perform_acreate_def
          perform_aupdate_def perform_create_def perform_update_def)
  next
    case (Inr kw)
    with assms show ?thesis
      by (cases "kw = []")
        (auto simp: acreate_effect_def aupdate_effect_def acall_effect_def hook_effect_def perform_acreate_def
          perform_aupdate_def nothing_pinned asave_through_def asave_contract_def split: sum.split option.split)
  qed
  then show "acreate_effect d (perform_create w) w sv = hook_effect (perform_create w) sv"
    "aupdate_effect d (perform_update w) w sv = hook_effect (perform_update w) sv" by (simp_all add: fun_eq_iff)
qed

text \<open>The action being served only matters to the hooks where it is exempt.\<close>

definition exempt :: "write_scope \<Rightarrow> bool" where
  "exempt w \<longleftrightarrow> (case action w of None \<Rightarrow> False | Some a \<Rightarrow> a \<in> set (tenant_write_exempt_actions w))"

lemma hooks_of_action:
  assumes "exempt (w\<lparr>action := a\<rparr>) = exempt w"
  shows "perform_create (w\<lparr>action := a\<rparr>) = perform_create w" "perform_update (w\<lparr>action := a\<rparr>) = perform_update w"
proof -
  have "view_organization_id (w\<lparr>action := a\<rparr>) = view_organization_id w"
    using assms by (simp add: view_organization_id_def exempt_def)
  then have "tenant_save_kwargs (w\<lparr>action := a\<rparr>) = tenant_save_kwargs w"
    by (simp add: fun_eq_iff tenant_save_kwargs_def cong: option.case_cong if_cong)
  then show "perform_create (w\<lparr>action := a\<rparr>) = perform_create w" "perform_update (w\<lparr>action := a\<rparr>) = perform_update w"
    by (simp_all add: fun_eq_iff perform_create_def perform_update_def reject_foreign_body_def
        reject_foreign_instance_def cong: list.case_cong option.case_cong if_cong)
qed

lemma write_through_sync:
  assumes "act \<in> set ATOMIC_ACTIONS"
  shows "dispatched meth act \<lparr>is_coroutine = False, run_handler = write_through prepare effect status\<rparr> s =
    (let (answer, s') = dispatched meth' act' \<lparr>is_coroutine = True, run_handler = write_through prepare effect status\<rparr> s
     in (answer, case answer of Inl e \<Rightarrow> s | Inr x \<Rightarrow> s'))"
  by (simp add: dispatched_sync [OF assms] dispatched_coroutine atomically_cases split_def Let_def)

section \<open>Properties\<close>


definition two_row_saver :: serializer_saver where
  "two_row_saver =
    \<lparr>ser_save = (\<lambda>ser kw s. (Inl (Validation_Error None ''duplicate''), s(1 \<mapsto> [(''name'', VStr ''first'')]))), ser_asave = None\<rparr>"


end
