(* ===== verification/History_Shapes.thy ===== *)
theory History_Shapes
  imports Change_History
begin

text \<open>
  The trail as it is stored and served: the dictionaries \<open>_history_entry\<close> and \<open>_change\<close> of
  \<open>netix_backend/django/change_history.py\<close> put into the JSON column, and the fields the serializers of
  \<open>serializers.py\<close> declare for them.
\<close>

section \<open>Stored entries\<close>

definition optional_text :: "string \<Rightarrow> string option \<Rightarrow> (pyval \<times> pyval) list" where
  "optional_text k v = (case v of None \<Rightarrow> [] | Some t \<Rightarrow> [(VStr k, VStr t)])"

definition change_value :: "change \<Rightarrow> pyval" where
  "change_value ch =
    VDict ([(VStr ''field'', VStr (change_field ch)), (VStr ''old'', change_old ch), (VStr ''new'', change_new ch)]
      @ optional_text ''old_display'' (old_display ch) @ optional_text ''new_display'' (new_display ch))"

definition entry_value :: "history_entry \<Rightarrow> pyval" where
  "entry_value e =
    VDict [(VStr ''at'', VStr (entry_at e)), (VStr ''action'', VStr (entry_action e)),
      (VStr ''source'', VStr (entry_source e)),
      (VStr ''by'', case entry_by e of None \<Rightarrow> VNone | Some i \<Rightarrow> VInt i),
      (VStr ''by_name'', VStr (entry_by_name e)), (VStr ''reason'', VStr (entry_reason e)),
      (VStr ''changes'', VList (map change_value (entry_changes e)))]"

section \<open>Declared fields\<close>

datatype field_kind = Char_Field | Integer_Field | Datetime_Field | Json_Field | Nested_Many

record ser_field =
  sf_name :: string
  sf_kind :: field_kind
  sf_allow_null :: bool
  sf_allow_blank :: bool
  sf_optional :: bool

definition field :: "string \<Rightarrow> field_kind \<Rightarrow> ser_field" where
  "field name k = \<lparr>sf_name = name, sf_kind = k, sf_allow_null = False, sf_allow_blank = False, sf_optional = False\<rparr>"

definition CHANGE_SERIALIZER :: "ser_field list" where
  "CHANGE_SERIALIZER =
    [field ''field'' Char_Field, (field ''old'' Json_Field)\<lparr>sf_allow_null := True\<rparr>,
     (field ''new'' Json_Field)\<lparr>sf_allow_null := True\<rparr>, (field ''old_display'' Char_Field)\<lparr>sf_optional := True\<rparr>,
     (field ''new_display'' Char_Field)\<lparr>sf_optional := True\<rparr>]"

definition ENTRY_SERIALIZER :: "ser_field list" where
  "ENTRY_SERIALIZER =
    [field ''at'' Datetime_Field, field ''action'' Char_Field, field ''source'' Char_Field,
     (field ''by'' Integer_Field)\<lparr>sf_allow_null := True\<rparr>, (field ''by_name'' Char_Field)\<lparr>sf_allow_blank := True\<rparr>,
     (field ''reason'' Char_Field)\<lparr>sf_allow_null := True, sf_allow_blank := True\<rparr>, field ''changes'' Nested_Many]"

text \<open>The actions the field's help text names.\<close>

definition DOCUMENTED_ACTIONS :: "string list" where
  "DOCUMENTED_ACTIONS = [''created'', ''updated'', ''deleted'', ''restored'']"

text \<open>
  A stored value has a declared shape: its keys are declared, what is not optional is there, and each
  value is of the kind declared, or null where that is allowed. \<open>nested\<close> is what the items of a nested
  list must satisfy.
\<close>

definition of_kind :: "(pyval \<Rightarrow> bool) \<Rightarrow> field_kind \<Rightarrow> pyval \<Rightarrow> bool" where
  "of_kind nested k v =
    (case k of
      Char_Field \<Rightarrow> (\<exists>s. v = VStr s)
    | Datetime_Field \<Rightarrow> (\<exists>s. v = VStr s)
    | Integer_Field \<Rightarrow> (\<exists>i. v = VInt i)
    | Json_Field \<Rightarrow> storable v
    | Nested_Many \<Rightarrow> (case v of VList vs \<Rightarrow> list_all nested vs | _ \<Rightarrow> False))"

definition has_shape :: "(pyval \<Rightarrow> bool) \<Rightarrow> ser_field list \<Rightarrow> pyval \<Rightarrow> bool" where
  "has_shape nested declared v =
    (case v of
      VDict d \<Rightarrow>
        list_all (\<lambda>p. fst p \<in> set (map (VStr \<circ> sf_name) declared)) d
        \<and> list_all (\<lambda>f. case dict_get d (VStr (sf_name f)) of
            None \<Rightarrow> sf_optional f
          | Some w \<Rightarrow> sf_allow_null f \<and> w = VNone \<or> of_kind nested (sf_kind f) w) declared
    | _ \<Rightarrow> False)"

abbreviation change_shape :: "pyval \<Rightarrow> bool" where
  "change_shape \<equiv> has_shape (\<lambda>v. False) CHANGE_SERIALIZER"

abbreviation entry_shape :: "pyval \<Rightarrow> bool" where
  "entry_shape \<equiv> has_shape change_shape ENTRY_SERIALIZER"

section \<open>Lemmas\<close>

lemma dict_get_optional:
  "dict_get (optional_text k v @ d) x = (if x = VStr k \<and> v \<noteq> None then map_option VStr v else dict_get d x)"
  by (cases v) (auto simp: optional_text_def)

lemma change_has_shape: "storable (change_old ch) \<Longrightarrow> storable (change_new ch) \<Longrightarrow> change_shape (change_value ch)"
  by (cases "old_display ch"; cases "new_display ch")
    (simp_all add: has_shape_def change_value_def CHANGE_SERIALIZER_def field_def of_kind_def optional_text_def)

lemma change_storable: "storable (change_old ch) \<Longrightarrow> storable (change_new ch) \<Longrightarrow> storable (change_value ch)"
  by (cases "old_display ch"; cases "new_display ch")
    (simp_all add: change_value_def optional_text_def dict_ok_def dict_keys_def)

lemma entry_has_shape:
  assumes "list_all (\<lambda>ch. storable (change_old ch) \<and> storable (change_new ch)) (entry_changes e)"
  shows "entry_shape (entry_value e) \<and> storable (entry_value e)"
  using assms change_has_shape change_storable
  by (cases "entry_by e")
    (simp_all add: has_shape_def entry_value_def ENTRY_SERIALIZER_def field_def of_kind_def dict_ok_def dict_keys_def list_all_iff)

text \<open>A snapshot holds storable values; everything that takes one keeps it so.\<close>

definition storable_snapshot :: "tracked \<Rightarrow> bool" where
  "storable_snapshot i \<longleftrightarrow>
    (case snapshot_values i of None \<Rightarrow> True | Some snap \<Rightarrow> list_all (\<lambda>p. storable (snd p)) snap)"

lemma storable_values: "(name, v) \<in> set (history_values c loaded i) \<Longrightarrow> storable v"
  by (auto simp: history_values_def storable_json_safe)

lemma storable_get_val: "storable_snapshot i \<Longrightarrow> snapshot_values i = Some snap \<Longrightarrow> storable (get_val snap name)"
  by (auto simp: storable_snapshot_def get_val_def dict_get_def list_all_iff dest!: map_of_SomeD split: option.split)

text \<open>What every entry of a trail satisfies: its changes are storable, one for each field.\<close>

definition entry_ok :: "history_entry \<Rightarrow> bool" where
  "entry_ok e \<longleftrightarrow> list_all (\<lambda>ch. storable (change_old ch) \<and> storable (change_new ch)) (entry_changes e)
    \<and> distinct (map change_field (entry_changes e)) \<and> entry_action e \<in> set DOCUMENTED_ACTIONS"

definition trail_ok :: "tracked \<Rightarrow> bool" where
  "trail_ok i \<longleftrightarrow> list_all entry_ok (change_history i) \<and> storable_snapshot i"

lemma action_documented: "action_for chs \<in> set DOCUMENTED_ACTIONS"
  by (induction chs rule: action_for.induct) (simp_all add: DOCUMENTED_ACTIONS_def)

lemma distinct_values: "distinct (map fst (filter P (history_values c loaded i)))"
  using dict_ok_history_values [of c loaded i] by (simp add: dict_ok_def dict_keys_def distinct_map_filter)

lemma created_ok: "entry_ok (mk_entry a now ''created'' (created_changes c i))"
  using distinct_values [of "\<lambda>(name, v). \<not> blank v" c None i]
  by (auto simp: entry_ok_def mk_entry_def created_changes_def mk_change_def list_all_iff o_def split_def
      DOCUMENTED_ACTIONS_def intro: storable_values)

lemma diff_ok:
  assumes "storable_snapshot i" and "snapshot_values i = Some snap"
  shows "entry_ok (mk_entry a now (action_for (diff_changes c uf snap i)) (diff_changes c uf snap i))"
  using distinct_values storable_get_val [OF assms] action_documented
  by (auto simp: entry_ok_def mk_entry_def change_fields_diff)
    (auto simp: diff_changes_def mk_change_def list_all_iff intro: storable_values)

lemma built_entry_ok:
  assumes "storable_snapshot i" and "build_history_entry c a now uf i = Some e"
  shows "entry_ok e"
  using assms created_ok diff_ok [OF assms(1)]
  by (auto simp: build_history_entry_def Let_def split: if_splits option.splits)

lemma list_all_keep_last: "list_all P h \<Longrightarrow> list_all P (keep_last cap h)"
  by (auto simp: keep_last_def list_all_iff dest: in_set_dropD)

lemma storable_sync: "storable_snapshot i \<Longrightarrow> storable_snapshot (sync_history_snapshot c uf i)"
proof (cases uf)
  case None
  then show ?thesis
    by (auto simp: sync_history_snapshot_def storable_snapshot_def Let_def list_all_iff intro: storable_values)
next
  case (Some fs)
  assume "storable_snapshot i"
  then have "\<forall>p \<in> set (the_default [] (snapshot_values i)). storable (snd p)"
    by (auto simp: storable_snapshot_def list_all_iff split: option.splits)
  then have "\<forall>p \<in> set (dict_update (the_default [] (snapshot_values i))
      (filter (\<lambda>(name, v). name \<in> set fs \<or> history_attname c name \<in> set fs) (history_values c None i))). storable (snd p)"
    using storable_values by (intro dict_update_all_from) auto
  with Some show ?thesis by (simp add: sync_history_snapshot_def storable_snapshot_def Let_def list_all_iff)
qed

text \<open>One save keeps the trail well formed, whether it succeeds or raises.\<close>

lemma save_trail_ok:
  assumes "trail_ok i"
  shows "trail_ok (fst (history_save c a now super_save uf i db))"
proof -
  define i1 where "i1 = (case build_history_entry c a now uf i of None \<Rightarrow> i
    | Some e \<Rightarrow> i\<lparr>change_history := keep_last (history_max_entries c) (change_history i @ [e])\<rparr>)"
  have ok: "trail_ok i1"
    using assms built_entry_ok [of i c a now uf]
    by (auto simp: i1_def trail_ok_def storable_snapshot_def list_all_keep_last split: option.split)
  have synced: "trail_ok (sync_history_snapshot c fs (i1\<lparr>adding := False\<rparr>))" for fs
    using ok storable_sync [of "i1\<lparr>adding := False\<rparr>"] by (simp add: trail_ok_def storable_snapshot_def)
  obtain written where w: "(case build_history_entry c a now uf i of
        None \<Rightarrow> (i, uf)
      | Some e \<Rightarrow> (i\<lparr>change_history := keep_last (history_max_entries c) (change_history i @ [e])\<rparr>,
          map_option (\<lambda>fs. fs @ [''change_history'']) uf)) = (i1, written)"
    by (cases "build_history_entry c a now uf i") (simp_all add: i1_def)
  obtain db' error where sv: "super_save written i1 db = (db', error)" by fastforce
  show ?thesis
    using ok synced by (cases error) (simp_all add: history_save_def w sv Let_def)
qed

section \<open>Properties\<close>

text \<open>
  C17. The trail is always well formed. Loading a row, refreshing it and saving it, whether the save succeeds
  or raises, keep a trail whose entries are made of JSON types with text keys (a float is kept as it
  is, NaN and infinities included) and have exactly the shape the serializers declare: every declared
  key, no other, each of its kind, an action that is one of the four documented, and at most one change
  for each field.
\<close>

theorem trail_keeps_declared_shape:
  assumes "trail_ok i"
  shows "trail_ok (fst (history_save c a now super_save uf i db))
    \<and> trail_ok (from_db c names i)
    \<and> (list_all entry_ok (change_history (super_refresh i)) \<longrightarrow> trail_ok (refresh_from_db c super_refresh i))
    \<and> storable (VList (map entry_value (change_history i)))
    \<and> (\<forall>e \<in> set (change_history i). entry_shape (entry_value e) \<and> entry_action e \<in> set DOCUMENTED_ACTIONS
         \<and> distinct (map change_field (entry_changes e)))"
proof (intro conjI impI)
  show "trail_ok (fst (history_save c a now super_save uf i db))" using assms by (rule save_trail_ok)
  show "trail_ok (from_db c names i)"
    using assms by (auto simp: trail_ok_def from_db_def storable_snapshot_def list_all_iff intro: storable_values)
  show "trail_ok (refresh_from_db c super_refresh i)" if "list_all entry_ok (change_history (super_refresh i))"
    using that by (auto simp: trail_ok_def refresh_from_db_def storable_snapshot_def Let_def list_all_iff intro: storable_values)
  have ok: "\<forall>e \<in> set (change_history i). entry_ok e" using assms by (simp add: trail_ok_def list_all_iff)
  then show "storable (VList (map entry_value (change_history i)))"
    using entry_has_shape by (auto simp: list_all_iff entry_ok_def)
  show "\<forall>e \<in> set (change_history i). entry_shape (entry_value e) \<and> entry_action e \<in> set DOCUMENTED_ACTIONS
         \<and> distinct (map change_field (entry_changes e))"
    using ok entry_has_shape by (auto simp: entry_ok_def)
qed

lemma trail_keeps_declared_shape_witness:
  "trail_ok (fst (history_save sample_class system_actor ''now'' sample_super_save None sample_tracked sample_stored))
    \<and> list_all (\<lambda>e. entry_shape (entry_value e)) (change_history (fst (history_save sample_class system_actor ''now''
          sample_super_save None sample_tracked sample_stored)))"
proof -
  have "trail_ok sample_tracked" by (simp add: trail_ok_def storable_snapshot_def)
  from trail_keeps_declared_shape [OF this]
  have once: "trail_ok (fst (history_save sample_class system_actor ''now'' sample_super_save None sample_tracked sample_stored))"
    by (rule conjunct1)
  from trail_keeps_declared_shape [OF once] once show ?thesis by (simp add: list_all_iff)
qed

text \<open>
  A field that holds NaN never equals its own snapshot, so a full save that changed nothing records it
  again.
\<close>

lemma nan_recorded_every_save:
  "\<not> py_eq (json_safe (VFloat NaN r)) (json_safe (VFloat NaN r))"
  by (simp add: number_of_def)

end
