(* ===== verification/Row_Shapes.thy ===== *)
theory Row_Shapes
  imports Api_Shapes Viewsets
begin

text \<open>
  The columns the abstract models of \<open>netix_backend/django/models.py\<close> declare, and the rows made from
  them. The declarations are data; what Django puts into a column that was not given a value is an
  argument, of which its documentation promises that a declared default is used.
\<close>

section \<open>Columns\<close>

datatype column_kind = Char_Column nat | Boolean_Column | Integer_Column | Datetime_Column

record column =
  col_name :: string
  col_kind :: column_kind
  col_null :: bool
  col_default :: "pyval option"
  col_auto_now_add :: bool
  col_auto_now :: bool

definition column_of :: "string \<Rightarrow> column_kind \<Rightarrow> column" where
  "column_of name k = \<lparr>col_name = name, col_kind = k, col_null = False, col_default = None,
    col_auto_now_add = False, col_auto_now = False\<rparr>"

abbreviation defaulted :: "pyval \<Rightarrow> column \<Rightarrow> column" where
  "defaulted v c \<equiv> c\<lparr>col_default := Some v\<rparr>"

definition BASE_MODEL :: "column list" where
  "BASE_MODEL =
    [(column_of ''created_on'' Datetime_Column)\<lparr>col_auto_now_add := True\<rparr>,
     (column_of ''updated_on'' Datetime_Column)\<lparr>col_auto_now := True\<rparr>,
     defaulted (VBool False) (column_of ''is_deleted'' Boolean_Column)]"

definition NAMED_BASE_MODEL :: "column list" where
  "NAMED_BASE_MODEL = BASE_MODEL @
    [column_of ''name'' (Char_Column 255), column_of ''display_name'' (Char_Column 255),
     defaulted (VBool False) (column_of ''is_archived'' Boolean_Column),
     (defaulted VNone (column_of ''description'' (Char_Column 255)))\<lparr>col_null := True\<rparr>]"

definition SLUGGED_NAMED_BASE_MODEL :: "column list" where
  "SLUGGED_NAMED_BASE_MODEL = BASE_MODEL @
    [defaulted VNone (column_of ''name'' (Char_Column 255)), defaulted VNone (column_of ''display_name'' (Char_Column 255)),
     (defaulted VNone (column_of ''description'' (Char_Column 255)))\<lparr>col_null := True\<rparr>]"

definition COMPACT_NAMED_BASE_MODEL :: "column list" where
  "COMPACT_NAMED_BASE_MODEL = BASE_MODEL @
    [column_of ''name'' (Char_Column 256),
     (defaulted VNone (column_of ''description'' (Char_Column 256)))\<lparr>col_null := True\<rparr>]"

definition CLONE_PROVENANCE :: "column list" where
  "CLONE_PROVENANCE =
    [(column_of ''cloned_from_id'' Integer_Column)\<lparr>col_null := True\<rparr>,
     defaulted (VInt 0) (column_of ''template_revision'' Integer_Column),
     defaulted (VBool False) (column_of ''is_customized'' Boolean_Column)]"

definition organization_scoped :: "int \<Rightarrow> column list" where
  "organization_scoped dflt = [defaulted (VInt dflt) (column_of ''organization_id'' Integer_Column)]"

section \<open>New rows\<close>

text \<open>What the framework promises of an unset column.\<close>

definition unset_contract :: "(column \<Rightarrow> pyval) \<Rightarrow> bool" where
  "unset_contract unset \<longleftrightarrow>
    (\<forall>c. (case col_default c of Some v \<Rightarrow> unset c = v
        | None \<Rightarrow> col_null c \<and> (\<forall>n. col_kind c \<noteq> Char_Column n) \<longrightarrow> unset c = VNone))"

definition new_row :: "(column \<Rightarrow> pyval) \<Rightarrow> column list \<Rightarrow> row \<Rightarrow> row" where
  "new_row unset shape given =
    map (\<lambda>c. (col_name c, case dict_get given (col_name c) of Some v \<Rightarrow> v | None \<Rightarrow> unset c)) shape"

text \<open>The model as the viewsets probe it: the names of its columns, with the key.\<close>

definition model_of :: "column list \<Rightarrow> model" where
  "model_of shape = ''id'' # map col_name shape"

text \<open>A row that goes through the slugged save.\<close>

definition slugged_row :: "(pyval \<Rightarrow> string) \<Rightarrow> row \<Rightarrow> row" where
  "slugged_row slugify r = columns (slugged_names slugify \<lparr>pk = 0, columns = r\<rparr>)"

section \<open>Lemmas\<close>

lemmas shape_defs = BASE_MODEL_def NAMED_BASE_MODEL_def SLUGGED_NAMED_BASE_MODEL_def COMPACT_NAMED_BASE_MODEL_def
  CLONE_PROVENANCE_def organization_scoped_def column_of_def

lemma new_row_get:
  assumes "distinct (map col_name shape)" and "c \<in> set shape"
  shows "get_val (new_row unset shape given) (col_name c) =
    (case dict_get given (col_name c) of Some v \<Rightarrow> v | None \<Rightarrow> unset c)"
proof -
  let ?v = "\<lambda>c. case dict_get given (col_name c) of Some v \<Rightarrow> v | None \<Rightarrow> unset c"
  have "dict_get (new_row unset shape given) (col_name c) = Some (?v c)"
    unfolding new_row_def dict_get_def using assms
    by (intro map_of_is_SomeI) (auto simp: o_def)
  then show ?thesis by (simp add: get_val_def)
qed

lemma new_row_default:
  assumes "distinct (map col_name shape)" and "c \<in> set shape" and "col_default c = Some v"
    and "unset_contract unset" and "dict_get given (col_name c) = None"
  shows "get_val (new_row unset shape given) (col_name c) = v"
proof -
  have "unset c = v" using assms(3,4) by (force simp: unset_contract_def dest!: spec [of _ c])
  with new_row_get [OF assms(1,2), of unset given] assms(5) show ?thesis by simp
qed

text \<open>The shapes a service picks from, each with provenance and an owner.\<close>

definition BASE_SHAPES :: "column list list" where
  "BASE_SHAPES = [BASE_MODEL, NAMED_BASE_MODEL, SLUGGED_NAMED_BASE_MODEL, COMPACT_NAMED_BASE_MODEL]"

abbreviation owned :: "column list \<Rightarrow> int \<Rightarrow> column list" where
  "owned shape dflt \<equiv> shape @ CLONE_PROVENANCE @ organization_scoped dflt"

lemma owned_distinct: "shape \<in> set BASE_SHAPES \<Longrightarrow> distinct (map col_name (owned shape dflt))"
  by (auto simp: BASE_SHAPES_def shape_defs)

lemma owned_defaults:
  assumes "shape \<in> set BASE_SHAPES"
  shows "defaulted (VBool False) (column_of ''is_deleted'' Boolean_Column) \<in> set (owned shape dflt)"
    "defaulted (VBool False) (column_of ''is_customized'' Boolean_Column) \<in> set (owned shape dflt)"
    "defaulted (VInt 0) (column_of ''template_revision'' Integer_Column) \<in> set (owned shape dflt)"
    "defaulted (VInt dflt) (column_of ''organization_id'' Integer_Column) \<in> set (owned shape dflt)"
    "(column_of ''cloned_from_id'' Integer_Column)\<lparr>col_null := True\<rparr> \<in> set (owned shape dflt)"
  using assms by (auto simp: BASE_SHAPES_def shape_defs)

lemma column_of_simps [simp]: "col_name (column_of n k) = n" "col_default (column_of n k) = None"
    "col_kind (column_of n k) = k" "col_null (column_of n k) = False"
  by (simp_all add: column_of_def)

lemma owned_model:
  assumes "shape \<in> set BASE_SHAPES"
  shows "''updated_on'' \<in> set (model_of (owned shape dflt))" "''organization_id'' \<in> set (model_of (owned shape dflt))"
    "set (base_fields []) \<union> set (base_filters []) \<subseteq> set (model_of (owned shape dflt))"
  using assms
  by (auto simp: BASE_SHAPES_def shape_defs model_of_def base_fields_def base_filters_def BASE_FIELDS_def BASE_FILTERS_def)

section \<open>Properties\<close>

text \<open>
  A new row of any shape is ready for everything else the package does with rows: given no more than
  its own values it is live (the alive query set has it, the dead one does not), unchanged since it was
  cloned, and owned by the model's default organization; retiring it stamps it; a tenant's write to its
  model is pinned; the base field and filter lists name columns it has, and the named lists those of the
  named shape; and marking it customized changes a clone and nothing else.
\<close>

theorem new_row_ready:
  fixes dflt :: int
  assumes "shape \<in> set BASE_SHAPES" and "unset_contract unset"
    and "\<forall>k \<in> {''is_deleted'', ''is_customized'', ''organization_id''}. dict_get given k = None"
  defines "r \<equiv> new_row unset (owned shape dflt) given"
  defines "m \<equiv> model_of (owned shape dflt)"
  shows "alive [r] = [r] \<and> dead [r] = [] \<and> get_val r ''organization_id'' = VInt dflt \<and> get_val r ''is_customized'' = VBool False
    \<and> soft_delete_update_fields v (cls\<lparr>model_fields := m\<rparr>) = [soft_delete_field v, ''updated_on'']
    \<and> probe_model_field m ''organization_id''
    \<and> set (base_fields []) \<union> set (base_filters []) \<subseteq> set m
    \<and> set (named_base_fields []) \<union> set (named_base_filters []) \<subseteq> set (model_of NAMED_BASE_MODEL)
    \<and> columns (mark_customized \<lparr>pk = p, columns = r\<rparr>) =
        (if (case dict_get given ''cloned_from_id'' of None \<Rightarrow> False | Some t \<Rightarrow> truthy t)
         then dict_set ''is_customized'' (VBool True) r else r)"
proof -
  note distinct = owned_distinct [OF assms(1), of dflt] and defaults = owned_defaults [OF assms(1), of dflt]
  have given: "dict_get given ''is_deleted'' = None" "dict_get given ''is_customized'' = None"
    "dict_get given ''organization_id'' = None"
    using assms(3) by simp_all
  have deleted: "get_val r ''is_deleted'' = VBool False" and customized: "get_val r ''is_customized'' = VBool False"
    and owner: "get_val r ''organization_id'' = VInt dflt"
    using new_row_default [OF distinct defaults(1) _ assms(2), of "VBool False" given]
      new_row_default [OF distinct defaults(2) _ assms(2), of "VBool False" given]
      new_row_default [OF distinct defaults(4) _ assms(2), of "VInt dflt" given] given
    by (simp_all add: r_def)
  have "unset ((column_of ''cloned_from_id'' Integer_Column)\<lparr>col_null := True\<rparr>) = VNone"
    using assms(2) [unfolded unset_contract_def, THEN spec,
        of "(column_of ''cloned_from_id'' Integer_Column)\<lparr>col_null := True\<rparr>"] by simp
  then have cloned: "get_val r ''cloned_from_id'' = (case dict_get given ''cloned_from_id'' of None \<Rightarrow> VNone | Some t \<Rightarrow> t)"
    using new_row_get [OF distinct defaults(5), of unset given] by (simp add: r_def split: option.split)
  have "first_segment ''updated_on'' = ''updated_on''" "first_segment ''organization_id'' = ''organization_id''" by simp_all
  then have probes: "probe_model_field m ''updated_on''" "probe_model_field m ''organization_id''"
    using owned_model(1,2) [OF assms(1), of dflt] by (simp_all add: probe_model_field_def Let_def m_def)
  have "set (named_base_fields []) \<union> set (named_base_filters []) \<subseteq> set (model_of NAMED_BASE_MODEL)"
    by (auto simp: named_base_fields_def named_base_filters_def NAMED_BASE_FIELDS_def NAMED_BASE_FILTERS_def
        BASE_FIELDS_def BASE_FILTERS_def model_of_def shape_defs)
  then show ?thesis
    using deleted customized owner cloned probes owned_model(3) [OF assms(1), of dflt]
    by (auto simp: alive_def dead_def soft_delete_update_fields_def mark_customized_def set_column_def m_def
        split: option.splits)
qed

text \<open>
  A slugged row always ends with two names that agree on what was given: a display name alone gives its
  slug, a name alone is shown as it is. With neither, both become what the slug function makes of the
  missing value.
\<close>

lemma slugged_names_filled:
  assumes "\<And>v. slugify v \<noteq> []"
  shows "truthy (get_val (slugged_row slugify r) ''name'') \<and> truthy (get_val (slugged_row slugify r) ''display_name'')"
    "\<not> truthy (get_val r ''name'') \<Longrightarrow> \<not> truthy (get_val r ''display_name'') \<Longrightarrow>
      get_val (slugged_row slugify r) ''name'' = VStr (slugify (get_val r ''display_name'')) \<and>
      get_val (slugged_row slugify r) ''display_name'' = VStr (slugify (get_val r ''display_name''))"
  using assms by (auto simp: slugged_row_def slugged_names_def Let_def)

definition sample_unset :: "column \<Rightarrow> pyval" where
  "sample_unset c =
    (case col_default c of Some v \<Rightarrow> v | None \<Rightarrow> (case col_kind c of Char_Column n \<Rightarrow> VStr [] | _ \<Rightarrow> VNone))"

lemma new_row_ready_witness:
  "get_val (new_row sample_unset (owned NAMED_BASE_MODEL 0) [(''name'', VStr ''pump''), (''cloned_from_id'', VInt 4)])
      ''organization_id'' = VInt 0"
proof -
  have contract: "unset_contract sample_unset"
    by (auto simp: unset_contract_def sample_unset_def split: option.split column_kind.split)
  have "NAMED_BASE_MODEL \<in> set BASE_SHAPES" by (simp add: BASE_SHAPES_def)
  from new_row_ready [OF this contract, of "[(''name'', VStr ''pump''), (''cloned_from_id'', VInt 4)]" 0]
  show ?thesis by simp
qed

end
