(* ===== verification/Test_Clients.thy ===== *)
theory Test_Clients
  imports Test_Doubles
begin

text \<open>
  The rest of what \<open>netix_backend/django/testing.py\<close> gives a suite: the authenticated API client in both
  its modes, the request factory, the patches of the organization filter, the superseded settings
  helpers, and the names the package resolves on first access (also those of \<open>excel.py\<close>). What a patch
  changes is an explicit state: the resolver of envoy-pyauth and the two functions of its filter.
  pytest's own undoing of patches at the end of a test or a scope is what those functions return to.
\<close>

section \<open>Authenticated clients\<close>

datatype client_mode = Resolver_Mode | Handler_Mode

text \<open>A client: the credential it sends, and the identity its own handler stamps, in handler mode.\<close>

record api_client =
  sent_credential :: string
  stamped_identity :: "row option"

definition resolved_identity :: "row option \<Rightarrow> pyval list \<Rightarrow> row" where
  "resolved_identity ident codenames =
    (let resolved = the_default DEFAULT_ENVOY_IDENTITY ident
     in if codenames = [] then resolved else dict_set ''permissions'' (VList codenames) resolved)"

text \<open>The client, and the resolver that is in force from then on.\<close>

definition envoy_api_client ::
    "test_auth_settings \<Rightarrow> row option \<Rightarrow> pyval list \<Rightarrow> string option \<Rightarrow> client_mode \<Rightarrow> resolver \<Rightarrow> api_client \<times> resolver" where
  "envoy_api_client st ident codenames given how current =
    (let resolved = resolved_identity ident codenames;
         credential = (case given of None \<Rightarrow> configured_bearer (bearer_setting st) | Some b \<Rightarrow> b)
     in case how of
       Handler_Mode \<Rightarrow> (\<lparr>sent_credential = credential, stamped_identity = Some resolved\<rparr>, current)
     | Resolver_Mode \<Rightarrow> (\<lparr>sent_credential = credential, stamped_identity = None\<rparr>, \<lambda>header. Inr resolved))"

text \<open>
  A request of the client: the framework's test client sends the credential; the stamp is put on the
  request before the rest of the handler, its middleware and the view, sees it.
\<close>

definition client_send :: "(resolver \<Rightarrow> test_request \<Rightarrow> 'r) \<Rightarrow> resolver \<Rightarrow> api_client \<Rightarrow> 'r" where
  "client_send rest current c =
    rest current \<lparr>authorization_header = Some (sent_credential c), envoy = stamped_identity c\<rparr>"

text \<open>The rest of the handler: the view alone, or the test-only authorization middleware before it.\<close>

definition view_alone :: "(row option \<Rightarrow> 'r) \<Rightarrow> resolver \<Rightarrow> test_request \<Rightarrow> 'r" where
  "view_alone view current q = view (envoy q)"

definition authorized ::
    "bool \<Rightarrow> test_auth_settings \<Rightarrow> unit process_view \<Rightarrow> (row option \<Rightarrow> 'r) \<Rightarrow> (exc \<Rightarrow> 'r) \<Rightarrow> resolver \<Rightarrow> test_request \<Rightarrow> 'r" where
  "authorized header_guard st parent view refuse current q =
    (case fst (envoy_test_process_view header_guard st parent q current) of
      (Inr u, q') \<Rightarrow> view (envoy q')
    | (Inl e, q') \<Rightarrow> refuse e)"

text \<open>
  A request of the factory, whose framework bypasses the middleware: the credential unless the test set
  one, and the identity.
\<close>

definition factory_request :: "test_auth_settings \<Rightarrow> row \<Rightarrow> test_request \<Rightarrow> test_request" where
  "factory_request st ident q =
    q\<lparr>authorization_header := Some (case authorization_header q of
        None \<Rightarrow> configured_bearer (bearer_setting st) | Some h \<Rightarrow> h), envoy := Some ident\<rparr>"

section \<open>Patches of the organization filter\<close>

text \<open>The two functions of the filter, each over the request, if there is one.\<close>

record ('m, 'q) envoy_filter =
  filter_get_queryset :: "test_request option \<Rightarrow> 'm \<Rightarrow> 'q"
  filter_filter_queryset :: "test_request option \<Rightarrow> 'q \<Rightarrow> 'q"

definition patch_envoy_unscoped :: "('m \<Rightarrow> 'q) \<Rightarrow> ('m, 'q) envoy_filter \<Rightarrow> ('m, 'q) envoy_filter" where
  "patch_envoy_unscoped all_rows ef =
    ef\<lparr>filter_get_queryset := \<lambda>r m. all_rows m, filter_filter_queryset := \<lambda>r q. q\<rparr>"

definition patch_envoy_identity :: "row option \<Rightarrow> ('m, 'q) envoy_filter \<Rightarrow> ('m, 'q) envoy_filter" where
  "patch_envoy_identity ident ef =
    (let ident' = the_default DEFAULT_ENVOY_IDENTITY ident in
     ef\<lparr>filter_get_queryset := (\<lambda>r. patched_queryset ident' (\<lambda>q. filter_get_queryset ef (Some q)) r),
        filter_filter_queryset := (\<lambda>r. patched_queryset ident' (\<lambda>q. filter_filter_queryset ef (Some q)) r)\<rparr>)"

text \<open>A block under the identity; what it returned, and the filter afterwards.\<close>

definition scoped_envoy :: "row option \<Rightarrow> (('m, 'q) envoy_filter \<Rightarrow> 'r) \<Rightarrow> ('m, 'q) envoy_filter \<Rightarrow> 'r \<times> ('m, 'q) envoy_filter" where
  "scoped_envoy ident block ef = (block (patch_envoy_identity ident ef), ef)"

section \<open>Superseded helpers\<close>

definition netix_test_settings :: "(string, string) dict option \<Rightarrow> (string, string) dict" where
  "netix_test_settings extra_env = dict_update TEST_ENV_DEFAULTS (the_default [] extra_env)"

section \<open>Names resolved on first access\<close>

text \<open>
  A module's globals, and the names fetched so far from the module behind. A lookup finds a global or
  goes through the module's own \<open>__getattr__\<close>, which keeps what it fetched as a global.
\<close>

record 'v lazy_module =
  module_globals :: "(string, 'v) dict"
  fetched :: "string list"

definition lazy_getattr :: "string \<Rightarrow> string list \<Rightarrow> (string \<Rightarrow> 'v res) \<Rightarrow> string \<Rightarrow> 'v lazy_module \<Rightarrow> 'v res \<times> 'v lazy_module" where
  "lazy_getattr module_name exports behind name m =
    (if name \<in> set exports then
       (case behind name of
         Inl e \<Rightarrow> (Inl e, m\<lparr>fetched := fetched m @ [name]\<rparr>)
       | Inr v \<Rightarrow> (Inr v, \<lparr>module_globals = dict_set name v (module_globals m), fetched = fetched m @ [name]\<rparr>))
     else (Inl (Other_Exception (''module '' @ repr_str module_name @ '' has no attribute '' @ repr_str name)), m))"

definition EXCEL_LAZY :: "string list" where "EXCEL_LAZY = [''BaseExcelViewSet'', ''ScopedExcelViewSet'']"

definition TESTING_LAZY :: "string list" where
  "TESTING_LAZY = [''EnvoyTestAuthorizationMiddleware'', ''ExplicitEnvoyIdentityMiddleware'']"

definition excel_getattr :: "(string \<Rightarrow> 'v res) \<Rightarrow> string \<Rightarrow> 'v lazy_module \<Rightarrow> 'v res \<times> 'v lazy_module" where
  "excel_getattr = lazy_getattr ''netix_backend.django.excel'' EXCEL_LAZY"

definition testing_getattr :: "(string \<Rightarrow> 'v res) \<Rightarrow> string \<Rightarrow> 'v lazy_module \<Rightarrow> 'v res \<times> 'v lazy_module" where
  "testing_getattr = lazy_getattr ''netix_backend.django.testing'' TESTING_LAZY"

text \<open>An attribute access, and a run of them.\<close>

definition access :: "(string \<Rightarrow> 'v lazy_module \<Rightarrow> 'v res \<times> 'v lazy_module) \<Rightarrow> string \<Rightarrow> 'v lazy_module \<Rightarrow> 'v res \<times> 'v lazy_module" where
  "access getattr name m =
    (case dict_get (module_globals m) name of Some v \<Rightarrow> (Inr v, m) | None \<Rightarrow> getattr name m)"

fun accesses :: "(string \<Rightarrow> 'v lazy_module \<Rightarrow> 'v res \<times> 'v lazy_module) \<Rightarrow> string list \<Rightarrow> 'v lazy_module \<Rightarrow> 'v res list \<times> 'v lazy_module" where
  "accesses getattr [] m = ([], m)"
| "accesses getattr (n # ns) m =
    (let (r, m') = access getattr n m; (rs, m'') = accesses getattr ns m' in (r # rs, m''))"

section \<open>Lemmas\<close>

text \<open>What envoy-pyauth's middleware does with the resolver in force.\<close>

definition parent_contract :: "unit process_view \<Rightarrow> bool" where
  "parent_contract parent \<longleftrightarrow>
    (\<forall>f q h. authorization_header q = Some h \<longrightarrow>
      parent f q = (case f h of Inl e \<Rightarrow> (Inl e, q) | Inr i \<Rightarrow> (Inr (), q\<lparr>envoy := Some i\<rparr>)))"

lemma client_fields:
  "fst (envoy_api_client st ident cs b Handler_Mode cur) =
    \<lparr>sent_credential = the_default (configured_bearer (bearer_setting st)) b, stamped_identity = Some (resolved_identity ident cs)\<rparr>"
  "fst (envoy_api_client st ident cs b Resolver_Mode cur) =
    \<lparr>sent_credential = the_default (configured_bearer (bearer_setting st)) b, stamped_identity = None\<rparr>"
  "snd (envoy_api_client st ident cs b Handler_Mode cur) = cur"
  "snd (envoy_api_client st ident cs b Resolver_Mode cur) = (\<lambda>header. Inr (resolved_identity ident cs))"
  by (cases b; simp add: envoy_api_client_def Let_def)+

lemma authorized_own_credential:
  assumes "parent_contract parent" and "configured_header_guard (guard_setting st)"
    and "authorization_header q = Some h" and "h \<noteq> []"
  shows "authorized True st parent view refuse current q =
    (case current h of Inl e \<Rightarrow> refuse e | Inr i \<Rightarrow> view (Some i))"
  using assms
  by (auto simp: authorized_def envoy_test_process_view_def parent_contract_def split: sum.split)

lemma explicit_twice: "explicit_request i (Some (explicit_request j r)) = explicit_request j r"
  by (auto simp: explicit_request_def split: option.splits)

text \<open>The last identity patched wins, and neither patch is seen through the unscoped one.\<close>

lemma patch_identity_last: "patch_envoy_identity j (patch_envoy_identity i ef) = patch_envoy_identity j ef"
  by (simp add: patch_envoy_identity_def patched_queryset_def Let_def explicit_twice fun_eq_iff)

lemma patch_unscoped_wins:
  "patch_envoy_identity i (patch_envoy_unscoped all_rows ef) = patch_envoy_unscoped all_rows ef"
  "patch_envoy_unscoped all_rows (patch_envoy_identity i ef) = patch_envoy_unscoped all_rows ef"
  by (simp_all add: patch_envoy_identity_def patch_envoy_unscoped_def patched_queryset_def Let_def fun_eq_iff)

section \<open>Properties\<close>

text \<open>
  Who a test client acts as. A client in handler mode is its own identity in every request, whatever
  other clients were made, as long as no middleware resolves the credential; clients in resolver mode,
  behind the test middleware, all act as the identity of the one made last, since the resolver is one
  for the process; a handler-mode stamp does not survive that middleware, which resolves the credential
  over it. Codenames given replace the identity's own.
\<close>

theorem test_client_identity:
  assumes "parent_contract parent" and "configured_header_guard (guard_setting st)"
    and "the_default (configured_bearer (bearer_setting st)) b \<noteq> []"
    and made: "envoy_api_client st ident cs b mode1 cur = (client, cur1)"
      "envoy_api_client st ident' cs' b' mode2 cur1 = (client', cur2)"
  shows "(mode1 = Handler_Mode \<longrightarrow>
        client_send (view_alone view) cur2 client = view (Some (resolved_identity ident cs)))
    \<and> (mode1 = Resolver_Mode \<or> mode2 = Resolver_Mode \<longrightarrow>
        client_send (authorized True st parent view refuse) cur2 client =
          view (Some (if mode2 = Resolver_Mode then resolved_identity ident' cs' else resolved_identity ident cs)))
    \<and> (cs \<noteq> [] \<longrightarrow> get_val (resolved_identity ident cs) ''permissions'' = VList cs)"
proof -
  have c: "client = fst (envoy_api_client st ident cs b mode1 cur)" "cur1 = snd (envoy_api_client st ident cs b mode1 cur)"
    and c': "cur2 = snd (envoy_api_client st ident' cs' b' mode2 cur1)"
    using made by simp_all
  have header: "sent_credential client = the_default (configured_bearer (bearer_setting st)) b"
    by (cases mode1) (simp_all add: c client_fields)
  have stamp: "mode1 = Handler_Mode \<Longrightarrow> stamped_identity client = Some (resolved_identity ident cs)"
    by (simp add: c client_fields)
  have resolver: "mode1 = Resolver_Mode \<or> mode2 = Resolver_Mode \<Longrightarrow>
      cur2 = (\<lambda>header. Inr (if mode2 = Resolver_Mode then resolved_identity ident' cs' else resolved_identity ident cs))"
    by (cases mode1; cases mode2) (simp_all add: c c' client_fields)
  show ?thesis
  proof (intro conjI impI)
    assume "mode1 = Handler_Mode"
    then show "client_send (view_alone view) cur2 client = view (Some (resolved_identity ident cs))"
      by (simp add: client_send_def view_alone_def stamp)
  next
    assume m: "mode1 = Resolver_Mode \<or> mode2 = Resolver_Mode"
    show "client_send (authorized True st parent view refuse) cur2 client =
          view (Some (if mode2 = Resolver_Mode then resolved_identity ident' cs' else resolved_identity ident cs))"
      unfolding client_send_def header resolver [OF m]
      by (subst authorized_own_credential [OF assms(1,2) _ assms(3)]) simp_all
  next
    assume "cs \<noteq> []"
    then show "get_val (resolved_identity ident cs) ''permissions'' = VList cs"
      by (simp add: resolved_identity_def Let_def get_val_set)
  qed
qed

text \<open>
  A scope hands the real filter its identity for a request that has none, and only for such a request;
  nested scopes act as the innermost; and the filter afterwards is the one before, whatever the block did.
\<close>

theorem scoped_envoy_restores:
  "snd (scoped_envoy ident block ef) = ef
    \<and> fst (scoped_envoy i (\<lambda>f. scoped_envoy j block' f) ef) = (fst (scoped_envoy j block' ef), patch_envoy_identity i ef)
    \<and> filter_get_queryset (patch_envoy_identity ident ef) r m =
        filter_get_queryset ef (Some (case r of
          Some q \<Rightarrow> if envoy q = None then \<lparr>authorization_header = None, envoy = Some (the_default DEFAULT_ENVOY_IDENTITY ident)\<rparr> else q
        | None \<Rightarrow> \<lparr>authorization_header = None, envoy = Some (the_default DEFAULT_ENVOY_IDENTITY ident)\<rparr>)) m"
proof (intro conjI)
  show "fst (scoped_envoy i (\<lambda>f. scoped_envoy j block' f) ef) = (fst (scoped_envoy j block' ef), patch_envoy_identity i ef)"
    by (simp add: scoped_envoy_def patch_identity_last)
qed (auto simp: scoped_envoy_def patch_envoy_identity_def patched_queryset_def explicit_request_def Let_def split: option.split)

text \<open>A lazy module that has fetched some of its names and kept each as a global.\<close>

definition lazily :: "string list \<Rightarrow> (string \<Rightarrow> 'v) \<Rightarrow> (string, 'v) dict \<Rightarrow> 'v lazy_module \<Rightarrow> bool" where
  "lazily exports attr globals m \<longleftrightarrow>
    distinct (fetched m) \<and> set (fetched m) \<subseteq> set exports \<and>
    (\<forall>n. dict_get (module_globals m) n = (if n \<in> set (fetched m) then Some (attr n) else dict_get globals n))"

lemma access_lazily:
  assumes "lazily exports attr globals m" and "\<forall>n \<in> set exports. behind n = Inr (attr n) \<and> dict_get globals n = None"
    and "access (lazy_getattr mod_name exports behind) n m = (r, m')"
  shows "lazily exports attr globals m' \<and> set (fetched m') = set (fetched m) \<union> ({n} \<inter> set exports)
    \<and> r = (if n \<in> set exports then Inr (attr n) else case dict_get globals n of
        Some v \<Rightarrow> Inr v
      | None \<Rightarrow> Inl (Other_Exception (''module '' @ repr_str mod_name @ '' has no attribute '' @ repr_str n)))"
  using assms
  by (auto simp: access_def lazy_getattr_def lazily_def dict.get_put split: option.splits if_splits sum.splits)

lemma accesses_lazily:
  assumes "lazily exports attr globals m" and "\<forall>n \<in> set exports. behind n = Inr (attr n) \<and> dict_get globals n = None"
  shows "lazily exports attr globals (snd (accesses (lazy_getattr mod_name exports behind) ns m))
    \<and> set (fetched (snd (accesses (lazy_getattr mod_name exports behind) ns m))) = set (fetched m) \<union> (set ns \<inter> set exports)
    \<and> fst (accesses (lazy_getattr mod_name exports behind) ns m) = map (\<lambda>n. if n \<in> set exports then Inr (attr n)
        else case dict_get globals n of
          Some v \<Rightarrow> Inr v
        | None \<Rightarrow> Inl (Other_Exception (''module '' @ repr_str mod_name @ '' has no attribute '' @ repr_str n))) ns"
  using assms(1)
proof (induction ns arbitrary: m)
  case (Cons n ns)
  obtain r m' where a: "access (lazy_getattr mod_name exports behind) n m = (r, m')" by fastforce
  note step = access_lazily [OF Cons.prems assms(2) a]
  from Cons.IH [of m'] step show ?case by (auto simp: a split_def Let_def)
qed simp

text \<open>
  Importing the package's modules imports neither envoy-pyauth nor a middleware: a lazy name is fetched
  from the module behind at its first access and never again, every access gives the same object, other
  names never reach it, and an unknown one is an attribute error.
\<close>

theorem lazy_names_fetched_once:
  assumes "\<forall>n \<in> set exports. behind n = Inr (attr n) \<and> dict_get globals n = None"
    and "accesses (lazy_getattr mod_name exports behind) ns \<lparr>module_globals = globals, fetched = []\<rparr> = (rs, m')"
  shows "distinct (fetched m') \<and> set (fetched m') = set ns \<inter> set exports
    \<and> rs = map (\<lambda>n. if n \<in> set exports then Inr (attr n) else case dict_get globals n of
        Some v \<Rightarrow> Inr v
      | None \<Rightarrow> Inl (Other_Exception (''module '' @ repr_str mod_name @ '' has no attribute '' @ repr_str n))) ns"
proof -
  have "lazily exports attr globals \<lparr>module_globals = globals, fetched = []\<rparr>" by (simp add: lazily_def)
  from accesses_lazily [OF this assms(1), of mod_name ns] assms(2) show ?thesis by (simp add: lazily_def)
qed

lemma lazy_names_fetched_once_witness:
  "fetched (snd (accesses (excel_getattr (\<lambda>n. Inr n)) [''BaseExcelViewSet'', ''excel_style'', ''BaseExcelViewSet'']
      \<lparr>module_globals = [(''excel_style'', ''f'')], fetched = []\<rparr>)) = [''BaseExcelViewSet'']"
proof -
  let ?ns = "[''BaseExcelViewSet'', ''excel_style'', ''BaseExcelViewSet'']"
  let ?run = "accesses (excel_getattr (\<lambda>n. Inr n)) ?ns \<lparr>module_globals = [(''excel_style'', ''f'')], fetched = []\<rparr>"
  have "\<forall>n \<in> set EXCEL_LAZY. (\<lambda>n. Inr n :: string res) n = Inr (id n) \<and> dict_get [(''excel_style'', ''f'')] n = None"
    by (simp add: EXCEL_LAZY_def)
  from lazy_names_fetched_once [OF this, of "''netix_backend.django.excel''" ?ns "fst ?run" "snd ?run"]
  have "distinct (fetched (snd ?run)) \<and> set (fetched (snd ?run)) = {''BaseExcelViewSet''}"
    by (simp add: excel_getattr_def EXCEL_LAZY_def)
  then show ?thesis by (cases "fetched (snd ?run)") (auto simp: subset_singleton_iff)
qed

end
