(* ===== verification/Composition.thy ===== *)
theory Composition
  imports Async_Writes
begin

text \<open>
  The classes the package assembles from its mixins (\<open>views.py\<close>, \<open>views_aio.py\<close>, \<open>org_scope.py\<close>,
  \<open>excel.py\<close>, \<open>excel_aio.py\<close>, \<open>excel_envoy.py\<close>), as class statements, and what a service's own class built on
  them resolves to. The classes of Django REST framework, adrf and drf-excel come with their linearizations,
  which are arguments.
\<close>

section \<open>Class statements\<close>

definition EnvoyScopedQuerysetMixin_class :: "class_object py_class" where
  "EnvoyScopedQuerysetMixin_class = \<lparr>cls_id = Package EnvoyScopedQuerysetMixin, cls_bases = [Object],
    cls_attrs = [''organization_field'', ''session_customer_filter'', ''model_queryset'', ''organization_field_optional'',
      ''resolve_session_customer_filter'', ''_scope_call_kwargs'', ''_get_queryset_filter'', ''_scope_queryset'',
      ''get_queryset'']\<rparr>"

definition TenantWriteScopeMixin_class :: "class_object py_class" where
  "TenantWriteScopeMixin_class = \<lparr>cls_id = Package TenantWriteScopeMixin, cls_bases = [Object],
    cls_attrs = [''tenant_write_scope'', ''tenant_write_scope_field'', ''tenant_write_exempt_actions'',
      ''tenant_write_pin_before_validation'', ''tenant_organization_id'', ''tenant_save_kwargs'',
      ''_reject_foreign_body'', ''_reject_foreign_instance'', ''perform_create'', ''perform_update'',
      ''get_serializer'', ''_pinned_write_data'']\<rparr>"

definition SoftDeleteMixin_class :: "class_object py_class" where
  "SoftDeleteMixin_class = \<lparr>cls_id = Package SoftDeleteMixin, cls_bases = [Object],
    cls_attrs = [''soft_delete_field'', ''soft_delete_404_on_repeat'', ''soft_delete_validate'',
      ''soft_delete_instance'', ''_soft_delete_update_fields'', ''destroy'']\<rparr>"

definition AtomicWriteMixin_class :: "class_object py_class" where
  "AtomicWriteMixin_class = \<lparr>cls_id = Package AtomicWriteMixin, cls_bases = [Object],
    cls_attrs = [''atomic_actions'', ''dispatch'']\<rparr>"

definition EnvoyPermissionMixin_class :: "class_object py_class" where
  "EnvoyPermissionMixin_class = \<lparr>cls_id = Package EnvoyPermissionMixin, cls_bases = [Object],
    cls_attrs = [''permission_classes'', ''permission_module'', ''required_permissions'', ''org_ownership'',
      ''org_ownership_exempt_actions'', ''authenticate_header'', ''get_required_permission'',
      ''get_authenticate_header'']\<rparr>"

definition ListErrorMappingMixin_class :: "class_object py_class" where
  "ListErrorMappingMixin_class = \<lparr>cls_id = Package ListErrorMappingMixin, cls_bases = [Object],
    cls_attrs = [''list_error_map'', ''_mapped_list_errors'', ''filter_queryset'', ''list'']\<rparr>"

definition CreateListModelMixin_class :: "class_object py_class" where
  "CreateListModelMixin_class = \<lparr>cls_id = Package CreateListModelMixin, cls_bases = [Object], cls_attrs = [''create'']\<rparr>"

definition UpdateListModelMixin_class :: "class_object py_class" where
  "UpdateListModelMixin_class = \<lparr>cls_id = Package UpdateListModelMixin, cls_bases = [Object], cls_attrs = [''update'']\<rparr>"

definition IncludeDeletedMixin_class :: "class_object py_class" where
  "IncludeDeletedMixin_class = \<lparr>cls_id = Package IncludeDeletedMixin, cls_bases = [Object],
    cls_attrs = [''include_deleted_actions'', ''include_deleted_queryset'', ''include_deleted_live_first'',
      ''include_deleted_requested'', ''_get_queryset_filter'', ''get_queryset'', ''filter_queryset'']\<rparr>"

definition BaseViewSet_class :: "class_object py_class" where
  "BaseViewSet_class = \<lparr>cls_id = Package BaseViewSet,
    cls_bases = [Package EnvoyPermissionMixin, Package EnvoyScopedQuerysetMixin, Package TenantWriteScopeMixin, Package AtomicWriteMixin,
      Package SoftDeleteMixin, Other ''viewsets.ModelViewSet''], cls_attrs = [''pagination_class'']\<rparr>"

definition AsyncSoftDeleteMixin_class :: "class_object py_class" where
  "AsyncSoftDeleteMixin_class = \<lparr>cls_id = Package AsyncSoftDeleteMixin, cls_bases = [Package SoftDeleteMixin],
    cls_attrs = [''adestroy'', ''_atomic_soft_delete'']\<rparr>"

definition AsyncBaseViewSet_class :: "class_object py_class" where
  "AsyncBaseViewSet_class = \<lparr>cls_id = Package AsyncBaseViewSet,
    cls_bases = [Package EnvoyPermissionMixin, Package EnvoyScopedQuerysetMixin, Package TenantWriteScopeMixin, Package AtomicWriteMixin,
      Package AsyncSoftDeleteMixin, Other ''adrf_viewsets.ModelViewSet''],
    cls_attrs = [''pagination_class'', ''_aget_queryset_filter'', ''_has_sync_override'', ''_asave'',
      ''perform_acreate'', ''perform_aupdate'']\<rparr>"

definition SuperuserOrgScopeMixin_class :: "class_object py_class" where
  "SuperuserOrgScopeMixin_class = \<lparr>cls_id = Package SuperuserOrgScopeMixin, cls_bases = [Object],
    cls_attrs = [''superuser_org_query_param'', ''superuser_org_scope_field'', ''superuser_org_scope_model'',
      ''superuser_org_blank_is_absent'', ''superuser_org_invalid_message'', ''superuser_org_forbidden_message'',
      ''superuser_org_ordering'', ''superuser_org_extra_filter'', ''superuser_target_organization_id'',
      ''superuser_org_manager'', ''superuser_org_model'', ''superuser_org_queryset'', ''get_org_scoped_queryset'',
      ''get_queryset'', ''perform_create'', ''perform_update'']\<rparr>"

definition ExcelExportMixin_class :: "class_object py_class" where
  "ExcelExportMixin_class = \<lparr>cls_id = Package ExcelExportMixin, cls_bases = [Object],
    cls_attrs = [''renderer_classes'', ''filename'', ''pagination_class'', ''column_header'', ''body'']\<rparr>"

definition ExcelExportViewSet_class :: "class_object py_class" where
  "ExcelExportViewSet_class = \<lparr>cls_id = Package ExcelExportViewSet,
    cls_bases = [Package ExcelExportMixin, Other ''XLSXFileMixin'', Other ''ReadOnlyModelViewSet''], cls_attrs = []\<rparr>"

definition DocumentedExcelViewSet_class :: "class_object py_class" where
  "DocumentedExcelViewSet_class = \<lparr>cls_id = Package DocumentedExcelViewSet, cls_bases = [Package ExcelExportViewSet],
    cls_attrs = [''schema'', ''list'', ''retrieve'']\<rparr>"

definition ScopedExcelViewSet_class :: "class_object py_class" where
  "ScopedExcelViewSet_class = \<lparr>cls_id = Package ScopedExcelViewSet,
    cls_bases = [Package EnvoyScopedQuerysetMixin, Package DocumentedExcelViewSet], cls_attrs = []\<rparr>"

definition AsyncExcelViewSet_class :: "class_object py_class" where
  "AsyncExcelViewSet_class = \<lparr>cls_id = Package AsyncExcelViewSet,
    cls_bases = [Package ExcelExportMixin, Other ''XLSXFileMixin'', Other ''AsyncReadOnlyModelViewSet''],
    cls_attrs = [''schema'', ''list'', ''alist'', ''aretrieve'']\<rparr>"

text \<open>Every view class of the package, in an order its modules may be imported in.\<close>

definition MIXINS :: "class_object py_class list" where
  "MIXINS = [EnvoyScopedQuerysetMixin_class, TenantWriteScopeMixin_class, SoftDeleteMixin_class, AtomicWriteMixin_class,
    EnvoyPermissionMixin_class, ListErrorMappingMixin_class, CreateListModelMixin_class, UpdateListModelMixin_class,
    IncludeDeletedMixin_class, SuperuserOrgScopeMixin_class, ExcelExportMixin_class]"

definition COMBINED :: "class_object py_class list" where
  "COMBINED = [BaseViewSet_class, AsyncSoftDeleteMixin_class, AsyncBaseViewSet_class, ExcelExportViewSet_class,
    DocumentedExcelViewSet_class, ScopedExcelViewSet_class, AsyncExcelViewSet_class]"

abbreviation VIEW_CLASSES :: "class_object py_class list" where
  "VIEW_CLASSES \<equiv> MIXINS @ COMBINED"

text \<open>The attributes of a class: the package's own as stated, the others' as given.\<close>

definition package_attrs :: "(class_object \<Rightarrow> string list) \<Rightarrow> class_object \<Rightarrow> string list" where
  "package_attrs others c = (case find (\<lambda>k. cls_id k = c) VIEW_CLASSES of Some k \<Rightarrow> cls_attrs k | None \<Rightarrow> others c)"

section \<open>The framework\<close>

text \<open>
  \<open>object\<close>, the file mixin of drf-excel, which derives from it alone, and the four viewset classes, each
  with an order of its own that ends in \<open>object\<close> and holds no class of the package.
\<close>

fun of_package :: "class_object \<Rightarrow> bool" where
  "of_package (Package k) = True"
| "of_package c = False"

abbreviation XLSX_MIXIN :: class_object where "XLSX_MIXIN \<equiv> Other ''XLSXFileMixin''"
abbreviation DRF :: class_object where "DRF \<equiv> Other ''viewsets.ModelViewSet''"
abbreviation ADRF :: class_object where "ADRF \<equiv> Other ''adrf_viewsets.ModelViewSet''"
abbreviation READ_ONLY :: class_object where "READ_ONLY \<equiv> Other ''ReadOnlyModelViewSet''"
abbreviation ASYNC_READ_ONLY :: class_object where "ASYNC_READ_ONLY \<equiv> Other ''AsyncReadOnlyModelViewSet''"

definition framework_class :: "class_object linearizations \<Rightarrow> class_object \<Rightarrow> class_object list \<Rightarrow> bool" where
  "framework_class known v rest \<longleftrightarrow>
    known v = Some (v # rest @ [Object]) \<and> distinct (v # rest @ [Object])
    \<and> list_all (\<lambda>c. \<not> of_package c \<and> c \<noteq> XLSX_MIXIN) rest"

definition framework ::
    "class_object linearizations \<Rightarrow> class_object list \<Rightarrow> class_object list \<Rightarrow> class_object list \<Rightarrow> class_object list \<Rightarrow> bool" where
  "framework known drf adrf ro aro \<longleftrightarrow>
    known Object = Some [Object] \<and> known XLSX_MIXIN = Some [XLSX_MIXIN, Object]
    \<and> framework_class known DRF drf \<and> framework_class known ADRF adrf
    \<and> framework_class known READ_ONLY ro \<and> framework_class known ASYNC_READ_ONLY aro"

section \<open>Lemmas\<close>

lemmas mixin_defs = EnvoyScopedQuerysetMixin_class_def TenantWriteScopeMixin_class_def SoftDeleteMixin_class_def
  AtomicWriteMixin_class_def EnvoyPermissionMixin_class_def ListErrorMappingMixin_class_def CreateListModelMixin_class_def
  UpdateListModelMixin_class_def IncludeDeletedMixin_class_def SuperuserOrgScopeMixin_class_def ExcelExportMixin_class_def

lemmas combined_defs = BaseViewSet_class_def AsyncSoftDeleteMixin_class_def AsyncBaseViewSet_class_def
  ExcelExportViewSet_class_def DocumentedExcelViewSet_class_def ScopedExcelViewSet_class_def AsyncExcelViewSet_class_def

lemma mixin_names: "map cls_id MIXINS = map Package [EnvoyScopedQuerysetMixin, TenantWriteScopeMixin, SoftDeleteMixin,
    AtomicWriteMixin, EnvoyPermissionMixin, ListErrorMappingMixin, CreateListModelMixin, UpdateListModelMixin,
    IncludeDeletedMixin, SuperuserOrgScopeMixin, ExcelExportMixin]"
  by (simp add: MIXINS_def mixin_defs)

lemma combined_names: "map cls_id COMBINED = map Package [BaseViewSet, AsyncSoftDeleteMixin, AsyncBaseViewSet,
    ExcelExportViewSet, DocumentedExcelViewSet, ScopedExcelViewSet, AsyncExcelViewSet]"
  by (simp add: COMBINED_def combined_defs)

lemma view_names: "c \<in> set (map cls_id VIEW_CLASSES) \<longleftrightarrow> of_package c"
proof (cases c)
  case (Package k)
  then show ?thesis by (cases k) (simp_all add: mixin_names combined_names del: set_map)
qed (simp_all add: mixin_names combined_names del: set_map)

lemma MIXINS_plain: "c \<in> set MIXINS \<Longrightarrow> cls_bases c = [Object]"
  by (auto simp: MIXINS_def mixin_defs)

lemma root_mixin: "known Object = Some [Object] \<Longrightarrow> cls_bases c = [Object] \<Longrightarrow> class_mro known c = Some [cls_id c, Object]"
  using c3_longest [of "[Object]" "[[Object], [Object]]"] by (simp add: class_mro_def)

text \<open>Names of the package in front of one of the framework's orders are distinct.\<close>

lemma order_distinct:
  assumes "framework_class known v rest" and "distinct (ns @ [v, Object])" and "list_all (\<lambda>c. of_package c \<or> c = XLSX_MIXIN) ns"
  shows "distinct (ns @ v # rest @ [Object])"
  using assms by (auto simp: framework_class_def list_all_iff)

text \<open>The table the modules build.\<close>

definition view_order :: "class_object list \<Rightarrow> class_object list \<Rightarrow> class_object list \<Rightarrow> class_object list \<Rightarrow>
    package_class \<Rightarrow> class_object list" where
  "view_order drf adrf ro aro k = Package k #
    (let stock = map Package [EnvoyPermissionMixin, EnvoyScopedQuerysetMixin, TenantWriteScopeMixin, AtomicWriteMixin];
         excel = Package ExcelExportMixin # XLSX_MIXIN # READ_ONLY # ro
     in case k of
       BaseViewSet \<Rightarrow> stock @ Package SoftDeleteMixin # DRF # drf
     | AsyncSoftDeleteMixin \<Rightarrow> [Package SoftDeleteMixin]
     | AsyncBaseViewSet \<Rightarrow> stock @ Package AsyncSoftDeleteMixin # Package SoftDeleteMixin # ADRF # adrf
     | ExcelExportViewSet \<Rightarrow> excel
     | DocumentedExcelViewSet \<Rightarrow> Package ExcelExportViewSet # excel
     | ScopedExcelViewSet \<Rightarrow> Package EnvoyScopedQuerysetMixin # Package DocumentedExcelViewSet # Package ExcelExportViewSet # excel
     | AsyncExcelViewSet \<Rightarrow> Package ExcelExportMixin # XLSX_MIXIN # ASYNC_READ_ONLY # aro
     | _ \<Rightarrow> []) @ [Object]"

definition view_env :: "class_object linearizations \<Rightarrow> class_object list \<Rightarrow> class_object list \<Rightarrow> class_object list \<Rightarrow>
    class_object list \<Rightarrow> class_object linearizations" where
  "view_env known drf adrf ro aro c =
    (case c of Package k \<Rightarrow> Some (view_order drf adrf ro aro k) | _ \<Rightarrow> known c)"

lemma view_env_simps [simp]:
  "view_env known drf adrf ro aro (Package k) = Some (view_order drf adrf ro aro k)"
  "view_env known drf adrf ro aro Object = known Object"
  "view_env known drf adrf ro aro (Other n) = known (Other n)"
  by (simp_all add: view_env_def)

lemma view_mro:
  assumes "framework known drf adrf ro aro" and "c \<in> set COMBINED"
  shows "class_mro (view_env known drf adrf ro aro) c = view_env known drf adrf ro aro (cls_id c)"
proof -
  let ?env = "view_env known drf adrf ro aro" and ?P = "map (\<lambda>k. [Package k])"
  note fw = assms(1) [unfolded framework_def, THEN conjunct2, THEN conjunct2]
  have known: "known Object = Some [Object]" "known XLSX_MIXIN = Some [XLSX_MIXIN, Object]" "known DRF = Some (DRF # drf @ [Object])"
    "known ADRF = Some (ADRF # adrf @ [Object])" "known READ_ONLY = Some (READ_ONLY # ro @ [Object])"
    "known ASYNC_READ_ONLY = Some (ASYNC_READ_ONLY # aro @ [Object])"
    using assms(1) by (simp_all add: framework_def framework_class_def)
  let ?stock = "[EnvoyPermissionMixin, EnvoyScopedQuerysetMixin, TenantWriteScopeMixin, AtomicWriteMixin]"
  let ?front = "[Package ScopedExcelViewSet, Package EnvoyScopedQuerysetMixin, Package DocumentedExcelViewSet,
      Package ExcelExportViewSet, Package ExcelExportMixin, XLSX_MIXIN]"
  have base: "distinct (map Package (?stock @ [SoftDeleteMixin]) @ DRF # drf @ [Object])"
    and abase: "distinct (map Package (?stock @ [AsyncSoftDeleteMixin, SoftDeleteMixin]) @ ADRF # adrf @ [Object])"
    and excel: "distinct (?front @ READ_ONLY # ro @ [Object])"
    and aexcel: "distinct ([Package ExcelExportMixin, XLSX_MIXIN] @ ASYNC_READ_ONLY # aro @ [Object])"
    using fw by (intro order_distinct [where known = known]; simp)+
  note sts = view_order_def combined_defs known
  have "class_mro ?env BaseViewSet_class = ?env (Package BaseViewSet)"
    using stacked_class [of ?env BaseViewSet_class Object "?P (?stock @ [SoftDeleteMixin])" DRF drf] base by (simp add: sts)
  moreover have "class_mro ?env AsyncSoftDeleteMixin_class = ?env (Package AsyncSoftDeleteMixin)"
    using stacked_class [of ?env AsyncSoftDeleteMixin_class Object "[]" "Package SoftDeleteMixin" "[]"] by (simp add: sts)
  moreover have "class_mro ?env AsyncBaseViewSet_class = ?env (Package AsyncBaseViewSet)"
    using stacked_class [of ?env AsyncBaseViewSet_class Object
        "?P ?stock @ [[Package AsyncSoftDeleteMixin, Package SoftDeleteMixin]]" ADRF adrf] abase by (simp add: sts)
  moreover have "class_mro ?env ExcelExportViewSet_class = ?env (Package ExcelExportViewSet)"
    using stacked_class [of ?env ExcelExportViewSet_class Object "[[Package ExcelExportMixin], [XLSX_MIXIN]]" READ_ONLY ro] excel
    by (simp add: sts)
  moreover have "class_mro ?env DocumentedExcelViewSet_class = ?env (Package DocumentedExcelViewSet)"
    using stacked_class [of ?env DocumentedExcelViewSet_class Object "[]" "Package ExcelExportViewSet"
        "Package ExcelExportMixin # XLSX_MIXIN # READ_ONLY # ro"] excel by (simp add: sts)
  moreover have "class_mro ?env ScopedExcelViewSet_class = ?env (Package ScopedExcelViewSet)"
    using stacked_class [of ?env ScopedExcelViewSet_class Object "[[Package EnvoyScopedQuerysetMixin]]"
        "Package DocumentedExcelViewSet" "Package ExcelExportViewSet # Package ExcelExportMixin # XLSX_MIXIN # READ_ONLY # ro"] excel
    by (simp add: sts)
  moreover have "class_mro ?env AsyncExcelViewSet_class = ?env (Package AsyncExcelViewSet)"
    using stacked_class [of ?env AsyncExcelViewSet_class Object "[[Package ExcelExportMixin], [XLSX_MIXIN]]" ASYNC_READ_ONLY aro] aexcel
    by (simp add: sts)
  ultimately show ?thesis using assms(2) by (auto simp: COMBINED_def combined_defs)
qed

lemma mixin_env:
  assumes "framework known drf adrf ro aro" and "c \<in> set MIXINS"
  shows "view_env known drf adrf ro aro (cls_id c) = Some [cls_id c, Object]"
  using assms(2) by (auto simp: MIXINS_def mixin_defs view_order_def)

lemma view_statements:
  assumes "framework known drf adrf ro aro"
  shows "class_statements VIEW_CLASSES known = Some (view_env known drf adrf ro aro)"
proof (rule statements_build)
  let ?env = "view_env known drf adrf ro aro"
  have root: "?env Object = Some [Object]" using assms by (simp add: framework_def)
  show "\<forall>c. c \<notin> set (map cls_id VIEW_CLASSES) \<longrightarrow> known c = ?env c"
    unfolding view_names by (metis class_object.exhaust of_package.simps(1) view_env_simps(2,3))
  show "declared_before VIEW_CLASSES"
    by (simp add: MIXINS_def COMBINED_def mixin_defs combined_defs)
  show "\<forall>c \<in> set VIEW_CLASSES. ?env (cls_id c) \<noteq> None \<and> class_mro ?env c = ?env (cls_id c)"
  proof
    fix c assume c: "c \<in> set VIEW_CLASSES"
    then have "of_package (cls_id c)" using view_names [of "cls_id c"] by auto
    then have "?env (cls_id c) \<noteq> None" by (cases "cls_id c") simp_all
    moreover have "class_mro ?env c = ?env (cls_id c)"
    proof (cases "c \<in> set MIXINS")
      case True
      from root_mixin [where known = ?env, OF root MIXINS_plain [OF True]] mixin_env [OF assms True] show ?thesis by simp
    next
      case False
      with c view_mro [OF assms] show ?thesis by simp
    qed
    ultimately show "?env (cls_id c) \<noteq> None \<and> class_mro ?env c = ?env (cls_id c)" by simp
  qed
qed

text \<open>
  A service's modules on top of the package's: every class they know has a proper order, the package's are
  known and have their attributes as their statements gave them.
\<close>

definition service_modules ::
    "class_object linearizations \<Rightarrow> class_object linearizations \<Rightarrow> (class_object \<Rightarrow> string list) \<Rightarrow> bool" where
  "service_modules package env attrs \<longleftrightarrow>
    (\<forall>c l. env c = Some l \<longrightarrow> distinct l) \<and> (\<forall>c \<in> set (map cls_id VIEW_CLASSES). env c = package c)
    \<and> (\<forall>k \<in> set VIEW_CLASSES. attrs (cls_id k) = cls_attrs k)"

text \<open>The two viewsets services build on: the package's mixins in their order, and the framework's part.\<close>

definition base_viewsets :: "class_object list \<Rightarrow> class_object list \<Rightarrow> (package_class \<times> package_class list \<times> class_object list) list" where
  "base_viewsets drf adrf =
    [(BaseViewSet, [EnvoyPermissionMixin, EnvoyScopedQuerysetMixin, TenantWriteScopeMixin, AtomicWriteMixin,
        SoftDeleteMixin], DRF # drf),
     (AsyncBaseViewSet, [EnvoyPermissionMixin, EnvoyScopedQuerysetMixin, TenantWriteScopeMixin, AtomicWriteMixin,
        AsyncSoftDeleteMixin, SoftDeleteMixin], ADRF # adrf)]"

lemma base_viewset_order:
  assumes "(base, mixins, fr) \<in> set (base_viewsets drf adrf)"
  shows "view_order drf adrf ro aro base = Package base # (map Package mixins @ fr) @ [Object]"
    "TenantWriteScopeMixin \<in> set mixins"
  using assms by (auto simp: base_viewsets_def view_order_def)

section \<open>Properties\<close>

text \<open>
  Whatever a service builds on the package's viewsets, the package's operations come before the
  framework's. For every class with \<open>BaseViewSet\<close> or \<open>AsyncBaseViewSet\<close> among its bases, and whatever
  mixins stand beside it, every name a mixin of that viewset defines (scoping, pinning, atomic dispatch,
  soft deletion, permissions) resolves to a class that is not of the framework's part, and so does
  \<open>super()\<close> from an override in the class itself. An asynchronous create then runs the hook that the class
  resolves to, whoever defines it.
\<close>

theorem service_viewset_resolution:
  assumes "framework known drf adrf ro aro" and "class_statements VIEW_CLASSES known = Some package"
    and "service_modules package env attrs"
    and "class_mro env c = Some m" and "distinct (cls_bases c)" and "cls_id c \<notin> set fr"
    and "(base, mixins, fr) \<in> set (base_viewsets drf adrf)" and "Package base \<in> set (cls_bases c)"
  defines "create_hook \<equiv> the (resolve attrs m ''perform_create'')"
  shows "(\<forall>k \<in> set VIEW_CLASSES. cls_id k \<in> Package ` set mixins \<longrightarrow> (\<forall>n \<in> set (cls_attrs k).
        \<exists>d d'. resolve attrs m n = Some d \<and> resolve_super attrs m (cls_id c) n = Some d'
          \<and> d \<notin> set fr \<and> d' \<notin> set fr))
    \<and> (Other ''CreateModelMixin'' \<in> set fr \<and> asave_contract sv \<and> hooks (Package TenantWriteScopeMixin) = perform_create w \<longrightarrow>
        acreate_effect create_hook (hooks create_hook) w sv = hook_effect (hooks create_hook) sv)"
proof -
  have package: "package = view_env known drf adrf ro aro" using assms(2) view_statements [OF assms(1)] by simp
  have "env (Package base) = package (Package base)"
    using assms(3) view_names [of "Package base"] unfolding service_modules_def by (metis of_package.simps(1))
  then have "env (Package base) = Some (Package base # (map Package mixins @ fr) @ [Object])"
    using base_viewset_order(1) [OF assms(7)] by (simp add: package)
  moreover have proper: "\<forall>b \<in> set (cls_bases c). \<forall>l. env b = Some l \<longrightarrow> distinct l"
    using assms(3) unfolding service_modules_def by blast
  ultimately obtain m' where m: "m = cls_id c # m'" "distinct m'"
    "subseq (Package base # (map Package mixins @ fr) @ [Object]) m'"
    using class_mro_laws [OF assms(4) proper assms(5,8)] by blast
  have sub: "subseq (map Package mixins @ fr) m'"
    using m(3) by (meson prefixI prefix_imp_subseq subseq_Cons' subseq_order.order_trans)
  note stated = assms(3) [unfolded service_modules_def, THEN conjunct2, THEN conjunct2]
  have found: "\<exists>d d'. resolve attrs m n = Some d \<and> resolve_super attrs m (cls_id c) n = Some d' \<and> d \<notin> set fr \<and> d' \<notin> set fr"
    if "k \<in> set VIEW_CLASSES" "cls_id k \<in> Package ` set mixins" "n \<in> set (cls_attrs k)" for k n
  proof -
    have "n \<in> set (attrs (cls_id k))" using bspec [OF stated that(1)] that(3) by simp
    moreover have "cls_id k \<in> set (map Package mixins)" using that(2) by simp
    ultimately obtain d where d: "resolve attrs m' n = Some d" "d \<notin> set fr"
      using package_before_framework [where attrs = attrs and p = "cls_id k" and n = n, OF sub m(2)] by blast
    with assms(6) own_class_first [OF m(1)] show ?thesis by (simp add: m(1))
  qed
  moreover have "acreate_effect create_hook (hooks create_hook) w sv = hook_effect (hooks create_hook) sv"
    if "Other ''CreateModelMixin'' \<in> set fr" "asave_contract sv" "hooks (Package TenantWriteScopeMixin) = perform_create w"
  proof -
    have "TenantWriteScopeMixin_class \<in> set VIEW_CLASSES" "cls_id TenantWriteScopeMixin_class \<in> Package ` set mixins"
      "''perform_create'' \<in> set (cls_attrs TenantWriteScopeMixin_class)"
      using base_viewset_order(2) [OF assms(7)] by (simp_all add: MIXINS_def) (simp_all add: TenantWriteScopeMixin_class_def)
    from found [OF this] have "create_hook \<notin> set fr" by (auto simp: create_hook_def)
    with that(1) have "create_hook \<noteq> Other ''CreateModelMixin''" by auto
    with stock_effect(1) [OF that(2)] overridden_effect that(3) show ?thesis
      by (cases "create_hook = Package TenantWriteScopeMixin") (simp_all add: has_sync_override_def CREATE_BASELINES_def)
  qed
  ultimately show ?thesis by blast
qed

text \<open>The framework with nothing but the viewset classes and the create mixin; a service's viewset on it.\<close>

definition sample_framework :: "class_object linearizations" where
  "sample_framework =
    [Object \<mapsto> [Object], XLSX_MIXIN \<mapsto> [XLSX_MIXIN, Object], DRF \<mapsto> [DRF, Other ''CreateModelMixin'', Object],
     ADRF \<mapsto> [ADRF, Other ''CreateModelMixin'', Object], READ_ONLY \<mapsto> [READ_ONLY, Object],
     ASYNC_READ_ONLY \<mapsto> [ASYNC_READ_ONLY, Object]]"

lemma sample_framework_ok: "framework sample_framework [Other ''CreateModelMixin''] [Other ''CreateModelMixin''] [] []"
  by (simp add: framework_def framework_class_def sample_framework_def)

definition asset_viewset :: "class_object py_class" where
  "asset_viewset = \<lparr>cls_id = Other ''AssetViewSet'', cls_bases = [Package SuperuserOrgScopeMixin, Package AsyncBaseViewSet],
    cls_attrs = []\<rparr>"

abbreviation sample_env :: "class_object linearizations" where
  "sample_env \<equiv> view_env sample_framework [Other ''CreateModelMixin''] [Other ''CreateModelMixin''] [] []"

abbreviation sample_attrs :: "class_object \<Rightarrow> string list" where
  "sample_attrs \<equiv> package_attrs (\<lambda>c. if c = Other ''CreateModelMixin'' then [''create'', ''perform_create''] else [])"

lemma sample_modules: "service_modules sample_env sample_env sample_attrs"
proof -
  have "distinct l" if "sample_env c = Some l" for c l
  proof (cases c)
    case (Package k)
    with that show ?thesis by (cases k) (auto simp: view_order_def)
  qed (use that in \<open>auto simp: sample_framework_def split: if_splits\<close>)
  moreover have "\<forall>k \<in> set VIEW_CLASSES. sample_attrs (cls_id k) = cls_attrs k"
    by (simp add: package_attrs_def MIXINS_def COMBINED_def mixin_defs combined_defs)
  ultimately show ?thesis by (auto simp: service_modules_def)
qed

lemma asset_order:
  "class_mro sample_env asset_viewset = Some ([Other ''AssetViewSet'', Package SuperuserOrgScopeMixin, Package AsyncBaseViewSet]
    @ map Package [EnvoyPermissionMixin, EnvoyScopedQuerysetMixin, TenantWriteScopeMixin, AtomicWriteMixin,
      AsyncSoftDeleteMixin, SoftDeleteMixin] @ [ADRF, Other ''CreateModelMixin'', Object])"
  using stacked_class [of sample_env asset_viewset Object "[[Package SuperuserOrgScopeMixin]]" "Package AsyncBaseViewSet"
      "map Package [EnvoyPermissionMixin, EnvoyScopedQuerysetMixin, TenantWriteScopeMixin, AtomicWriteMixin,
        AsyncSoftDeleteMixin, SoftDeleteMixin] @ [ADRF, Other ''CreateModelMixin'']"]
  by (simp add: asset_viewset_def view_order_def)

lemma service_viewset_resolution_witness:
  "\<exists>d d'. resolve sample_attrs (the (class_mro sample_env asset_viewset)) ''dispatch'' = Some d
    \<and> resolve_super sample_attrs (the (class_mro sample_env asset_viewset)) (Other ''AssetViewSet'') ''dispatch'' = Some d'
    \<and> d \<notin> set [ADRF, Other ''CreateModelMixin''] \<and> d' \<notin> set [ADRF, Other ''CreateModelMixin'']"
proof -
  have base: "(AsyncBaseViewSet, [EnvoyPermissionMixin, EnvoyScopedQuerysetMixin, TenantWriteScopeMixin, AtomicWriteMixin,
      AsyncSoftDeleteMixin, SoftDeleteMixin], [ADRF, Other ''CreateModelMixin''])
      \<in> set (base_viewsets [Other ''CreateModelMixin''] [Other ''CreateModelMixin''])" by (simp add: base_viewsets_def)
  have c: "distinct (cls_bases asset_viewset)" "cls_id asset_viewset = Other ''AssetViewSet''"
    "cls_id asset_viewset \<notin> set [ADRF, Other ''CreateModelMixin'']" "Package AsyncBaseViewSet \<in> set (cls_bases asset_viewset)"
    by (simp_all add: asset_viewset_def)
  have k: "AtomicWriteMixin_class \<in> set VIEW_CLASSES" "''dispatch'' \<in> set (cls_attrs AtomicWriteMixin_class)"
    "cls_id AtomicWriteMixin_class \<in> Package ` set [EnvoyPermissionMixin, EnvoyScopedQuerysetMixin, TenantWriteScopeMixin,
      AtomicWriteMixin, AsyncSoftDeleteMixin, SoftDeleteMixin]"
    by (simp add: MIXINS_def) (simp_all add: AtomicWriteMixin_class_def)
  from service_viewset_resolution [OF sample_framework_ok view_statements [OF sample_framework_ok] sample_modules
      asset_order c(1,3) base c(4), THEN conjunct1, THEN bspec, OF k(1), THEN mp, OF k(3), THEN bspec, OF k(2)]
  show ?thesis unfolding asset_order option.sel c(2) .
qed

text \<open>
  Which of its own methods a class of the package passes on with \<open>super()\<close>. A method runs where the look-up
  finds it, and behind it, where it passes on, the next definition of the same name; the classes whose
  definition can run are those of \<open>runs\<close>.
\<close>

fun passes_on :: "package_class \<Rightarrow> string list" where
  "passes_on EnvoyScopedQuerysetMixin = [''get_queryset'']"
| "passes_on TenantWriteScopeMixin = [''perform_create'', ''perform_update'', ''get_serializer'']"
| "passes_on AtomicWriteMixin = [''dispatch'']"
| "passes_on ListErrorMappingMixin = [''filter_queryset'', ''list'']"
| "passes_on IncludeDeletedMixin = [''_get_queryset_filter'', ''get_queryset'', ''filter_queryset'']"
| "passes_on SuperuserOrgScopeMixin = [''get_queryset'', ''perform_create'', ''perform_update'']"
| "passes_on DocumentedExcelViewSet = [''list'', ''retrieve'']"
| "passes_on AsyncExcelViewSet = [''list'', ''aretrieve'']"
| "passes_on k = []"

fun runs :: "(class_object \<Rightarrow> string list) \<Rightarrow> (class_object \<Rightarrow> string list) \<Rightarrow> class_object list \<Rightarrow> string \<Rightarrow> class_object list" where
  "runs attrs passes [] n = []"
| "runs attrs passes (c # cs) n =
    (if n \<notin> set (attrs c) then runs attrs passes cs n
     else c # (if n \<in> set (passes c) then runs attrs passes cs n else []))"

text \<open>
  The hooks the opt-in mixins define, and the class of the package that has them otherwise, if one does:
  \<open>filter_queryset\<close> is the framework's.
\<close>

definition TAKEN_OVER :: "(class_object py_class \<times> string \<times> package_class option) list" where
  "TAKEN_OVER =
    [(IncludeDeletedMixin_class, ''get_queryset'', Some EnvoyScopedQuerysetMixin),
     (IncludeDeletedMixin_class, ''_get_queryset_filter'', Some EnvoyScopedQuerysetMixin),
     (IncludeDeletedMixin_class, ''filter_queryset'', None),
     (SuperuserOrgScopeMixin_class, ''get_queryset'', Some EnvoyScopedQuerysetMixin),
     (SuperuserOrgScopeMixin_class, ''perform_create'', Some TenantWriteScopeMixin),
     (SuperuserOrgScopeMixin_class, ''perform_update'', Some TenantWriteScopeMixin)]"

text \<open>
  What the framework has of these names: its viewsets define the public ones, in a method that does not pass
  on, and not the package's own private one.
\<close>

definition ends_in_framework :: "(class_object \<Rightarrow> string list) \<Rightarrow> (class_object \<Rightarrow> string list) \<Rightarrow> class_object list \<Rightarrow> bool" where
  "ends_in_framework attrs passes fr \<longleftrightarrow>
    list_all (\<lambda>n. list_ex (\<lambda>c. n \<in> set (attrs c)) fr \<and> list_all (\<lambda>c. n \<notin> set (passes c)) fr)
      [''get_queryset'', ''filter_queryset'', ''perform_create'', ''perform_update'']"

text \<open>The definitions of a hook that run on the viewset without the mixin: the package's, and what that passes on to.\<close>

definition stock_runs :: "(class_object \<Rightarrow> string list) \<Rightarrow> class_object list \<Rightarrow> string \<Rightarrow> package_class option \<Rightarrow> class_object list" where
  "stock_runs attrs fr n stock =
    (let own = take 1 (filter (\<lambda>c. n \<in> set (attrs c)) fr) in
     case stock of
       Some k \<Rightarrow> Package k # (if n \<in> set (passes_on k) then own else [])
     | None \<Rightarrow> own)"

lemma runs_framework:
  assumes "list_ex (\<lambda>c. n \<in> set (attrs c)) fr" and "list_all (\<lambda>c. n \<notin> set (passes c)) fr"
  shows "runs attrs passes (fr @ rest) n = take 1 (filter (\<lambda>c. n \<in> set (attrs c)) fr)"
  using assms by (induction fr) auto

lemma set_stock_runs:
  assumes "c \<in> set (stock_runs attrs fr n stock)"
  shows "c \<in> set fr \<or> (\<exists>k. stock = Some k \<and> c = Package k)"
  using assms by (cases stock) (auto simp: stock_runs_def dest: in_set_takeD split: if_splits)

lemma taken_over:
  assumes "(mx, n, stock) \<in> set TAKEN_OVER"
  shows "mx = IncludeDeletedMixin_class \<and> (n, stock) \<in> {(''get_queryset'', Some EnvoyScopedQuerysetMixin),
        (''_get_queryset_filter'', Some EnvoyScopedQuerysetMixin), (''filter_queryset'', None)}
    \<or> mx = SuperuserOrgScopeMixin_class \<and> (n, stock) \<in> {(''get_queryset'', Some EnvoyScopedQuerysetMixin),
        (''perform_create'', Some TenantWriteScopeMixin), (''perform_update'', Some TenantWriteScopeMixin)}"
  using assms by (auto simp: TAKEN_OVER_def)

text \<open>The definitions that run on either viewset without the mixin, whatever stands behind the framework's part.\<close>

lemma base_runs:
  assumes stated: "\<And>k. k \<in> set VIEW_CLASSES \<Longrightarrow> attrs (cls_id k) = cls_attrs k"
    and passes: "\<And>k. passes (Package k) = passes_on k" and fr: "ends_in_framework attrs passes fr"
    and base: "(base, mixins, fr) \<in> set (base_viewsets drf adrf)" and "(mx, n, stock) \<in> set TAKEN_OVER"
  shows "runs attrs passes (Package base # map Package mixins @ fr @ rest) n = stock_runs attrs fr n stock"
proof -
  have attrs: "attrs (Package EnvoyPermissionMixin) = cls_attrs EnvoyPermissionMixin_class"
    "attrs (Package EnvoyScopedQuerysetMixin) = cls_attrs EnvoyScopedQuerysetMixin_class"
    "attrs (Package TenantWriteScopeMixin) = cls_attrs TenantWriteScopeMixin_class"
    "attrs (Package AtomicWriteMixin) = cls_attrs AtomicWriteMixin_class"
    "attrs (Package SoftDeleteMixin) = cls_attrs SoftDeleteMixin_class"
    "attrs (Package AsyncSoftDeleteMixin) = cls_attrs AsyncSoftDeleteMixin_class"
    "attrs (Package BaseViewSet) = cls_attrs BaseViewSet_class" "attrs (Package AsyncBaseViewSet) = cls_attrs AsyncBaseViewSet_class"
    using stated [of EnvoyPermissionMixin_class] stated [of EnvoyScopedQuerysetMixin_class] stated [of TenantWriteScopeMixin_class]
      stated [of AtomicWriteMixin_class] stated [of SoftDeleteMixin_class] stated [of AsyncSoftDeleteMixin_class]
      stated [of BaseViewSet_class] stated [of AsyncBaseViewSet_class]
    by (simp_all add: MIXINS_def COMBINED_def mixin_defs combined_defs)
  have own: "runs attrs passes (fr @ rest) n = take 1 (filter (\<lambda>c. n \<in> set (attrs c)) fr)"
    if "n \<noteq> ''_get_queryset_filter''"
    using that taken_over [OF assms(5)] fr by (intro runs_framework) (auto simp: ends_in_framework_def)
  have split: "mixins = EnvoyPermissionMixin # EnvoyScopedQuerysetMixin # TenantWriteScopeMixin # AtomicWriteMixin
      # (if base = BaseViewSet then [SoftDeleteMixin] else [AsyncSoftDeleteMixin, SoftDeleteMixin])"
    "base = BaseViewSet \<or> base = AsyncBaseViewSet"
    using base by (auto simp: base_viewsets_def)
  from taken_over [OF assms(5)] split(2) own show ?thesis
    unfolding split(1) by (elim disjE conjE insertE; simp add: attrs passes mixin_defs combined_defs stock_runs_def)
qed

lemma opt_in_orders:
  assumes "framework known drf adrf ro aro" and "(base, mixins, fr) \<in> set (base_viewsets drf adrf)"
    and "mx \<in> {IncludeDeletedMixin, SuperuserOrgScopeMixin}"
  shows "class_mro (view_env known drf adrf ro aro) \<lparr>cls_id = v, cls_bases = [Package mx, Package base], cls_attrs = own\<rparr>
      = Some (v # Package mx # Package base # map Package mixins @ fr @ [Object])"
    "class_mro (view_env known drf adrf ro aro) \<lparr>cls_id = v, cls_bases = [Package base, Package mx], cls_attrs = own\<rparr>
      = Some (v # Package base # map Package mixins @ fr @ [Package mx, Object])"
proof -
  have fw: "framework_class known DRF drf" "framework_class known ADRF adrf" using assms(1) by (simp_all add: framework_def)
  then obtain v' rest where fr: "fr = v' # rest" "framework_class known v' rest"
    "distinct (map Package (mx # base # mixins) @ [v', Object])"
    using assms(2,3) by (auto simp: base_viewsets_def)
  have distinct: "distinct (Package mx # Package base # map Package mixins @ fr @ [Object])"
    using order_distinct [OF fr(2,3)] by (simp add: fr(1) list_all_iff)
  have mx: "view_order drf adrf ro aro mx = [Package mx, Object]" using assms(3) by (auto simp: view_order_def)
  note base = base_viewset_order(1) [OF assms(2)]
  show "class_mro (view_env known drf adrf ro aro) \<lparr>cls_id = v, cls_bases = [Package mx, Package base], cls_attrs = own\<rparr>
      = Some (v # Package mx # Package base # map Package mixins @ fr @ [Object])"
    using stacked_class [of "view_env known drf adrf ro aro" "\<lparr>cls_id = v, cls_bases = [Package mx, Package base], cls_attrs = own\<rparr>"
        Object "[[Package mx]]" "Package base" "map Package mixins @ fr"] mx base distinct by simp
  show "class_mro (view_env known drf adrf ro aro) \<lparr>cls_id = v, cls_bases = [Package base, Package mx], cls_attrs = own\<rparr>
      = Some (v # Package base # map Package mixins @ fr @ [Package mx, Object])"
    using c3_last [of "Package base" "map Package mixins @ fr" "Package mx" Object] distinct mx base by (auto simp: class_mro_def)
qed

text \<open>
  C5. What an opt-in mixin changes depends on where it stands. In front of the viewset, every hook that
  \<open>include_deleted\<close> and the superuser's organization scope define runs there first, and \<open>super()\<close> in it goes on
  to exactly the definitions that run without the mixin: the package's own and, where that passes on too, the
  framework's. Behind the viewset, exactly those definitions run and no definition of the mixin is ever reached,
  by the look-up or by any chain of \<open>super()\<close>. What the framework defines of these names, and that it passes
  none of them on, is given.
\<close>

theorem mixin_position_decides:
  assumes "framework known drf adrf ro aro" and "class_statements VIEW_CLASSES known = Some env"
    and "\<forall>k \<in> set VIEW_CLASSES. attrs (cls_id k) = cls_attrs k" and "\<forall>k. passes (Package k) = passes_on k"
    and "(base, mixins, fr) \<in> set (base_viewsets drf adrf)" and "ends_in_framework attrs passes fr"
    and "(mx, n, stock) \<in> set TAKEN_OVER" and "\<not> of_package v" and "n \<notin> set (attrs v)"
  defines "front \<equiv> the (class_mro env \<lparr>cls_id = v, cls_bases = [cls_id mx, Package base], cls_attrs = attrs v\<rparr>)"
    and "behind \<equiv> the (class_mro env \<lparr>cls_id = v, cls_bases = [Package base, cls_id mx], cls_attrs = attrs v\<rparr>)"
  shows "runs attrs passes front n = cls_id mx # stock_runs attrs fr n stock
    \<and> runs attrs passes behind n = stock_runs attrs fr n stock
    \<and> cls_id mx \<notin> set (stock_runs attrs fr n stock) \<and> stock_runs attrs fr n stock \<noteq> []"
proof -
  have env: "env = view_env known drf adrf ro aro" using assms(2) view_statements [OF assms(1)] by simp
  note facts = taken_over [OF assms(7)]
  obtain k where k: "cls_id mx = Package k" "k \<in> {IncludeDeletedMixin, SuperuserOrgScopeMixin}"
    using facts by (auto simp: mixin_defs)
  note orders = opt_in_orders [OF assms(1,5) k(2), of v "attrs v", folded env k(1)]
  have stated: "attrs (cls_id c) = cls_attrs c" if "c \<in> set VIEW_CLASSES" for c using assms(3) that by (rule bspec)
  note base = base_runs [of attrs passes, OF stated spec [OF assms(4)] assms(6,5,7)]
  have "mx \<in> set MIXINS" "n \<in> set (cls_attrs mx)" "n \<in> set (passes_on k)"
    using facts k by (auto simp: MIXINS_def mixin_defs)
  with stated [of mx] assms(4) have mx: "n \<in> set (attrs (cls_id mx))" "n \<in> set (passes (cls_id mx))" by (simp_all add: k(1))
  have "framework_class known DRF drf" "framework_class known ADRF adrf" using assms(1) by (simp_all add: framework_def)
  then have "list_all (\<lambda>c. \<not> of_package c) fr"
    using assms(5) by (auto simp: base_viewsets_def framework_class_def list_all_iff)
  then have "Package c \<notin> set fr" for c by (auto simp: list_all_iff)
  moreover have "stock \<noteq> Some k" using facts k by (auto simp: mixin_defs)
  ultimately have away: "cls_id mx \<notin> set (stock_runs attrs fr n stock)"
    using set_stock_runs [of "cls_id mx" attrs fr n stock] by (auto simp: k(1))
  have "stock_runs attrs fr n stock \<noteq> []"
  proof (cases stock)
    case None
    with facts assms(6) show ?thesis
      by (auto simp: stock_runs_def ends_in_framework_def list_ex_iff filter_empty_conv)
  qed (simp add: stock_runs_def)
  moreover have "runs attrs passes front n = cls_id mx # stock_runs attrs fr n stock"
    using assms(9) mx base [of "[Object]"] by (simp add: front_def orders)
  moreover have "runs attrs passes behind n = stock_runs attrs fr n stock"
    using assms(9) base [of "[cls_id mx, Object]"] by (simp add: behind_def orders)
  ultimately show ?thesis using away by blast
qed

text \<open>A service's viewset on a framework whose generic views have the four public hooks.\<close>

abbreviation GENERIC :: class_object where "GENERIC \<equiv> Other ''CreateModelMixin''"

abbreviation hook_attrs :: "class_object \<Rightarrow> string list" where
  "hook_attrs \<equiv> package_attrs (\<lambda>c. if c = GENERIC
    then [''get_queryset'', ''filter_queryset'', ''perform_create'', ''perform_update''] else [])"

abbreviation hook_passes :: "class_object \<Rightarrow> string list" where
  "hook_passes c \<equiv> (case c of Package k \<Rightarrow> passes_on k | _ \<Rightarrow> [])"

lemma others_attrs: "package_attrs others (Other c) = others (Other c)"
  by (simp add: package_attrs_def find_None_iff MIXINS_def COMBINED_def mixin_defs combined_defs)

lemma mixin_position_decides_witness:
  "runs hook_attrs hook_passes (the (class_mro sample_env \<lparr>cls_id = Other ''AssetViewSet'',
      cls_bases = [Package AsyncBaseViewSet, Package SuperuserOrgScopeMixin], cls_attrs = []\<rparr>)) ''perform_create''
    = [Package TenantWriteScopeMixin, GENERIC]
   \<and> runs hook_attrs hook_passes (the (class_mro sample_env \<lparr>cls_id = Other ''AssetViewSet'',
      cls_bases = [Package IncludeDeletedMixin, Package AsyncBaseViewSet], cls_attrs = []\<rparr>)) ''filter_queryset''
    = [Package IncludeDeletedMixin, GENERIC]"
proof -
  have stated: "\<forall>k \<in> set VIEW_CLASSES. hook_attrs (cls_id k) = cls_attrs k"
    by (simp add: package_attrs_def MIXINS_def COMBINED_def mixin_defs combined_defs)
  have base: "(AsyncBaseViewSet, [EnvoyPermissionMixin, EnvoyScopedQuerysetMixin, TenantWriteScopeMixin, AtomicWriteMixin,
      AsyncSoftDeleteMixin, SoftDeleteMixin], [ADRF, GENERIC]) \<in> set (base_viewsets [GENERIC] [GENERIC])"
    by (simp add: base_viewsets_def)
  have ends: "ends_in_framework hook_attrs hook_passes [ADRF, GENERIC]"
    by (simp add: ends_in_framework_def others_attrs)
  note decided = mixin_position_decides [OF sample_framework_ok view_statements [OF sample_framework_ok] stated _ base ends,
      of _ _ _ "Other ''AssetViewSet''"]
  have taken: "(SuperuserOrgScopeMixin_class, ''perform_create'', Some TenantWriteScopeMixin) \<in> set TAKEN_OVER"
    "(IncludeDeletedMixin_class, ''filter_queryset'', None) \<in> set TAKEN_OVER" by (simp_all add: TAKEN_OVER_def)
  have ids: "cls_id SuperuserOrgScopeMixin_class = Package SuperuserOrgScopeMixin"
    "cls_id IncludeDeletedMixin_class = Package IncludeDeletedMixin" by (simp_all add: mixin_defs)
  show ?thesis
    using decided [OF _ taken(1)] decided [OF _ taken(2)] by (simp add: stock_runs_def others_attrs ids)
qed

end
