(* ===== verification/Excel_Views.thy ===== *)
theory Excel_Views
  imports Excel_Styles Composition
begin

text \<open>
  The export viewsets of \<open>netix_backend/django/excel.py\<close>, \<open>excel_aio.py\<close> and \<open>excel_envoy.py\<close>: the style
  attributes they share, made when the module is imported, and which class's handlers answer.
\<close>

section \<open>The module's styles\<close>

text \<open>The two presets, and the class attributes of the export mixin, as cells of the heap.\<close>

record excel_module =
  arial :: cell
  aptos :: cell
  column_header :: cell
  body :: cell

definition import_excel :: "dict_heap \<Rightarrow> (excel_module \<times> dict_heap) res" where
  "import_excel h =
    (let (ar, h1) = alloc EXCEL_STYLE_ARIAL h;
         (ap, h2) = alloc EXCEL_STYLE_APTOS h1
     in rbind (excel_style h2 ar False) (\<lambda>(style, h3).
          rbind (item h3 style ''column_header'') (\<lambda>header.
            rbind (item h3 style ''body'') (\<lambda>body'.
              Inr (\<lparr>arial = ar, aptos = ap, column_header = header, body = body'\<rparr>, h3)))))"

text \<open>What an export viewset's attribute is, along its order: the value in the first class that has it.\<close>

definition style_of :: "(class_object \<Rightarrow> (string, cell) dict) \<Rightarrow> class_object list \<Rightarrow> string \<Rightarrow> cell option" where
  "style_of values order name =
    (case resolve (\<lambda>c. map fst (values c)) order name of None \<Rightarrow> None | Some c \<Rightarrow> dict_get (values c) name)"

text \<open>The export mixin's own dictionary; the other classes of the package have no style of their own.\<close>

definition mixin_values :: "excel_module \<Rightarrow> (class_object \<Rightarrow> (string, cell) dict) \<Rightarrow> class_object \<Rightarrow> (string, cell) dict" where
  "mixin_values m others c =
    (if c = Package ExcelExportMixin then [(''column_header'', column_header m), (''body'', body m)]
     else if of_package c then [] else others c)"

section \<open>Lemmas\<close>

lemma item_reaches: "item h (Ref a) k = Inr c \<Longrightarrow> reaches h c b \<Longrightarrow> reaches h (Ref a) b"
  by (auto simp: item_def dict_get_def split: if_splits option.splits dest!: map_of_SomeD intro: reaches.inside)

lemma item_reads:
  assumes "read_cell (Suc n) h (Ref a) = Some (Nested kts)" and "item h (Ref a) k = Inr c"
  shows "read_cell n h c = map_of kts k"
proof -
  have "dict_get d k = Some c \<Longrightarrow> read_items n h d = Some kts \<Longrightarrow> read_cell n h c = map_of kts k" for d
    by (induction d arbitrary: kts) (auto simp: dict_get_def split: if_splits option.splits)
  with assms show ?thesis by (auto simp: item_def split: if_splits option.splits)
qed

lemma item_found:
  assumes "read_cell (Suc n) h (Ref a) = Some (Nested kts)" and "map_of kts k = Some t"
  shows "\<exists>c. item h (Ref a) k = Inr c"
proof -
  have "read_items n h d = Some kts \<Longrightarrow> \<exists>c. dict_get d k = Some c" for d
    using assms(2) by (induction d arbitrary: kts) (auto simp: dict_get_def split: if_splits option.splits)
  with assms(1) show ?thesis by (auto simp: item_def split: if_splits option.splits)
qed

text \<open>A part of the preset the mixin shows.\<close>

definition preset_part :: "string \<Rightarrow> style_tree option" where
  "preset_part k = (case EXCEL_STYLE_ARIAL of Plain v \<Rightarrow> None | Nested kts \<Rightarrow> map_of kts k)"

lemma preset_parts: "preset_part ''column_header'' \<noteq> None" "preset_part ''body'' \<noteq> None"
  by (simp_all add: preset_part_def EXCEL_STYLE_ARIAL_def preset_def)

lemma preset_nested: obtains kts where "EXCEL_STYLE_ARIAL = Nested kts" "preset_part = map_of kts"
  by (simp add: preset_part_def EXCEL_STYLE_ARIAL_def preset_def fun_eq_iff)

lemma preset_depth: "depth_of EXCEL_STYLE_ARIAL = 4" "depth_of EXCEL_STYLE_APTOS = 4"
  by (simp_all add: EXCEL_STYLE_ARIAL_def EXCEL_STYLE_APTOS_def preset_def BORDER_SIDE_def)

lemma alloc_length:
  "alloc t h = (c, h') \<Longrightarrow> length h + depth_of t \<le> length h'"
  "alloc_items kts h = (d, h') \<Longrightarrow> length h + depth_items kts \<le> length h'"
proof (induction t h and kts h arbitrary: c h' and d h' rule: alloc_alloc_items.induct)
  case (2 kts h)
  obtain d h1 where "alloc_items kts h = (d, h1)" by force
  with 2 show ?case by force
next
  case (4 k t kts h)
  obtain c1 h1 where a: "alloc t h = (c1, h1)" by force
  obtain d2 h2 where b: "alloc_items kts h1 = (d2, h2)" by force
  from "4.IH"(1) [OF a] "4.IH"(2) [OF a [symmetric] refl b] "4.prems" a b show ?case by force
qed auto

text \<open>Importing the module: it never raises, and what its attributes reach is none of the presets.\<close>

lemma import_excel_ok:
  obtains m h' where "import_excel h = Inr (m, h')"
    "read_cell 3 h' (column_header m) = preset_part ''column_header''" "read_cell 3 h' (body m) = preset_part ''body''"
    "\<forall>a d. reaches h' (column_header m) a \<or> reaches h' (body m) a \<longrightarrow>
      read_cell 4 (h'[a := d]) (arial m) = Some EXCEL_STYLE_ARIAL \<and> read_cell 4 (h'[a := d]) (aptos m) = Some EXCEL_STYLE_APTOS"
proof -
  obtain ar h1 where ar: "alloc EXCEL_STYLE_ARIAL h = (ar, h1)" by force
  obtain ap h2 where ap: "alloc EXCEL_STYLE_APTOS h1 = (ap, h2)" by force
  obtain style h3 where st: "alloc EXCEL_STYLE_ARIAL h2 = (style, h3)" by force
  obtain g2 where g2: "h2 = h1 @ g2" using alloc_fresh(1) [OF ap] by blast
  obtain g3 where g3: "h3 = h2 @ g3" "fresh_cell (length h2) style" "closed_from (length h2) h3"
    using alloc_fresh(1) [OF st] by blast
  have read_ar: "read_cell n h2 ar = Some EXCEL_STYLE_ARIAL" if "4 \<le> n" for n
    by (rule read_agree(1) [OF read_alloc(1) [OF ar]]) (use that g2 preset_depth in \<open>auto simp: nth_append\<close>)
  have read_ap: "read_cell 4 h2 ap = Some EXCEL_STYLE_APTOS" using read_alloc(1) [OF ap] preset_depth by simp
  have "4 \<le> length h2" using alloc_length(1) [OF ar] g2 preset_depth by simp
  then have made: "excel_style h2 ar False = Inr (style, h3)" using read_ar st by (simp add: excel_style_def deepcopy_def)
  obtain kts where kts: "EXCEL_STYLE_ARIAL = Nested kts" "preset_part = map_of kts" by (rule preset_nested)
  obtain b where b: "style = Ref b" using st by (auto simp: kts(1) split: prod.splits)
  have read: "read_cell (Suc 3) h3 (Ref b) = Some (Nested kts)"
    using read_alloc(1) [OF st, of 4] preset_depth by (simp add: b kts(1) numeral_eq_Suc)
  obtain header where header: "item h3 (Ref b) ''column_header'' = Inr header"
    using item_found [OF read] preset_parts(1) kts(2) by auto
  obtain body' where body': "item h3 (Ref b) ''body'' = Inr body'"
    using item_found [OF read] preset_parts(2) kts(2) by auto
  show thesis
  proof (rule that)
    show "import_excel h = Inr (\<lparr>arial = ar, aptos = ap, column_header = header, body = body'\<rparr>, h3)"
      by (simp add: import_excel_def ar ap made header [folded b] body' [folded b])
    have "read_cell 4 (h3[a := d]) ar = Some EXCEL_STYLE_ARIAL \<and> read_cell 4 (h3[a := d]) ap = Some EXCEL_STYLE_APTOS"
      if "reaches h3 header a \<or> reaches h3 body' a" for a d
    proof -
      from that have "reaches h3 style a" using item_reaches header body' b by auto
      then have "length h2 \<le> a" using reaches_fresh g3 by blast
      then have "\<forall>x < length h2. h3[a := d] ! x = h2 ! x" using g3(1) by (auto simp: nth_append)
      then show ?thesis using read_agree(1) [OF read_ar [OF order_refl]] read_agree(1) [OF read_ap] g3(1) by simp
    qed
    then show "\<forall>a d. reaches h3 (column_header \<lparr>arial = ar, aptos = ap, column_header = header, body = body'\<rparr>) a
        \<or> reaches h3 (body \<lparr>arial = ar, aptos = ap, column_header = header, body = body'\<rparr>) a \<longrightarrow>
      read_cell 4 (h3[a := d]) (arial \<lparr>arial = ar, aptos = ap, column_header = header, body = body'\<rparr>) = Some EXCEL_STYLE_ARIAL
      \<and> read_cell 4 (h3[a := d]) (aptos \<lparr>arial = ar, aptos = ap, column_header = header, body = body'\<rparr>) = Some EXCEL_STYLE_APTOS"
      by simp
  qed (use item_reads [OF read] header body' kts(2) in simp_all)
qed

section \<open>Properties\<close>

text \<open>
  One pair of dictionaries styles every export of a process. Importing the module makes them, as a copy of
  the Arial preset; each of the package's export viewsets, with or without organization scope, synchronous
  or not, finds exactly these two along its order, so that a change made through one shows in all of them,
  and never in a preset.
\<close>

theorem export_styles_shared:
  assumes "framework known drf adrf ro aro" and "class_statements VIEW_CLASSES known = Some env"
  shows "\<exists>m h'. import_excel h = Inr (m, h')
    \<and> list_all (\<lambda>k. style_of (mixin_values m others) (the (env (Package k))) ''column_header'' = Some (column_header m)
        \<and> style_of (mixin_values m others) (the (env (Package k))) ''body'' = Some (body m))
      [ExcelExportViewSet, DocumentedExcelViewSet, ScopedExcelViewSet, AsyncExcelViewSet]
    \<and> read_cell 3 h' (column_header m) = preset_part ''column_header'' \<and> read_cell 3 h' (body m) = preset_part ''body''
    \<and> (\<forall>a d. reaches h' (column_header m) a \<or> reaches h' (body m) a \<longrightarrow>
        read_cell 4 (h'[a := d]) (arial m) = Some EXCEL_STYLE_ARIAL \<and> read_cell 4 (h'[a := d]) (aptos m) = Some EXCEL_STYLE_APTOS)"
proof -
  have env: "env = view_env known drf adrf ro aro" using assms(2) view_statements [OF assms(1)] by simp
  obtain m h' where m: "import_excel h = Inr (m, h')"
    "read_cell 3 h' (column_header m) = preset_part ''column_header''" "read_cell 3 h' (body m) = preset_part ''body''"
    "\<forall>a d. reaches h' (column_header m) a \<or> reaches h' (body m) a \<longrightarrow>
      read_cell 4 (h'[a := d]) (arial m) = Some EXCEL_STYLE_ARIAL \<and> read_cell 4 (h'[a := d]) (aptos m) = Some EXCEL_STYLE_APTOS"
    by (rule import_excel_ok [of h])
  have "list_all (\<lambda>k. style_of (mixin_values m others) (the (env (Package k))) ''column_header'' = Some (column_header m)
        \<and> style_of (mixin_values m others) (the (env (Package k))) ''body'' = Some (body m))
      [ExcelExportViewSet, DocumentedExcelViewSet, ScopedExcelViewSet, AsyncExcelViewSet]"
    by (simp add: env view_order_def style_of_def mixin_values_def)
  with m show ?thesis by blast
qed

lemma export_styles_shared_witness:
  "\<exists>m h'. import_excel [] = Inr (m, h') \<and> style_of (mixin_values m (\<lambda>c. [])) (the (sample_env (Package ScopedExcelViewSet))) ''body''
    = style_of (mixin_values m (\<lambda>c. [])) (the (sample_env (Package AsyncExcelViewSet))) ''body''"
  using export_styles_shared [OF sample_framework_ok view_statements [OF sample_framework_ok], of "[]" "\<lambda>c. []"] by auto

end
