(* ===== verification/Sent_Bodies.thy ===== *)
theory Sent_Bodies
  imports Asgi_Wrappers Registration Request_Timeout
begin

text \<open>
  The bodies the package writes by itself, read as their receivers read them: the error envelope of the
  request ceiling (\<open>asgi/timeout.py\<close>), the answer to a health probe (\<open>http/health.py\<close>) and the identity a
  service registers with (\<open>asgi/registration.py\<close>). Each writer is an instance of \<open>json.dumps\<close> with one of
  its two pairs of separators.
\<close>

section \<open>The three writers\<close>

lemma healthz_body_object: "HEALTHZ_BODY = json_object_text '', '' '': '' [(''status'', JStr ''ok'')]"
  by (simp add: HEALTHZ_BODY_def json_object_text_def member_text_def)

lemma payload_object: "payload_json payload = json_object_text '','' '':'' (map (map_prod id JStr) payload)"
  by (simp add: payload_json_def json_object_text_def member_text_def o_def case_prod_beta' map_prod_def)

lemma healthz_body_reads: "json_object HEALTHZ_BODY = Some [(''status'', JStr ''ok'')]"
  using json_object_reads [OF _ spaces(1,1), of "[(''status'', JStr ''ok'')]"]
  by (simp add: healthz_body_object dict_update_Nil dict_ok_def dict_keys_def)

lemma payload_reads: "dict_ok payload \<Longrightarrow> json_object (payload_json payload) = Some (map (map_prod id JStr) payload)"
  using json_object_reads [OF _ spaces(2,2), of "map (map_prod id JStr) payload"]
  by (simp add: payload_object dict_update_Nil dict_ok_def dict_keys_def o_def)

section \<open>What is registered\<close>

text \<open>The receiver finds the seven fields, each with the text its variable has, and none of them empty.\<close>

definition describes :: "environ \<Rightarrow> put_request \<Rightarrow> bool" where
  "describes env r \<longleftrightarrow>
    json_object (put_body r) = Some (map (\<lambda>(f, name). (f, JStr (env_text env name))) REGISTRATION_FIELDS)
    \<and> list_all (\<lambda>(f, name). env_text env name \<noteq> []) REGISTRATION_FIELDS"

lemma configured_describes:
  assumes "registration_payload env = Some cfg"
  shows "describes env (put_of cfg)"
proof -
  let ?payload = "map (\<lambda>(f, name). (f, env_text env name)) REGISTRATION_FIELDS"
  obtain url token where cfg: "cfg = (url, token, ?payload)"
    using assms by (auto simp: registration_payload_def split: if_splits)
  have "dict_ok REGISTRATION_FIELDS" by (simp add: REGISTRATION_FIELDS_def dict_ok_def dict_keys_def)
  then have "dict_ok ?payload" by (simp add: dict_ok_def dict_keys_def o_def case_prod_beta)
  moreover have "list_all (\<lambda>(f, name). env_text env name \<noteq> []) REGISTRATION_FIELDS"
    using assms by (auto simp: registration_payload_def missing_registration_def filter_empty_conv list_all_iff split: if_splits)
  ultimately show ?thesis
    by (simp add: describes_def cfg put_of_def payload_reads o_def case_prod_beta map_prod_def)
qed

lemma register_puts: "Put k r \<in> set (snd (register_loop cfg delays answers n)) \<Longrightarrow> r = put_of cfg"
proof (induction cfg delays answers n rule: register_loop.induct)
  case (1 cfg delays answers n)
  have round: "Put k r \<in> set (snd (register_round cfg delays answers n)) \<Longrightarrow> r = put_of cfg"
    by (auto simp: register_round_def Let_def split: option.splits sum.splits if_splits)
  show ?case
  proof (cases "length delays \<le> n")
    case True
    with "1.prems" show ?thesis by (subst (asm) register_loop.simps) simp
  next
    case False
    obtain stop es where es: "register_round cfg delays answers n = (stop, es)" by force
    with "1.prems" False "1.IH" [OF False es [symmetric]] round show ?thesis
      by (subst (asm) register_loop.simps) (auto split: option.splits prod.splits)
  qed
qed

lemma heartbeat_puts:
  "Put k r \<in> set (snd (heartbeat fuel stopped env answers n)) \<Longrightarrow>
    n \<le> k \<and> (\<exists>cfg. registration_payload (env k) = Some cfg \<and> r = put_of cfg)"
proof (induction fuel arbitrary: n)
  case (Suc fuel)
  obtain ended es where rest: "heartbeat fuel stopped env answers (Suc n) = (ended, es)" by force
  from Suc.IH [of "Suc n"] Suc.prems show ?case
    by (auto simp: rest split: if_splits option.splits sum.splits)
qed simp

section \<open>Properties\<close>

text \<open>
  C40. What leaves the process says what was meant, whatever characters the texts hold. An error reply of the
  ceiling announces its own length and reads back as its status and its message, a health answer as the
  status ok, and every registration or heartbeat as the seven fields with the texts the environment has at
  that moment.
\<close>

theorem sent_bodies_read_back:
  assumes "prints st"
  shows "(\<exists>hs b. error_messages dj st t c ra = (Request_Timeout.Response_Start st hs, Request_Timeout.Response_Body b)
      \<and> dict_get hs ''content-length'' = Some (nat_str (length b))
      \<and> json_object b = Some [(''status_code'', JInt st), (''messages'', JStr t)])
    \<and> json_object HEALTHZ_BODY = Some [(''status'', JStr ''ok'')]
    \<and> (Put k r \<in> set (snd (register env delays answers)) \<longrightarrow> describes env r)
    \<and> (Put k r \<in> set (snd (heartbeat fuel stopped envs answers j)) \<longrightarrow> j \<le> k \<and> describes (envs k) r)"
proof -
  have "\<exists>hs b. error_messages dj st t c ra = (Request_Timeout.Response_Start st hs, Request_Timeout.Response_Body b)
      \<and> dict_get hs ''content-length'' = Some (nat_str (length b))
      \<and> json_object b = Some [(''status_code'', JInt st), (''messages'', JStr t)]"
    by (simp add: error_messages_def Let_def dict_get_def error_body_reads [OF assms])
  moreover have "Put k r \<in> set (snd (register env delays answers)) \<Longrightarrow> describes env r"
    using configured_describes by (auto simp: register_def split: option.splits dest: register_puts)
  ultimately show ?thesis
    using healthz_body_reads heartbeat_puts [of k r] configured_describes [of "envs k"] by blast
qed

lemma sent_bodies_read_back_witness:
  "\<exists>hs b. error_messages unconfigured 504 TIMEOUT_MESSAGE
      \<lparr>scope_type = ''http'', scope_method = None, scope_path = ''/'', scope_headers = []\<rparr> None
    = (Request_Timeout.Response_Start 504 hs, Request_Timeout.Response_Body b)
    \<and> json_object b = Some [(''status_code'', JInt 504), (''messages'', JStr TIMEOUT_MESSAGE)]"
proof -
  have "prints 504" by (simp add: nat_str.simps max_str_digits_def)
  from sent_bodies_read_back [OF this, of unconfigured TIMEOUT_MESSAGE
      "\<lparr>scope_type = ''http'', scope_method = None, scope_path = ''/'', scope_headers = []\<rparr>" None] show ?thesis by blast
qed

end
