(* ===== verification/Tenant_Updates.thy ===== *)
theory Tenant_Updates
  imports Audited_Rows Tenancy
begin

text \<open>
  A PATCH or a POST of an audited row, from the middleware to the stored row: the actor bound for the request
  (\<open>ChangeHistoryActorMiddleware\<close> of \<open>django/change_history.py\<close>), the reason taken out of the body and bound
  around the save (\<open>ChangeHistorySerializerMixin\<close> of \<open>django/serializers.py\<close>), the organization pinned
  (\<open>TenantWriteScopeMixin\<close> of \<open>django/views.py\<close>) and the save through both model bases. What happens between
  the two mixins, DRF's own \<open>save\<close>, is an argument.
\<close>

section \<open>The write\<close>

text \<open>
  DRF's \<open>ModelSerializer.save\<close> merges its arguments over the validated data, assigns the result to the
  instance and saves that without naming columns; which attributes the assignment sets is its own.
\<close>

definition drf_update ::
    "(row \<Rightarrow> tracked \<Rightarrow> tracked) \<Rightarrow> (tracked, stored) saver \<Rightarrow> row \<Rightarrow> save_kwargs \<Rightarrow> tracked \<Rightarrow> stored
      \<Rightarrow> tracked \<times> stored \<times> exc option" where
  "drf_update assign save data kwargs i db = save None (assign (dict_update data (map (map_prod id VInt) kwargs)) i) db"

text \<open>
  A hook of the view on a serializer of the mixin; \<open>save\<close> reads the actor that is bound. An update hands
  the serializer the row it is about, a create a fresh instance with the defaults of its columns.
\<close>

definition audited_write ::
    "(serializer \<Rightarrow> save_kwargs res) \<Rightarrow> row option \<Rightarrow> model \<Rightarrow> nat \<Rightarrow> (row \<Rightarrow> tracked \<Rightarrow> tracked)
      \<Rightarrow> (change_actor \<Rightarrow> (tracked, stored) saver) \<Rightarrow> row \<Rightarrow> tracked \<Rightarrow> stored \<Rightarrow> change_actor option
      \<Rightarrow> (tracked \<times> stored \<times> exc option) \<times> change_actor option" where
  "audited_write hook before m context assign save body i db var =
    (let (reason, data) = history_validate body in
     case hook \<lparr>ser_model = Some m, validated = [data], ser_instance = before\<rparr> of
       Inl e \<Rightarrow> ((i, db, Some e), var)
     | Inr kwargs \<Rightarrow>
         history_serializer_save context reason (\<lambda>var. (drf_update assign (save (get_actor var)) data kwargs i db, var)) var)"

definition audited_update where
  "audited_update v m context assign save body i = audited_write (perform_update v) (Some (attrs i)) m context assign save body i"

definition audited_create where
  "audited_create v m context assign save body fresh = audited_write (perform_create v) None m context assign save body fresh"

text \<open>
  The request: the middleware binds nobody and resets; the view binds the caller once it is known, and
  leaves it bound.
\<close>

definition audited_request where
  "audited_request context actor update =
    actor_middleware context None (\<lambda>var. update (snd (set_actor context (Some actor) var)))"

section \<open>What Django and DRF promise\<close>

definition assigns :: "(row \<Rightarrow> tracked \<Rightarrow> tracked) \<Rightarrow> bool" where
  "assigns assign \<longleftrightarrow>
    (\<forall>data i. adding (assign data i) = adding i \<and> change_history (assign data i) = change_history i
      \<and> snapshot_values (assign data i) = snapshot_values i
      \<and> (\<forall>col. get_val (attrs (assign data i)) col = (case dict_get data col of None \<Rightarrow> get_val (attrs i) col | Some x \<Rightarrow> x)))"

text \<open>A save of all columns raises, or writes the row as it is, stamped, with its trail.\<close>

definition writes_all :: "pyval \<Rightarrow> super_save \<Rightarrow> bool" where
  "writes_all stamp super_save \<longleftrightarrow>
    (\<forall>i db db'. super_save None i db = (db', None) \<longrightarrow>
      (\<forall>col. get_val (stored_attrs db') col = (if col = ''updated_on'' then stamp else get_val (attrs i) col))
      \<and> stored_history db' = change_history i)"

section \<open>Lemmas\<close>

text \<open>What the row has after the assignment: the caller's organization, the body, the row before.\<close>

definition patched :: "string \<Rightarrow> int \<Rightarrow> row \<Rightarrow> row \<Rightarrow> string \<Rightarrow> pyval" where
  "patched scope organization body before col =
    (if col = scope then VInt organization
     else if col = REASON_FIELD then get_val before col
     else case dict_get body col of None \<Rightarrow> get_val before col | Some x \<Rightarrow> x)"

lemma assigned:
  assumes "assigns assign"
  shows "get_val (attrs (assign (dict_update (dict_pop REASON_FIELD body) [(scope, VInt organization)]) i)) col
    = patched scope organization body (attrs i) col"
proof -
  have "dict_get (dict_update (dict_pop REASON_FIELD body) [(scope, VInt organization)]) col =
      (if col = scope then Some (VInt organization) else if col = REASON_FIELD then None else dict_get body col)"
    by (simp add: dict_update_def dict_simps)
  with assms show ?thesis by (simp add: assigns_def patched_def)
qed

definition stated :: "change_actor \<Rightarrow> pyval \<Rightarrow> change_actor" where
  "stated actor reason = (if truthy reason then actor\<lparr>actor_reason := normalize_reason reason\<rparr> else actor)"

lemma reason_bound:
  "fst (history_serializer_save context reason (\<lambda>var. (f (get_actor var), var)) (Some actor)) = f (stated actor reason)"
  by (simp add: history_serializer_save_def reason_context_def bound_to_def set_actor_def get_actor_def stated_def)

lemma request_leaves_var: "snd (audited_request context actor update var) = var"
  by (simp add: audited_request_def actor_middleware_def bound_to_def set_actor_def reset_actor_def split: prod.split)

lemma moved_cong:
  assumes "\<And>name. name \<in> set (history_fields c) \<Longrightarrow> get_val r (history_attname c name) = get_val r' (history_attname c name)"
  shows "has_moved c uf snap r = has_moved c uf snap r'" and "records_moved c uf snap r a = records_moved c uf snap r' a"
proof -
  show moved: "has_moved c uf snap r = has_moved c uf snap r'"
    using assms by (auto simp: has_moved_def fun_eq_iff)
  have "has_moved c uf snap r' name \<and> old = get_val snap name \<and> new = json_safe (get_val r (history_attname c name))
      \<longleftrightarrow> has_moved c uf snap r' name \<and> old = get_val snap name \<and> new = json_safe (get_val r' (history_attname c name))" for name old new
    using assms by (auto simp: has_moved_def)
  then show "records_moved c uf snap r a = records_moved c uf snap r' a"
    by (simp add: fun_eq_iff records_moved_def moved)
qed

text \<open>
  The trail stored with a row: one entry more exactly when a whitelisted field of the row now stored differs
  from the snapshot, by the actor and with each such field.
\<close>

definition trail_extended :: "history_class \<Rightarrow> row \<Rightarrow> history_entry list \<Rightarrow> change_actor \<Rightarrow> stored \<Rightarrow> bool" where
  "trail_extended c snap trail a db \<longleftrightarrow>
    (if \<exists>name. has_moved c None snap (stored_attrs db) name
     then \<exists>dropped older entry. stored_history db = older @ [entry] \<and> trail = dropped @ older
       \<and> int (length (stored_history db)) \<le> history_max_entries c
       \<and> records_moved c None snap (stored_attrs db) a entry
     else stored_history db = trail)"

text \<open>A successful save of a loaded row through both bases, all columns written.\<close>

lemma audited_save_stores:
  assumes "audited_save as_list c a now super_save None i db = (i', db', None)" and "writes_all stamp super_save"
    and "\<not> adding i" and "snapshot_values i = Some snap" and "history_fields c \<noteq> []"
  defines "chs \<equiv> diff_changes c None snap i"
  shows "get_val (stored_attrs db') col = (if col = ''updated_on'' then stamp else get_val (attrs i) col)"
    and "stored_history db' = (if chs = [] then change_history i
      else keep_last (history_max_entries c) (change_history i @ [mk_entry a now (action_for chs) chs]))"
proof -
  have save: "history_save c a now super_save None i db = (i', db', None)"
    using assms(1) by (cases "history_save c a now super_save None i db") (simp add: audited_save_def base_save_def ensure_updated_on_def)
  have trail: "change_history i' = (if chs = [] then change_history i
      else keep_last (history_max_entries c) (change_history i @ [mk_entry a now (action_for chs) chs]))"
    unfolding chs_def by (rule history_save_loaded(3) [OF save assms(3-5)])
  obtain i1 where written: "super_save None i1 db = (db', None)" "attrs i1 = attrs i" "change_history i1 = change_history i'"
  proof -
    have sync: "change_history (sync_history_snapshot c uf j) = change_history j" for uf j by simp
    from save that show thesis
      by (auto simp: history_save_def Let_def sync split: option.splits prod.splits)
  qed
  show "get_val (stored_attrs db') col = (if col = ''updated_on'' then stamp else get_val (attrs i) col)"
    using assms(2) [unfolded writes_all_def] written(1,2) by auto
  have "stored_history db' = change_history i'" using assms(2) [unfolded writes_all_def] written(1,3) by auto
  then show "stored_history db' = (if chs = [] then change_history i
      else keep_last (history_max_entries c) (change_history i @ [mk_entry a now (action_for chs) chs]))"
    by (simp only: trail)
qed

lemma audited_save_writes:
  assumes "audited_save as_list c a now super_save None i db = (i', db', None)" and "writes_all stamp super_save"
    and "\<not> adding i" and "snapshot_values i = Some snap" and "history_fields c \<noteq> []" and "0 < history_max_entries c"
    and "\<forall>name \<in> set (history_fields c). history_attname c name \<noteq> ''updated_on''"
  shows "get_val (stored_attrs db') col = (if col = ''updated_on'' then stamp else get_val (attrs i) col)"
    and "trail_extended c snap (change_history i) a db'"
proof -
  let ?chs = "diff_changes c None snap i"
  note stored = audited_save_stores [OF assms(1-5)]
  show "get_val (stored_attrs db') col = (if col = ''updated_on'' then stamp else get_val (attrs i) col)" by (rule stored(1))
  have same: "has_moved c None snap (stored_attrs db') = has_moved c None snap (attrs i)"
    "records_moved c None snap (stored_attrs db') a = records_moved c None snap (attrs i) a"
    by (rule moved_cong, use assms(7) in \<open>simp add: stored(1)\<close>)+
  show "trail_extended c snap (change_history i) a db'"
    using diff_recorded [OF assms(6), of None snap i "change_history i" a now "action_for ?chs"] stored(2)
    by (auto simp: trail_extended_def same split: if_splits)
qed

section \<open>Properties\<close>

text \<open>A view that pins, serving a tenant, on a model with the scope column.\<close>

definition pins :: "write_scope \<Rightarrow> model \<Rightarrow> int \<Rightarrow> bool" where
  "pins v m organization \<longleftrightarrow>
    (case bound_request v of None \<Rightarrow> False | Some r \<Rightarrow> tenant_organization_id r = Inr (Some organization))
    \<and> tenant_write_scope v \<noteq> Scope_Off
    \<and> (case action v of None \<Rightarrow> True | Some a \<Rightarrow> a \<notin> set (tenant_write_exempt_actions v))
    \<and> probe_model_field m (tenant_write_scope_field v)"

text \<open>Whether the rejecting mode refuses a body, and the row it is about.\<close>

definition refuses :: "write_scope \<Rightarrow> int \<Rightarrow> row list \<Rightarrow> bool" where
  "refuses v organization rows \<longleftrightarrow> tenant_write_scope v = Scope_Pin_And_Reject
    \<and> list_ex (\<lambda>row. foreign_owner (get_val row (tenant_write_scope_field v)) organization) rows"

definition hook_pins :: "(serializer \<Rightarrow> save_kwargs res) \<Rightarrow> serializer \<Rightarrow> bool \<Rightarrow> string \<Rightarrow> int \<Rightarrow> bool" where
  "hook_pins hook s refused scope organization \<longleftrightarrow>
    (if refused then \<exists>text'. hook s = Inl (Permission_Denied text') else hook s = Inr [(scope, organization)])"

lemma pins_hooks:
  assumes "pins v m organization"
  defines "scope \<equiv> tenant_write_scope_field v"
  shows "hook_pins (perform_update v) \<lparr>ser_model = Some m, validated = [data], ser_instance = Some before\<rparr>
      (refuses v organization [data, before]) scope organization"
    and "hook_pins (perform_create v) \<lparr>ser_model = Some m, validated = [data], ser_instance = None\<rparr>
      (refuses v organization [data]) scope organization"
proof -
  have "view_organization_id v = Inr (Some organization)"
    using assms by (auto simp: pins_def view_organization_id_Some split: option.splits)
  then have kwargs: "tenant_save_kwargs v \<lparr>ser_model = Some m, validated = [data], ser_instance = inst\<rparr> = Inr [(scope, organization)]" for inst
    unfolding scope_def using assms by (intro tenant_save_kwargs_pinned [where m = m]) (simp_all add: pins_def)
  show "hook_pins (perform_update v) \<lparr>ser_model = Some m, validated = [data], ser_instance = Some before\<rparr>
      (refuses v organization [data, before]) scope organization"
    by (simp add: hook_pins_def kwargs perform_update_def reject_foreign_body_def reject_foreign_instance_def refuses_def)
  show "hook_pins (perform_create v) \<lparr>ser_model = Some m, validated = [data], ser_instance = None\<rparr>
      (refuses v organization [data]) scope organization"
    by (simp add: hook_pins_def kwargs perform_create_def reject_foreign_body_def refuses_def)
qed

text \<open>A request is refused and writes nothing, or it saves the merged body under the actor with the reason.\<close>

lemma audited_request_cases:
  assumes "audited_request context actor (audited_write hook before m context assign save body i db) var = ((i', db', error), var')"
    and "hook_pins hook \<lparr>ser_model = Some m, validated = [dict_pop REASON_FIELD body], ser_instance = before\<rparr> refused scope organization"
  shows "var' = var" and "refused \<Longrightarrow> (\<exists>text'. error = Some (Permission_Denied text')) \<and> i' = i \<and> db' = db"
    and "\<not> refused \<Longrightarrow> save (stated actor (fst (history_validate body))) None
      (assign (dict_update (dict_pop REASON_FIELD body) [(scope, VInt organization)]) i) db = (i', db', error)"
proof -
  let ?reason = "fst (history_validate body)"
  have data: "history_validate body = (?reason, dict_pop REASON_FIELD body)" by (simp add: history_validate_def)
  have got: "fst (audited_write hook before m context assign save body i db (Some actor)) = (i', db', error)"
    using assms(1) by (auto simp: audited_request_def actor_middleware_def bound_to_def set_actor_def split: prod.splits)
  show "var' = var" using request_leaves_var [of "context" actor _ var] assms(1) by (metis snd_conv)
  show "(\<exists>text'. error = Some (Permission_Denied text')) \<and> i' = i \<and> db' = db" if refused
    using got assms(2) that by (subst (asm) audited_write_def, subst (asm) data) (auto simp: hook_pins_def)
  show "save (stated actor ?reason) None (assign (dict_update (dict_pop REASON_FIELD body) [(scope, VInt organization)]) i) db
      = (i', db', error)" if "\<not> refused"
    using got assms(2) that
      reason_bound [of "context" ?reason "\<lambda>a. drf_update assign (save a) (dict_pop REASON_FIELD body) [(scope, organization)] i db"]
    by (subst (asm) audited_write_def, subst (asm) data) (simp add: hook_pins_def drf_update_def)
qed

text \<open>
  C11. A tenant's PATCH of an audited row, from end to end. In the rejecting mode a body or a row of another
  organization raises a permission error and nothing is written. Otherwise, when the save succeeds, the row
  stored belongs to the caller's organization whatever the body said, has what the body says elsewhere and
  is as it was in the rest; the trail stored has one entry more exactly when a whitelisted field moved,
  which names the caller, the reason the body stated, and each field that moved with the value now stored.
  The actor bound for the request is gone after it, whatever happened.
\<close>

theorem tenant_update_recorded:
  assumes "pins v m organization" and "assigns assign" and "writes_all stamp super_save"
    and "\<not> adding i" and "snapshot_values i = Some snap" and "history_fields c \<noteq> []" and "0 < history_max_entries c"
    and "\<forall>name \<in> set (history_fields c). history_attname c name \<noteq> ''updated_on''"
    and run: "audited_request context actor
      (audited_update v m context assign (\<lambda>a. audited_save as_list c a now super_save) body i db) var = ((i', db', error), var')"
  defines "scope \<equiv> tenant_write_scope_field v" and "reason \<equiv> fst (history_validate body)"
  shows "var' = var \<and>
    (if refuses v organization [dict_pop REASON_FIELD body, attrs i]
     then (\<exists>text'. error = Some (Permission_Denied text')) \<and> i' = i \<and> db' = db
     else error = None \<longrightarrow>
      (\<forall>col. col \<noteq> ''updated_on'' \<longrightarrow> get_val (stored_attrs db') col = patched scope organization body (attrs i) col)
      \<and> trail_extended c snap (change_history i) (stated actor reason) db')"
proof -
  let ?assigned = "assign (dict_update (dict_pop REASON_FIELD body) [(scope, VInt organization)]) i"
  note cases = audited_request_cases [OF run [unfolded audited_update_def] pins_hooks(1) [OF assms(1)], folded scope_def reason_def]
  have kept: "\<not> adding ?assigned" "snapshot_values ?assigned = Some snap" "change_history ?assigned = change_history i"
    using assms(2,4,5) by (simp_all add: assigns_def)
  have "(\<forall>col. col \<noteq> ''updated_on'' \<longrightarrow> get_val (stored_attrs db') col = patched scope organization body (attrs i) col)
      \<and> trail_extended c snap (change_history i) (stated actor reason) db'"
    if "\<not> refuses v organization [dict_pop REASON_FIELD body, attrs i]" "error = None"
    using audited_save_writes [OF cases(3) [OF that(1), unfolded that(2)] assms(3) kept(1,2) assms(6-8)] assigned [OF assms(2)] kept(3)
    by simp
  with cases(1,2) show ?thesis by simp
qed

text \<open>A PATCH of the status with a reason, by the user of the tenant request, on a save that never fails.\<close>

definition sample_assign :: "row \<Rightarrow> tracked \<Rightarrow> tracked" where
  "sample_assign data i = i\<lparr>attrs := dict_update (attrs i) (rev data)\<rparr>"

definition stamping_save :: "pyval \<Rightarrow> super_save" where
  "stamping_save stamp update_fields i db =
    (\<lparr>stored_attrs = dict_set ''updated_on'' stamp (attrs i), stored_history = change_history i\<rparr>, None)"

lemma sample_promises: "assigns sample_assign" "writes_all stamp (stamping_save stamp)"
proof -
  have "dict_get (dict_update d (rev data)) col = (case dict_get data col of None \<Rightarrow> dict_get d col | Some x \<Rightarrow> Some x)"
    for d data :: row and col
    by (simp add: dict_get_update) (simp add: dict_get_def split: option.split)
  then show "assigns sample_assign"
    by (simp add: assigns_def sample_assign_def get_val_def split: option.split)
  show "writes_all stamp (stamping_save stamp)"
    by (auto simp: writes_all_def stamping_save_def get_val_set)
qed

lemma sample_pins: "pins (pinning_view Scope_Pin) [''id'', ''organization''] 7"
  using tenant_request_organization organization_column by (simp add: pins_def)

lemma stamping_succeeds: "snd (snd (audited_save as_list c a now (stamping_save stamp) None i db)) = None"
  by (simp add: audited_save_def base_save_def ensure_updated_on_def history_save_def Let_def stamping_save_def
      split: option.splits)

abbreviation sample_patch :: "(tracked \<times> stored \<times> exc option) \<times> change_actor option" where
  "sample_patch \<equiv> audited_request 0 system_actor
    (audited_update (pinning_view Scope_Pin) [''id'', ''organization''] 0 sample_assign
      (\<lambda>a. audited_save (\<lambda>fs. []) sample_class a ''now'' (stamping_save (VStr ''now'')))
      [(''status'', VInt 3), (''change_reason'', VStr ''moved'')] sample_tracked sample_stored) None"

lemma sample_patch_succeeds: "snd (snd (fst sample_patch)) = None"
  using pins_hooks(1) [OF sample_pins, of "dict_pop REASON_FIELD [(''status'', VInt 3), (''change_reason'', VStr ''moved'')]"
      "attrs sample_tracked"]
  by (simp add: audited_request_def actor_middleware_def bound_to_def set_actor_def audited_update_def audited_write_def
      hook_pins_def refuses_def history_validate_def history_serializer_save_def reason_context_def drf_update_def stamping_succeeds split: prod.splits)

lemma tenant_update_recorded_witness:
  "\<exists>i db. fst sample_patch = (i, db, None) \<and> get_val (stored_attrs db) ''organization_id'' = VInt 7
    \<and> get_val (stored_attrs db) ''status'' = VInt 3"
proof -
  obtain i db var where run: "sample_patch = ((i, db, None), var)"
    using sample_patch_succeeds by (metis prod.collapse)
  from tenant_update_recorded [OF sample_pins sample_promises _ _ _ _ _ run]
  have "\<forall>col. col \<noteq> ''updated_on'' \<longrightarrow> get_val (stored_attrs db) col
      = patched ''organization_id'' 7 [(''status'', VInt 3), (''change_reason'', VStr ''moved'')] (attrs sample_tracked) col"
    by (simp add: refuses_def)
  with run show ?thesis by (simp add: patched_def REASON_FIELD_def)
qed

text \<open>
  A tenant's POST of an audited row likewise: refused, or stored with the caller's organization, the body
  and the defaults elsewhere, and a trail of one entry, \<open>created\<close>, by the caller with the stated reason,
  which has each whitelisted field that is not blank, with the value now stored.
\<close>

definition records_created :: "history_class \<Rightarrow> change_actor \<Rightarrow> stored \<Rightarrow> bool" where
  "records_created c a db \<longleftrightarrow>
    (\<exists>entry. stored_history db = [entry] \<and> entry_action entry = ''created''
      \<and> entry_source entry = actor_source a \<and> entry_by entry = user_id a \<and> entry_reason entry = actor_reason a
      \<and> (\<forall>name old new. (\<exists>ch \<in> set (entry_changes entry). change_field ch = name \<and> change_old ch = old \<and> change_new ch = new)
          \<longleftrightarrow> name \<in> set (history_fields c) \<and> old = VNone
            \<and> new = json_safe (get_val (stored_attrs db) (history_attname c name)) \<and> \<not> blank new))"

lemma created_change:
  "(\<exists>ch \<in> set (created_changes c i). change_field ch = name \<and> change_old ch = old \<and> change_new ch = new)
    \<longleftrightarrow> name \<in> set (history_fields c) \<and> old = VNone \<and> new = json_safe (get_val (attrs i) (history_attname c name)) \<and> \<not> blank new"
  by (auto simp: created_changes_def mk_change_def history_values_def)

lemma audited_save_creates:
  assumes "audited_save as_list c a now super_save None i db = (i', db', None)" and "writes_all stamp super_save"
    and "adding i" and "change_history i = []" and "history_fields c \<noteq> []" and "0 < history_max_entries c"
    and "\<forall>name \<in> set (history_fields c). history_attname c name \<noteq> ''updated_on''"
  shows "get_val (stored_attrs db') col = (if col = ''updated_on'' then stamp else get_val (attrs i) col)"
    and "records_created c a db'"
proof -
  let ?entry = "mk_entry a now ''created'' (created_changes c i)"
  have save: "history_save c a now super_save None i db = (i', db', None)"
    using assms(1) by (cases "history_save c a now super_save None i db") (simp add: audited_save_def base_save_def ensure_updated_on_def)
  have one: "keep_last (history_max_entries c) [?entry] = [?entry]" using keep_last_short [OF assms(6), of "[?entry]"] assms(6) by simp
  have "super_save None (i\<lparr>change_history := [?entry]\<rparr>) db = (db', None)"
    using save assms(3-5) one
    by (auto simp: history_save_def build_history_entry_def Let_def split: prod.splits option.splits)
  with assms(2) [unfolded writes_all_def] have
    all: "\<forall>col. get_val (stored_attrs db') col = (if col = ''updated_on'' then stamp else get_val (attrs i) col)"
    and trail: "stored_history db' = [?entry]" by fastforce+
  show "get_val (stored_attrs db') col = (if col = ''updated_on'' then stamp else get_val (attrs i) col)" using all by blast
  have "json_safe (get_val (stored_attrs db') (history_attname c name)) = json_safe (get_val (attrs i) (history_attname c name))"
    if "name \<in> set (history_fields c)" for name using all assms(7) that by simp
  then show "records_created c a db'"
    unfolding records_created_def by (intro exI [of _ ?entry]) (auto simp: trail mk_entry_def created_change)
qed

theorem tenant_create_recorded:
  assumes "pins v m organization" and "assigns assign" and "writes_all stamp super_save"
    and "adding fresh" and "change_history fresh = []" and "history_fields c \<noteq> []" and "0 < history_max_entries c"
    and "\<forall>name \<in> set (history_fields c). history_attname c name \<noteq> ''updated_on''"
    and run: "audited_request context actor
      (audited_create v m context assign (\<lambda>a. audited_save as_list c a now super_save) body fresh db) var = ((i', db', error), var')"
  defines "scope \<equiv> tenant_write_scope_field v" and "reason \<equiv> fst (history_validate body)"
  shows "var' = var \<and>
    (if refuses v organization [dict_pop REASON_FIELD body]
     then (\<exists>text'. error = Some (Permission_Denied text')) \<and> i' = fresh \<and> db' = db
     else error = None \<longrightarrow>
      (\<forall>col. col \<noteq> ''updated_on'' \<longrightarrow> get_val (stored_attrs db') col = patched scope organization body (attrs fresh) col)
      \<and> records_created c (stated actor reason) db')"
proof -
  let ?assigned = "assign (dict_update (dict_pop REASON_FIELD body) [(scope, VInt organization)]) fresh"
  note cases = audited_request_cases [OF run [unfolded audited_create_def] pins_hooks(2) [OF assms(1)], folded scope_def reason_def]
  have kept: "adding ?assigned" "change_history ?assigned = []" using assms(2,4,5) by (simp_all add: assigns_def)
  have "(\<forall>col. col \<noteq> ''updated_on'' \<longrightarrow> get_val (stored_attrs db') col = patched scope organization body (attrs fresh) col)
      \<and> records_created c (stated actor reason) db'"
    if "\<not> refuses v organization [dict_pop REASON_FIELD body]" "error = None"
    using audited_save_creates [OF cases(3) [OF that(1), unfolded that(2)] assms(3) kept assms(6-8)] assigned [OF assms(2)]
    by simp
  with cases(1,2) show ?thesis by simp
qed

end
