(* ===== verification/Retired_Rows.thy ===== *)
theory Retired_Rows
  imports Tenant_Updates
begin

text \<open>
  The life of an audited row after its retirement: the soft delete of \<open>BaseModel\<close> (\<open>netix_backend/django/models.py\<close>)
  through \<open>ChangeHistoryModel\<close> (\<open>change_history.py\<close>), and the tenant's PATCH that restores it, which reaches a
  retired row by \<open>?include_deleted\<close> (\<open>views.py\<close>), loads it afresh and saves it whole.
\<close>

section \<open>The row as a request loads it\<close>

text \<open>
  Django fills an instance from the stored columns, the trail among them, and hands it to \<open>from_db\<close> of the mixin
  with the names of the columns it loaded.
\<close>

definition loaded_row :: "history_class \<Rightarrow> string list \<Rightarrow> stored \<Rightarrow> tracked" where
  "loaded_row c field_names db =
    from_db c field_names \<lparr>adding = False, attrs = stored_attrs db, change_history = stored_history db, snapshot_values = None\<rparr>"

definition loads_all :: "history_class \<Rightarrow> string list \<Rightarrow> bool" where
  "loads_all c field_names \<longleftrightarrow> list_all (\<lambda>name. history_attname c name \<in> set field_names) (history_fields c)"

section \<open>Lemmas\<close>

lemma loaded_row_simps [simp]:
  "adding (loaded_row c field_names db) = False" "attrs (loaded_row c field_names db) = stored_attrs db"
  "change_history (loaded_row c field_names db) = stored_history db"
  by (simp_all add: loaded_row_def from_db_def)

lemma loaded_snapshot:
  assumes "loads_all c field_names"
  shows "\<exists>snap. snapshot_values (loaded_row c field_names db) = Some snap \<and>
    (\<forall>name. dict_get snap name =
      (if name \<in> set (history_fields c) then Some (json_safe (get_val (stored_attrs db) (history_attname c name))) else None))"
  using assms by (auto simp: loaded_row_def from_db_def dict_get_history_values loads_all_def list_all_iff)

text \<open>Clearing the flag of a row that is otherwise as it was loaded is the one change a full save has to record.\<close>

lemma restored_diff:
  assumes flag: "flag_recorded c"
    and snap: "\<And>name. name \<in> set (history_fields c) \<Longrightarrow>
      dict_get snap name = Some (json_safe (get_val r (history_attname c name)))"
    and was: "get_val r ''is_deleted'' = VBool True" and now: "get_val (attrs i) ''is_deleted'' = VBool False"
    and same: "\<And>col. col \<noteq> ''is_deleted'' \<Longrightarrow> get_val (attrs i) col = get_val r col"
    and free: "\<forall>name \<in> set (history_fields c). nan_free (json_safe (get_val r (history_attname c name)))"
  shows "diff_changes c None snap i = [mk_change c ''is_deleted'' (VBool True) (VBool False)]"
proof (rule singleton_list [OF distinct_diff], intro set_eqI iffI)
  have recorded: "''is_deleted'' \<in> set (history_fields c)" "history_attname c ''is_deleted'' = ''is_deleted''"
    using flag unfolding flag_recorded_def by blast+
  fix ch
  {
    assume "ch \<in> set (diff_changes c None snap i)"
    then obtain name where n: "name \<in> set (history_fields c)"
      "ch = mk_change c name (get_val snap name) (json_safe (get_val (attrs i) (history_attname c name)))"
      "\<not> py_eq (get_val snap name) (json_safe (get_val (attrs i) (history_attname c name)))"
      unfolding set_diff_changes by (auto simp: dict_get_history_values split: if_splits)
    have "name = ''is_deleted''"
    proof (rule ccontr)
      assume other: "name \<noteq> ''is_deleted''"
      then have "history_attname c name \<noteq> ''is_deleted''" using flag_recorded_other [OF flag n(1)] by blast
      then have "get_val (attrs i) (history_attname c name) = get_val r (history_attname c name)" by (rule same)
      with n(3) snap [OF n(1)] py_eq_refl [OF bspec [OF free n(1)]] show False by (simp add: get_val_def [of snap])
    qed
    with n snap [OF n(1)] recorded was now show "ch \<in> {mk_change c ''is_deleted'' (VBool True) (VBool False)}"
      by (simp add: get_val_def [of snap])
  next
    assume "ch \<in> {mk_change c ''is_deleted'' (VBool True) (VBool False)}"
    moreover have "dict_get (history_values c None i) ''is_deleted'' = Some (VBool False)"
      using recorded now by (simp add: dict_get_history_values)
    moreover have "dict_get snap ''is_deleted'' = Some (VBool True)" using snap [OF recorded(1)] recorded was by simp
    moreover have "written_field c None ''is_deleted''" by (simp add: written_field_def)
    moreover have "\<not> py_eq (VBool True) (VBool False)" by (simp add: number_of_def)
    ultimately show "ch \<in> set (diff_changes c None snap i)"
      unfolding set_diff_changes mem_Collect_eq singleton_iff
      by (intro exI [of _ "''is_deleted''"] exI [of _ "VBool False"]) (simp add: get_val_def [of snap])
  }
qed

text \<open>The restoring save: the flag cleared in the stored row, and one entry.\<close>

lemma restore_stores:
  assumes "audited_save as_list c a now super_save None (assign [(''is_deleted'', VBool False), (scope, VInt organization)] (loaded_row c field_names db)) db
      = (i', db', None)"
    and "assigns assign" and "writes_all stamp super_save" and "flag_recorded c" and "loads_all c field_names"
    and "get_val (stored_attrs db) ''is_deleted'' = VBool True" and "get_val (stored_attrs db) scope = VInt organization"
    and "scope \<noteq> ''is_deleted''"
    and "\<forall>name \<in> set (history_fields c). nan_free (json_safe (get_val (stored_attrs db) (history_attname c name)))"
  shows "get_val (stored_attrs db') col =
      (if col = ''updated_on'' then stamp else if col = ''is_deleted'' then VBool False else get_val (stored_attrs db) col)"
    and "stored_history db' = keep_last (history_max_entries c) (stored_history db @ [flag_entry c a now False])"
proof -
  let ?i = "assign [(''is_deleted'', VBool False), (scope, VInt organization)] (loaded_row c field_names db)"
  have attrs: "get_val (attrs ?i) col = (if col = ''is_deleted'' then VBool False else get_val (stored_attrs db) col)" for col
    using assms(2,7,8) by (auto simp: assigns_def dict_simps)
  have kept: "\<not> adding ?i" "change_history ?i = stored_history db"
    "snapshot_values ?i = snapshot_values (loaded_row c field_names db)"
    using assms(2) by (simp_all add: assigns_def)
  obtain snap where loaded: "snapshot_values (loaded_row c field_names db) = Some snap"
    "\<forall>name. dict_get snap name = (if name \<in> set (history_fields c)
      then Some (json_safe (get_val (stored_attrs db) (history_attname c name))) else None)"
    using loaded_snapshot [OF assms(5), of db] by blast
  then have snap: "snapshot_values ?i = Some snap"
    "\<And>name. name \<in> set (history_fields c) \<Longrightarrow> dict_get snap name = Some (json_safe (get_val (stored_attrs db) (history_attname c name)))"
    by (simp_all only: kept(3) if_True)
  have "''is_deleted'' \<in> set (history_fields c)" using assms(4) unfolding flag_recorded_def by blast
  then have fields: "history_fields c \<noteq> []" by (cases "history_fields c") simp_all
  have diff: "diff_changes c None snap ?i = [mk_change c ''is_deleted'' (VBool True) (VBool False)]"
    by (rule restored_diff [OF assms(4) snap(2) assms(6) _ _ assms(9)]) (simp_all add: attrs)
  note stored = audited_save_stores [OF assms(1,3) kept(1) snap(1) fields, unfolded diff kept(2)]
  show "get_val (stored_attrs db') col =
      (if col = ''updated_on'' then stamp else if col = ''is_deleted'' then VBool False else get_val (stored_attrs db) col)"
    by (simp add: stored(1) attrs)
  show "stored_history db' = keep_last (history_max_entries c) (stored_history db @ [flag_entry c a now False])"
    using stored(2) by (simp add: flag_entry_def mk_change_def)
qed

section \<open>Properties\<close>

text \<open>
  C12. Retiring an audited row and restoring it leaves a trail of exactly that. On a class that whitelists the
  flag, a soft delete that goes through stores the flag, the stamp and one \<open>deleted\<close> entry by its actor with
  the one change of the flag, and no other column: a change to another whitelisted field made in memory is
  neither written nor recorded and stays pending. A tenant's PATCH of \<open>is_deleted\<close> back to false, of its own row
  loaded afresh, which saves the whole row, then stores the flag cleared, its own stamp and one \<open>restored\<close>
  entry after it, by the caller with the stated reason, with every other column as before the retirement. The
  trail keeps its last entries up to the cap of the class.
\<close>

theorem retire_and_restore_recorded:
  assumes "lists_set as_list" and "writes_columns stamp super_save" and "flag_recorded c"
    and "\<not> adding i" and "snapshot_values i = Some snap" and "dict_get snap ''is_deleted'' = Some (VBool False)"
    and retired: "audited_soft_delete validate (audited_save as_list c a now super_save) i db = (i1, db1, None)"
    and "assigns assign" and "writes_all stamp' super_save'" and "loads_all c field_names"
    and "pins v m organization" and "scope = tenant_write_scope_field v" and "get_val (stored_attrs db) scope = VInt organization"
    and "scope \<notin> {''is_deleted'', ''updated_on'', ''change_history'', REASON_FIELD}"
    and "dict_pop REASON_FIELD body = [(''is_deleted'', VBool False)]"
    and "\<forall>name \<in> set (history_fields c). nan_free (json_safe (get_val (stored_attrs db1) (history_attname c name)))"
    and restored: "audited_request context actor (audited_update v m context assign
        (\<lambda>a. audited_save as_list c a later super_save') body (loaded_row c field_names db1) db1) var = ((i2, db2, None), var')"
  shows "(let retire = flag_entry c a now True; restore = flag_entry c (stated actor (fst (history_validate body))) later False
     in stored_history db1 = keep_last (history_max_entries c) (change_history i @ [retire])
      \<and> stored_history db2 = keep_last (history_max_entries c) (stored_history db1 @ [restore]))
    \<and> get_val (stored_attrs db1) ''is_deleted'' = VBool True \<and> get_val (stored_attrs db1) ''updated_on'' = stamp
    \<and> get_val (stored_attrs db2) ''is_deleted'' = VBool False \<and> get_val (stored_attrs db2) ''updated_on'' = stamp'
    \<and> (\<forall>col. col \<notin> {''is_deleted'', ''updated_on'', ''change_history''} \<longrightarrow>
        get_val (stored_attrs db1) col = get_val (stored_attrs db) col \<and> get_val (stored_attrs db2) col = get_val (stored_attrs db) col)
    \<and> (\<forall>f \<in> set (history_fields c). f \<noteq> ''is_deleted'' \<longrightarrow>
        dict_get (the_default [] (snapshot_values i1)) f = dict_get snap f)"
proof -
  note first = audited_flag_write [OF soft_delete_saves [OF retired] assms(1-5), simplified not_True_eq_False, OF assms(6)]
  have own: "get_val (stored_attrs db1) scope = VInt organization"
    using assms(13,14) by (simp add: first(3))
  note cases = audited_request_cases [OF restored [unfolded audited_update_def] pins_hooks(1) [OF assms(11)],
      folded assms(12), unfolded assms(15)]
  have merged: "dict_update [(''is_deleted'', VBool False)] [(scope, VInt organization)] = [(''is_deleted'', VBool False), (scope, VInt organization)]"
    using assms(14) by (simp add: dict_update_def dict_set_fresh dict_keys_def)
  have saved: "audited_save as_list c (stated actor (fst (history_validate body))) later super_save' None
      (assign [(''is_deleted'', VBool False), (scope, VInt organization)] (loaded_row c field_names db1)) db1 = (i2, db2, None)"
    using cases(2,3) unfolding merged by blast
  have flagged: "get_val (stored_attrs db1) ''is_deleted'' = VBool True" by (simp add: first(3))
  note second = restore_stores [OF saved assms(8,9,3,10) flagged own _ assms(16)]
  have "scope \<noteq> ''is_deleted''" using assms(14) by simp
  note second = second [OF this]
  obtain snap1 where "snapshot_values i1 = Some snap1"
    "\<forall>f. f \<noteq> ''is_deleted'' \<longrightarrow> f \<in> set (history_fields c) \<longrightarrow> dict_get snap1 f = dict_get snap f"
    using first(6) by blast
  then show ?thesis using first(1,2) second by (simp add: first(3) Let_def)
qed

text \<open>A row of organization 7 retired by the system and restored by its tenant, on saves that write what they are asked to.\<close>

abbreviation flagged_class :: history_class where
  "flagged_class \<equiv> \<lparr>history_fields = [''is_deleted''], history_max_entries = 50, history_attname = \<lambda>n. n, flatchoices = \<lambda>n. []\<rparr>"

abbreviation live_columns :: row where
  "live_columns \<equiv> [(''is_deleted'', VBool False), (''organization_id'', VInt 7)]"

abbreviation live_row :: tracked where
  "live_row \<equiv> \<lparr>adding = False, attrs = live_columns, change_history = [], snapshot_values = Some [(''is_deleted'', VBool False)]\<rparr>"

abbreviation live_stored :: stored where
  "live_stored \<equiv> \<lparr>stored_attrs = live_columns, stored_history = []\<rparr>"

abbreviation retire_sample :: "tracked \<times> stored \<times> exc option" where
  "retire_sample \<equiv> audited_soft_delete (\<lambda>i. None)
    (audited_save sorted_list_of_set flagged_class system_actor ''now'' (plain_super_save VNone)) live_row live_stored"

abbreviation restore_sample :: "stored \<Rightarrow> (tracked \<times> stored \<times> exc option) \<times> change_actor option" where
  "restore_sample db \<equiv> audited_request 0 system_actor (audited_update (pinning_view Scope_Pin) [''id'', ''organization''] 0 sample_assign
    (\<lambda>a. audited_save sorted_list_of_set flagged_class a ''later'' (stamping_save VNone)) [(''is_deleted'', VBool False)]
    (loaded_row flagged_class [''is_deleted''] db) db) None"

lemma restore_sample_succeeds: "snd (snd (fst (restore_sample db))) = None"
  using pins_hooks(1) [OF sample_pins, of "[(''is_deleted'', VBool False)]" "attrs (loaded_row flagged_class [''is_deleted''] db)"]
  by (simp add: audited_request_def actor_middleware_def bound_to_def set_actor_def audited_update_def audited_write_def
      hook_pins_def refuses_def history_validate_def history_serializer_save_def reason_context_def drf_update_def
      REASON_FIELD_def dict_pop_def stamping_succeeds split: prod.splits)

lemma retire_and_restore_recorded_witness:
  "\<exists>i1 db1 i2 db2 var. retire_sample = (i1, db1, None) \<and> restore_sample db1 = ((i2, db2, None), var)
    \<and> map entry_action (stored_history db2) = [''deleted'', ''restored''] \<and> get_val (stored_attrs db2) ''organization_id'' = VInt 7"
proof -
  obtain i1 db1 where d: "retire_sample = (i1, db1, None)"
    using audited_save_plain unfolding audited_soft_delete_def option.case by blast
  obtain i2 db2 var where r: "restore_sample db1 = ((i2, db2, None), var)"
    using restore_sample_succeeds [of db1] by (metis prod.collapse)
  have lists: "lists_set sorted_list_of_set" by (simp add: lists_set_def)
  have flag: "flag_recorded flagged_class" by (simp add: flag_recorded_def)
  have "get_val (stored_attrs db1) ''is_deleted'' = VBool True"
    using audited_flag_write(3) [OF soft_delete_saves [OF d] lists plain_super_save_writes flag, of "[(''is_deleted'', VBool False)]"] by simp
  then have free: "\<forall>name \<in> set (history_fields flagged_class). nan_free (json_safe (get_val (stored_attrs db1) (history_attname flagged_class name)))"
    by simp
  have body: "dict_pop REASON_FIELD [(''is_deleted'', VBool False)] = [(''is_deleted'', VBool False)]"
    by (simp add: dict_pop_def REASON_FIELD_def)
  note sample = retire_and_restore_recorded [OF lists plain_super_save_writes flag _ _ _ d sample_promises _ sample_pins refl _ _ body free r]
  have "stored_history db2 = [flag_entry flagged_class system_actor ''now'' True,
      flag_entry flagged_class (stated system_actor (fst (history_validate [(''is_deleted'', VBool False)]))) ''later'' False]
    \<and> get_val (stored_attrs db2) ''organization_id'' = VInt 7"
    using sample [of "[(''is_deleted'', VBool False)]"]
    by (simp add: loads_all_def get_val_def REASON_FIELD_def Let_def keep_last_short)
  with d r show ?thesis by (auto simp: flag_entry_def mk_entry_def)
qed

end
