(* ===== verification/Entry_Point.thy ===== *)
theory Entry_Point
  imports Asgi_Wrappers Registration Voices
begin

text \<open>
  The entry point a service is told to build, \<open>LifespanWrapper(ServiceRegistrationASGI(
  RequestTimeoutMiddleware(application)))\<close>: the wrappers of \<open>asgi/lifespan.py\<close>, \<open>asgi/registration.py\<close> and
  \<open>asgi/timeout.py\<close> over one process, with the threads of the registration and the event loop of the
  ceiling interleaved as they may be. The parts are the definitions of their own theories; what is new is
  who hands what to whom.
\<close>

section \<open>The process\<close>

text \<open>A lifespan call is known by the messages it has received; it returns after a shutdown.\<close>

record process =
  latch :: latch_state
  loop :: server
  lifespans :: "nat \<Rightarrow> string list option"

definition initial_process :: process where
  "initial_process = \<lparr>latch = initial_latch, loop = initial_server, lifespans = \<lambda>i. None\<rparr>"

definition lifespan_returned :: "string list \<Rightarrow> bool" where
  "lifespan_returned ms \<longleftrightarrow> snd (serve_lifespan ms) = ending.Returned"

text \<open>
  The outermost wrapper keeps a lifespan scope to itself. Every other scope goes on to the registration,
  which triggers on HTTP, and from there to the ceiling.
\<close>

definition entry_call :: "environ \<Rightarrow> timeout_config \<Rightarrow> nat \<Rightarrow> conn \<Rightarrow> process \<Rightarrow> process" where
  "entry_call env cfg i c p =
    (if scope_type c = ''lifespan'' then p\<lparr>lifespans := (lifespans p)(i \<mapsto> [])\<rparr>
     else p\<lparr>latch := asgi_call env (Some (scope_type c)) (latch p), loop := arrive cfg i c (loop p)\<rparr>)"

text \<open>
  The events: a call of the application, a message of the server to a lifespan call, the other events of
  the loop, and the other events of the registration's threads. The reset of the latch is for tests.
\<close>

datatype process_event = Call nat conn | Lifespan_Message nat string | Loop loop_event | Thread latch_event

definition is_call :: "process \<Rightarrow> nat \<Rightarrow> bool" where
  "is_call p i \<longleftrightarrow> handler (reqs (loop p) i) \<noteq> Unseen \<or> lifespans p i \<noteq> None"

fun process_step :: "environ \<Rightarrow> timeout_config \<Rightarrow> process_event \<Rightarrow> process \<Rightarrow> process option" where
  "process_step env cfg (Call i c) p = (if is_call p i then None else Some (entry_call env cfg i c p))"
| "process_step env cfg (Lifespan_Message i m) p =
    (case lifespans p i of
      None \<Rightarrow> None
    | Some ms \<Rightarrow> if lifespan_returned ms then None else Some (p\<lparr>lifespans := (lifespans p)(i \<mapsto> ms @ [m])\<rparr>))"
| "process_step env cfg (Loop e) p =
    (case e of
      Arrive i c \<Rightarrow> None
    | _ \<Rightarrow> map_option (\<lambda>s. p\<lparr>loop := s\<rparr>) (loop_step cfg e (loop p)))"
| "process_step env cfg (Thread e) p =
    (case e of
      Registering_Done beats \<Rightarrow> map_option (\<lambda>s. p\<lparr>latch := s\<rparr>) (latch_step e (latch p))
    | Heartbeat_Ends k \<Rightarrow> map_option (\<lambda>s. p\<lparr>latch := s\<rparr>) (latch_step e (latch p))
    | _ \<Rightarrow> None)"

definition process_moves :: "environ \<Rightarrow> timeout_config \<Rightarrow> process \<Rightarrow> process \<Rightarrow> bool" where
  "process_moves env cfg p p' \<longleftrightarrow> (\<exists>e. process_step env cfg e p = Some p')"

section \<open>Its parts run as they do alone\<close>

definition loop_moves :: "timeout_config \<Rightarrow> server \<Rightarrow> server \<Rightarrow> bool" where
  "loop_moves cfg s s' \<longleftrightarrow> (\<exists>e. loop_step cfg e s = Some s')"

definition latch_moves :: "latch_state \<Rightarrow> latch_state \<Rightarrow> bool" where
  "latch_moves s s' \<longleftrightarrow> (\<exists>e. e \<noteq> Reset \<and> latch_step e s = Some s')"

lemma loop_event:
  "process_step env cfg (Loop e) p = Some p' \<Longrightarrow>
    loop_step cfg e (loop p) = Some (loop p') \<and> latch p' = latch p \<and> lifespans p' = lifespans p \<and> (\<forall>i c. e \<noteq> Arrive i c)"
  by (cases e) (auto split: if_splits handler_state.splits list.splits)

lemma thread_event:
  "process_step env cfg (Thread e) p = Some p' \<Longrightarrow>
    latch_step e (latch p) = Some (latch p') \<and> loop p' = loop p \<and> lifespans p' = lifespans p \<and> e \<noteq> Reset \<and> (\<forall>b. e \<noteq> Trigger b)"
  by (cases e) (auto split: if_splits)

lemma lifespan_event:
  "process_step env cfg (Lifespan_Message i m) p = Some p' \<Longrightarrow>
    latch p' = latch p \<and> loop p' = loop p \<and> (\<forall>j. lifespans p' j = None \<longleftrightarrow> lifespans p j = None)"
  by (auto split: option.splits if_splits)

lemma triggered: "latch_moves s (asgi_call env kind s) \<or> asgi_call env kind s = s"
proof -
  have "latch_moves s (snd (trigger_service_registration b s))" for b
    unfolding latch_moves_def by (rule exI [of _ "Trigger b"]) simp
  then show ?thesis by (simp add: asgi_call_def)
qed

lemma step_parts:
  assumes "process_step env cfg e p = Some p'"
  shows "loop p' = loop p \<or> loop_moves cfg (loop p) (loop p')" and "latch p' = latch p \<or> latch_moves (latch p) (latch p')"
proof -
  have "(loop p' = loop p \<or> loop_moves cfg (loop p) (loop p')) \<and> (latch p' = latch p \<or> latch_moves (latch p) (latch p'))"
  proof (cases e)
    case (Call i c)
    with assms have "\<not> is_call p i" and p': "p' = entry_call env cfg i c p" by (auto split: if_splits)
    then have "loop_step cfg (Arrive i c) (loop p) = Some (arrive cfg i c (loop p))" by (simp add: is_call_def)
    then have "loop_moves cfg (loop p) (arrive cfg i c (loop p))" unfolding loop_moves_def by blast
    with triggered [of "latch p" env "Some (scope_type c)"]
    show ?thesis
      by (auto simp: p' entry_call_def)
  next
    case (Loop e')
    with assms loop_event show ?thesis unfolding loop_moves_def by blast
  next
    case (Thread e')
    with assms thread_event show ?thesis unfolding latch_moves_def by blast
  next
    case (Lifespan_Message i m)
    with assms lifespan_event show ?thesis by blast
  qed
  then show "loop p' = loop p \<or> loop_moves cfg (loop p) (loop p')" "latch p' = latch p \<or> latch_moves (latch p) (latch p')"
    by blast+
qed

interpretation entry_loop: refinement "\<lambda>p. p = initial_process" "process_moves env cfg" "\<lambda>p. True" loop
    "\<lambda>s. s = initial_server" "loop_moves cfg" for env cfg
  by unfold_locales (auto simp: initial_process_def process_moves_def dest: step_parts(1))

interpretation entry_latch: refinement "\<lambda>p. p = initial_process" "process_moves env cfg" "\<lambda>p. True" latch
    "\<lambda>s. s = initial_latch" latch_moves for env cfg
  by unfold_locales (auto simp: initial_process_def process_moves_def dest: step_parts(2))

lemma loop_reachable: "(process_moves env cfg)\<^sup>*\<^sup>* initial_process p \<Longrightarrow> reachable cfg (\<lambda>s. True) (loop p)"
  by (rule entry_loop.abs_invariant [where P = "reachable cfg (\<lambda>s. True)"])
    (auto simp: loop_moves_def intro: reachable.intros)

text \<open>Without resets there is one stop event, and every heartbeat is on it.\<close>

definition one_thread :: "latch_state \<Rightarrow> bool" where
  "one_thread s \<longleftrightarrow> one_registration s \<and> stop_event s = 0 \<and> (\<forall>k \<in> set (heartbeats s). k = 0)"

lemma one_thread_step: "one_thread s \<Longrightarrow> latch_moves s s' \<Longrightarrow> one_thread s'"
proof -
  assume "one_thread s" and "latch_moves s s'"
  then obtain e where e: "e \<noteq> Reset" "latch_step e s = Some s'" "one_registration s" "stop_event s = 0"
    by (auto simp: latch_moves_def one_thread_def)
  then have one: "one_registration s'" using one_registration_step by blast
  have "stop_event s' = 0"
    using e by (cases e) (auto simp: trigger_service_registration_def finish_registering_def end_heartbeat_def split: if_splits)
  with one show "one_thread s'" by (auto simp: one_thread_def one_registration_def)
qed

lemma latch_one_thread: "(process_moves env cfg)\<^sup>*\<^sup>* initial_process p \<Longrightarrow> one_thread (latch p)"
proof (rule entry_latch.abs_invariant [where P = one_thread])
  show "one_thread s" if "s = initial_latch" for s
    using that by (simp add: one_thread_def one_registration_def initial_latch_def)
  show "one_thread s'" if "one_thread s" "latch_moves s s'" for s s' using that by (rule one_thread_step)
qed (rule refl)

section \<open>What the wrappers keep\<close>

lemma loop_keeps:
  assumes "loop_step cfg e s = Some s'" and "\<forall>i c. e \<noteq> Arrive i c"
  shows "(handler (reqs s' i) = Unseen \<longleftrightarrow> handler (reqs s i) = Unseen) \<and> scope (reqs s' i) = scope (reqs s i)"
proof (cases "i = event_request e")
  case False
  with loop_step_frame [OF assms(1)] show ?thesis by simp
next
  case True
  with assms show ?thesis
    by (cases e) (auto simp: app_sends_def app_ends_def ceiling_passes_def send_reply_def log_late_finish_def Let_def
        split: if_splits handler_state.splits list.splits)
qed

lemma arrived:
  "handler (reqs (arrive cfg i c s) j) = (if j = i then handler (reqs (arrive cfg i c s) i) else handler (reqs s j))"
  "scope (reqs (arrive cfg i c s) j) = (if j = i then c else scope (reqs s j))" "handler (reqs (arrive cfg i c s) i) \<noteq> Unseen"
  by (auto simp: arrive_def fresh_request_def)

text \<open>
  A lifespan call is none of the loop's; the latch has been taken exactly when registration is enabled and
  an HTTP request has come; a lifespan call gets nothing after its shutdown.
\<close>

definition http_seen :: "server \<Rightarrow> bool" where
  "http_seen s \<longleftrightarrow> (\<exists>i. handler (reqs s i) \<noteq> Unseen \<and> scope_type (scope (reqs s i)) = ''http'')"

definition process_inv :: "environ \<Rightarrow> process \<Rightarrow> bool" where
  "process_inv env p \<longleftrightarrow>
    (\<forall>i. lifespans p i \<noteq> None \<longrightarrow> handler (reqs (loop p) i) = Unseen)
    \<and> (latch_started (latch p) \<longleftrightarrow> registration_enabled env \<and> http_seen (loop p))
    \<and> (\<forall>i ms. lifespans p i = Some ms \<longrightarrow> ''lifespan.shutdown'' \<notin> set (butlast ms))"

lemma returned_after_shutdown: "lifespan_returned ms \<longleftrightarrow> ''lifespan.shutdown'' \<in> set ms"
  by (simp add: lifespan_returned_def serve_lifespan_served Let_def)

lemma latch_thread_started: "latch_step e s = Some s' \<Longrightarrow> e \<noteq> Reset \<Longrightarrow> \<forall>b. e \<noteq> Trigger b \<Longrightarrow> latch_started s' = latch_started s"
  by (cases e) (auto simp: finish_registering_def end_heartbeat_def split: if_splits)

lemma http_seen_arrive:
  "handler (reqs s i) = Unseen \<Longrightarrow> http_seen (arrive cfg i c s) \<longleftrightarrow> scope_type c = ''http'' \<or> http_seen s"
  unfolding http_seen_def by (metis arrived)

lemma process_inv_step:
  assumes "process_step env cfg e p = Some p'" and "process_inv env p"
  shows "process_inv env p'"
proof (cases e)
  case (Call i c)
  with assms(1) have new: "handler (reqs (loop p) i) = Unseen" "lifespans p i = None" and p': "p' = entry_call env cfg i c p"
    by (auto simp: is_call_def split: if_splits)
  show ?thesis
  proof (cases "scope_type c = ''lifespan''")
    case True
    with assms(2) new show ?thesis by (auto simp: process_inv_def p' entry_call_def)
  next
    case False
    have "latch_started (asgi_call env (Some (scope_type c)) (latch p)) \<longleftrightarrow>
        latch_started (latch p) \<or> scope_type c = ''http'' \<and> registration_enabled env"
      by (auto simp: asgi_call_def trigger_service_registration_def)
    moreover have "lifespans p j \<noteq> None \<Longrightarrow> handler (reqs (arrive cfg i c (loop p)) j) = Unseen" for j
      using assms(2) new by (subst arrived(1)) (auto simp: process_inv_def)
    ultimately show ?thesis
      using assms(2) False http_seen_arrive [OF new(1)] by (auto simp: process_inv_def p' entry_call_def)
  qed
next
  case (Lifespan_Message i m)
  then obtain ms where ms: "lifespans p i = Some ms" "\<not> lifespan_returned ms" "p' = p\<lparr>lifespans := (lifespans p)(i \<mapsto> ms @ [m])\<rparr>"
    using assms(1) by (auto split: option.splits if_splits)
  with assms(2) show ?thesis by (auto simp: process_inv_def returned_after_shutdown)
next
  case (Loop e')
  note l = loop_event [OF assms(1) [unfolded Loop]]
  then have keeps: "(handler (reqs (loop p') i) = Unseen \<longleftrightarrow> handler (reqs (loop p) i) = Unseen)
      \<and> scope (reqs (loop p') i) = scope (reqs (loop p) i)" for i using loop_keeps by blast
  then have "http_seen (loop p') = http_seen (loop p)" by (simp add: http_seen_def)
  with assms(2) l keeps show ?thesis by (simp add: process_inv_def)
next
  case (Thread e')
  note t = thread_event [OF assms(1) [unfolded Thread]]
  with assms(2) latch_thread_started [of e' "latch p" "latch p'"] show ?thesis by (simp add: process_inv_def)
qed

lemma process_inv_moves: "(process_moves env cfg)\<^sup>*\<^sup>* initial_process p \<Longrightarrow> process_inv env p"
proof (induction rule: rtranclp_induct)
  case base
  show ?case
    by (simp add: process_inv_def initial_process_def initial_latch_def initial_server_def fresh_request_def http_seen_def)
next
  case (step p p')
  then show ?case using process_inv_step by (auto simp: process_moves_def)
qed

section \<open>Properties\<close>


text \<open>A lifespan call that starts up, then a request.\<close>

fun process_run :: "environ \<Rightarrow> timeout_config \<Rightarrow> process_event list \<Rightarrow> process \<Rightarrow> process option" where
  "process_run env cfg [] p = Some p"
| "process_run env cfg (e # es) p = Option.bind (process_step env cfg e p) (process_run env cfg es)"

lemma run_moves: "process_run env cfg es p = Some p' \<Longrightarrow> (process_moves env cfg)\<^sup>*\<^sup>* p p'"
proof (induction es arbitrary: p)
  case (Cons e es)
  then show ?case
    by (auto simp: bind_eq_Some_conv process_moves_def intro: converse_rtranclp_into_rtranclp)
qed simp

abbreviation sample_history :: "process_event list" where
  "sample_history \<equiv> [Call 0 (get_scope\<lparr>scope_type := ''lifespan''\<rparr>), Lifespan_Message 0 ''lifespan.startup'', Call 1 get_scope]"

lemma full_environ_enabled: "registration_enabled full_environ"
  by (simp add: registration_enabled_def env_bool_def parse_bool_def lookup_def ENABLED_ENV_def TRUTHY_def text_eval)

lemma sample_history_runs:
  "\<exists>p. process_run full_environ sample_timeout_config sample_history initial_process = Some p \<and> http_seen (loop p)"
proof -
  have seen: "http_seen (arrive cfg i get_scope initial_server)" for cfg i
    using http_seen_arrive [of initial_server i] by (simp add: initial_server_def fresh_request_def)
  have unseen: "handler (reqs initial_server i) = Unseen" for i by (simp add: initial_server_def fresh_request_def)
  have waits: "\<not> lifespan_returned []" by (simp add: lifespan_returned_def)
  show ?thesis
    by (simp add: initial_process_def is_call_def entry_call_def unseen waits seen)
qed


end
