(* ===== verification/Spec2Isabelle.thy ===== *)
theory Spec2Isabelle
  imports Deadline Cloning Org_Scope Request_Timeout Static_Files Change_History Sentry_Filters
    Databases Clients Cache_Settings Asgi_Wrappers Telemetry Sentry_Config Console_Logging
    Db_Timeout Pagination Org_Bootstrap Test_Settings One_Shot Async_Schema Test_Doubles
    Deferred_History Audited_Rows Voices Client_Memo Transports Excel_Styles Api_Shapes
    Ceiling_Suite Refusals Static_Calls Async_Writes History_Shapes Row_Shapes Test_Clients
    Composition Excel_Views Sent_Bodies Retired_Rows Entry_Point
begin

text \<open>
  A verification development of \<open>netix_backend\<close>, the base layer of NETIX backend services: what every
  service of the fleet shares of its HTTP clients, its Django models and viewsets, its ASGI shell, its
  settings and its telemetry. All paths below are under \<open>src/netix_backend/\<close>.

  \<^bold>\<open>The program.\<close> A service's settings are read from the environment (\<open>env.py\<close>) into databases, caches
  and logging. A request enters through the ASGI shell (\<open>asgi/\<close>), which answers probes and the lifespan
  protocol, registers the service with the registry, and bounds the time of a request. Django then runs a
  viewset (\<open>django/views.py\<close>, \<open>views_aio.py\<close>, \<open>org_scope.py\<close>): the caller's identity, which envoy-pyauth
  attached, decides what a query sees and what a write is pinned to; rows are retired rather than deleted
  (\<open>django/models.py\<close>) and carry a trail of who changed what (\<open>django/change_history.py\<close>). Errors leave
  through one handler (\<open>django/exceptions.py\<close>). Other services are called through generated clients over a
  retrying transport (\<open>http/\<close>), found by \<open>discovery.py\<close>. Spans and error reports go out through
  \<open>observability/\<close>.

  \<^bold>\<open>Foundations.\<close>
  \<^item> \<open>Prelude\<close>: the exceptions the code raises or catches, results as \<open>exc + 'a\<close>, dictionaries as
    association lists in insertion order (the locale \<open>keyed_store\<close> is interpreted on them), and the
    named collections the proofs share.
  \<^item> \<open>Py_Text\<close>: Python's text operations, \<open>int\<close> and \<open>float\<close> of a text, and its floats as the reals with
    infinities and NaN. \<open>Py_Value\<close>: JSON-like values, their truth and their text.
    \<open>Json_Text\<close>: \<open>json.loads\<close> on flat objects; the locale \<open>text_reader\<close>, a reader that stops where its
    writer did, is interpreted on texts, numbers and values.
  \<^item> \<open>Attempt_Loop\<close>: the locales \<open>attempt_loop\<close> and \<open>counted_loop\<close>, a numbered loop that stops at its first
    final turn; interpreted on the transports, the registration and the static file helpers.
  \<^item> \<open>Refinement\<close>: the locale \<open>refinement\<close>, a transition system that implements an abstract one,
    interpreted on the request ceiling and on the entry point; and \<open>trace_refinement\<close>, its labelled form in which
    every answer is that of an abstract step, interpreted on the client factory.

  \<^bold>\<open>HTTP.\<close>
  \<^item> \<open>Env\<close> (\<open>env.py\<close>): every reader of a variable, which is a map given as an argument.
  \<^item> \<open>Retry\<close> (\<open>http/retry.py\<close>): settings, policy, delays, and the loop of both transports with its events.
    What httpx, the clock and the random draws do at each attempt is a function of the attempt's number.
  \<^item> \<open>Deadline\<close>: the loop under a deadline, whose clock readings are given; \<open>One_Shot\<close> compares it with
    the transport it replaces. \<open>Transports\<close>: the transport classes, their log lines, and what a built
    client sends through them, which joins \<open>Clients\<close> with \<open>Retry\<close>.
  \<^item> \<open>Discovery\<close> (\<open>discovery.py\<close>): the registry snapshot over a history of lookups and refreshes.
    \<open>Clients\<close> (\<open>http/clients.py\<close>): construction and cache; \<open>Client_Memo\<close>: the memo table whose answers
    its callers get.
    \<open>Static_Files\<close> (\<open>http/static.py\<close>): the attempt loop of uploads and downloads; \<open>Static_Calls\<close>: the
    helpers around it, with the client each borrows, or builds and closes.

  \<^bold>\<open>Django.\<close>
  \<^item> \<open>Tenancy\<close> and \<open>Viewsets\<close> (\<open>django/views.py\<close>, \<open>views_aio.py\<close>): identity, pinning, scoping, retiring,
    atomicity, include_deleted; the query sets are a datatype, interpreted over a row store whose matching
    and ordering are arguments. \<open>Async_Writes\<close>: create and update on both viewsets, down to what a save
    leaves in the database under the dispatch. \<open>Org_Scope\<close> (\<open>org_scope.py\<close>): a superuser's access to another organization.
  \<^item> \<open>Class_Order\<close>: Python's order of a class and its bases (C3), and the look-up of a name along it.
    \<open>Composition\<close>: the package's class statements in that order, and what a service's own viewset on top
    of them answers with, whose framework classes are given; \<open>Excel_Views\<close> (\<open>excel.py\<close>, \<open>excel_aio.py\<close>,
    \<open>excel_envoy.py\<close>): the styles the export viewsets find along it.
  \<^item> \<open>Row_Shapes\<close> (\<open>models.py\<close>): the columns and defaults the abstract models declare, and that new rows fit
    the rest of the package. \<open>Models\<close>: saves and soft deletion around Django's own save, whose documented contract is
    \<open>saves_columns\<close>. \<open>Change_History\<close>: actors, coercion, the diff, the trail and the snapshot.
    \<open>History_Shapes\<close>: the trail as stored and as \<open>serializers.py\<close> declares it. \<open>Deferred_History\<close>: the same on rows that are only partly loaded. \<open>Audited_Rows\<close>: the two bases
    stacked as a service stacks them. \<open>Tenant_Updates\<close>: a PATCH or a POST of such a row by a tenant,
    from the middleware to the stored row. \<open>Retired_Rows\<close>: such a row retired, and restored by a PATCH.
    \<open>Refusals\<close>: the views' refusals through the exception handler.
  \<^item> \<open>Org_Bootstrap\<close>, \<open>Exceptions\<close>, \<open>Pagination\<close>, \<open>Async_Schema\<close>, \<open>Api_Shapes\<close>, \<open>Excel_Styles\<close>, \<open>Cloning\<close>: the
    files of these names; styles live on an explicit heap because their contract is about aliasing.
  \<^item> \<open>Databases\<close>, \<open>Db_Timeout\<close>, \<open>Cache_Settings\<close>, \<open>Test_Settings\<close>, \<open>Test_Doubles\<close>, \<open>Test_Clients\<close>: settings
    factories, the connection receivers, and what the package gives test suites: stubs, API clients and patches
    over an explicit resolver and filter, and the modules whose names are fetched on first access.

  \<^bold>\<open>ASGI and observability.\<close>
  \<^item> \<open>Request_Timeout\<close> (\<open>asgi/timeout.py\<close>): the ceiling as one event loop over any number of requests, each
    with its application and its channel; reachability is inductive. \<open>Voices\<close>: the protocol of one answer
    it implements. \<open>Ceiling_Contract\<close> (\<open>asgi/testing.py\<close>): the driver of the shipped contract suite over that
    loop, with time as the moments an application acts at; \<open>Ceiling_Suite\<close>: its checks, which every
    middleware that fits its knobs passes. \<open>Registration\<close> (\<open>asgi/registration.py\<close>), \<open>Asgi_Wrappers\<close> (\<open>asgi/lifespan.py\<close>,
    \<open>http/health.py\<close>). \<open>Sent_Bodies\<close>: the JSON these three send, read back.
    \<open>Entry_Point\<close>: the wrappers stacked as a service stacks them, over one process, with the locale
    \<open>refinement\<close> interpreted for the loop and for the threads in it.
  \<^item> \<open>Telemetry\<close>, \<open>Sentry_Config\<close>, \<open>Sentry_Filters\<close>, \<open>Console_Logging\<close> (\<open>observability/\<close>); an exception's
    chain is a walk on a heap, since causes and contexts may form a cycle.

  \<^bold>\<open>What the lemmas show.\<close> Tenancy: no write of a tenant leaves its organization and no read shows another's
  rows. Lifecycle: a row is retired once, its trail holds exactly what was written, and where it does not.
  HTTP: attempts, each pause and each timeout are bounded, non-idempotent requests are not resent after an answer,
  and a client never carries another identity's credential. ASGI: one answer per request, bounded abandoned
  work, one registration per process. The rest are agreements (synchronous and asynchronous, strict and
  lenient, deadline and transport), round trips, and one-time effects.

  \<^bold>\<open>Bounds and fuel.\<close> Loops that count are functions with a measure on the budget left. The heartbeat runs
  on fuel, one unit for each wait, and its property says what any amount of fuel shows. Reading a partly
  loaded row uses one unit for each column not loaded, since each nested refresh loads one;
  copying a style reads as deep as the heap is large, since a nest without cycles is no deeper.

  \<^bold>\<open>Idealisations.\<close> Text is ASCII; case, space and digit classes are those of ASCII. Floats are exact reals
  with infinities and NaN, so no rounding. Threads and coroutines are interleaved at the calls that
  can block. Third-party code (Django's ORM and signals, Django REST framework, envoy-pyauth, httpx,
  requests, drf-spectacular, drf-excel, OpenTelemetry, the Sentry SDK) is an argument of the
  definitions that call it; where a property needs what its documentation says, that is a named
  hypothesis with a witness that satisfies it.

  \<^bold>\<open>Not modelled.\<close> Re-exports, type aliases and module metadata; the filter and paginator classes,
  which only combine third-party bases; the bodies of the async export handlers, which only pass the call
  on; the fields of the named and bootstrap serializers' base classes; the check of
  \<open>asgi/testing.py\<close> that times the real event loop, and the one that runs a lifespan scope through the
  ceiling alone (\<open>Entry_Point\<close> shows what it asks of the whole entry point); the registration of the
  fixtures of \<open>django/testing.py\<close> with pytest; the log lines of components other than the transports,
  except where logging is the behaviour.

  \<^bold>\<open>Plan.\<close> What is left is the log lines of the components that only report through them.
\<close>

end
